(* ===== verification/Prelude.thy ===== *)
theory Prelude
  imports "HOL-Library.Word" "HOL-Library.Multiset" "HOL-Library.Code_Target_Numeral"
begin

text \<open>
  Shared ground of the development: the Rust types and standard-library operations that several
  modules of the crate use. Machine integers are words of their width (\<open>u64\<close>, \<open>i64\<close>, \<open>u32\<close>,
  \<open>i32\<close>, \<open>usize\<close>; a signed value is read with \<open>sint\<close>), \<open>Result<T, E>\<close> is the sum type with
  \<open>Inl\<close> for \<open>Err\<close> and \<open>Inr\<close> for \<open>Ok\<close>, a Rust \<open>String\<close> is its UTF-8 bytes as a
  \<^typ>\<open>string\<close>, a \<open>Duration\<close> or point in time is a number of nanoseconds. A call that may panic
  yields an \<open>outcome\<close>. The second half holds decimal printing and reading, with the facts on
  digits that the formatting and the parsing proofs share.
\<close>

section \<open>Collections of facts\<close>

named_theorems result_simps \<open>equations of the Result combinators\<close>
named_theorems rust_std \<open>definitions of the standard-library operations of the model\<close>

section \<open>Types\<close>

type_synonym u64 = "64 word"
type_synonym i64 = "64 word"
type_synonym u32 = "32 word"
type_synonym i32 = "32 word"
type_synonym u16 = "16 word"
type_synonym usize = "64 word"

type_synonym nanos = nat

datatype 'a outcome = Returned 'a | Panic string

section \<open>Result and Option combinators\<close>

abbreviation Ok :: "'a \<Rightarrow> 'e + 'a" where
  "Ok \<equiv> Inr"

abbreviation Err :: "'e \<Rightarrow> 'e + 'a" where
  "Err \<equiv> Inl"

text \<open>The \<open>?\<close> operator: go on with the value, or return the error.\<close>

fun and_then :: "'e + 'a \<Rightarrow> ('a \<Rightarrow> 'e + 'b) \<Rightarrow> 'e + 'b" where
  "and_then (Inl e) f = Inl e"
| "and_then (Inr x) f = f x"

fun map_err :: "('e \<Rightarrow> 'f) \<Rightarrow> 'e + 'a \<Rightarrow> 'f + 'a" where
  "map_err h (Inl e) = Inl (h e)"
| "map_err h (Inr x) = Inr x"

fun ok_or :: "'a option \<Rightarrow> 'e \<Rightarrow> 'e + 'a" where
  "ok_or None e = Inl e"
| "ok_or (Some x) e = Inr x"

fun option_filter :: "('a \<Rightarrow> bool) \<Rightarrow> 'a option \<Rightarrow> 'a option" where
  "option_filter p None = None"
| "option_filter p (Some x) = (if p x then Some x else None)"

fun unwrap_or :: "'a option \<Rightarrow> 'a \<Rightarrow> 'a" where
  "unwrap_or None d = d"
| "unwrap_or (Some x) d = x"

text \<open>\<open>Iterator::collect\<close> into a \<open>Result<Vec<_>, _>\<close>: the first error, or every value.\<close>

fun collect_result :: "('e + 'a) list \<Rightarrow> 'e + 'a list" where
  "collect_result [] = Inr []"
| "collect_result (r # rs) = and_then r (\<lambda>x. and_then (collect_result rs) (\<lambda>xs. Inr (x # xs)))"

lemma and_then_Inr_iff [result_simps]:
  "and_then r f = Inr y \<longleftrightarrow> (\<exists>x. r = Inr x \<and> f x = Inr y)"
  by (cases r) auto

lemma and_then_Inl_iff [result_simps]:
  "and_then r f = Inl e \<longleftrightarrow> r = Inl e \<or> (\<exists>x. r = Inr x \<and> f x = Inl e)"
  by (cases r) auto

lemma map_err_Inr_iff [simp]: "map_err h r = Inr x \<longleftrightarrow> r = Inr x"
  by (cases r) auto

lemma map_err_Inl_iff [result_simps]: "map_err h r = Inl e \<longleftrightarrow> (\<exists>e'. r = Inl e' \<and> e = h e')"
  by (cases r) auto

lemma ok_or_Inr_iff [simp]: "ok_or m e = Inr x \<longleftrightarrow> m = Some x"
  by (cases m) auto

lemma ok_or_Inl_iff [result_simps]: "ok_or m e = Inl e' \<longleftrightarrow> m = None \<and> e' = e"
  by (cases m) auto

lemma option_filter_Some_iff [simp]: "option_filter p m = Some x \<longleftrightarrow> m = Some x \<and> p x"
  by (cases m) auto

lemma option_filter_idem [simp]: "option_filter p (option_filter p m) = option_filter p m"
  by (cases m) auto

lemma collect_result_map_Inr [simp]: "collect_result (map (\<lambda>x. Inr (f x)) xs) = Inr (map f xs)"
  by (induction xs) auto

lemma collect_result_Inr_iff:
  "collect_result rs = Inr xs \<longleftrightarrow> rs = map Inr xs"
proof (induction rs arbitrary: xs)
  case Nil
  then show ?case by auto
next
  case (Cons r rs)
  then show ?case by (cases xs) (auto simp: result_simps)
qed

lemma collect_result_map_iff:
  assumes "\<And>x y. f x = Inr y \<longleftrightarrow> p x \<and> y = g x"
  shows "collect_result (map f xs) = Inr ys \<longleftrightarrow> (\<forall>x \<in> set xs. p x) \<and> ys = map g xs"
  using assms by (induction xs arbitrary: ys) (auto simp: result_simps)

lemma collect_result_cong_Inr:
  "(\<And>x. x \<in> set xs \<Longrightarrow> f x = Inr (g x)) \<Longrightarrow> collect_result (map f xs) = Inr (map g xs)"
  by (induction xs) auto

section \<open>Sorting by a key\<close>

text \<open>With an injective key there is only one sorted arrangement.\<close>

lemma sort_key_unique:
  assumes "inj_on f (set xs)" and "mset ys = mset xs" and "sorted (map f ys)"
  shows "ys = sort_key f xs"
proof (rule map_inj_on)
  have "mset (map f ys) = mset (map f (sort_key f xs))" using assms(2) by simp
  then show "map f ys = map f (sort_key f xs)"
    using assms(3) by (metis properties_for_sort sorted_sort_key)
  show "inj_on f (set ys \<union> set (sort_key f xs))"
    using assms(1) mset_eq_setD [OF assms(2)] by simp
qed

section \<open>Checked integer conversions\<close>

definition i64_max :: int where
  "i64_max = 2 ^ 63 - 1"

definition u64_max :: int where
  "u64_max = 2 ^ 64 - 1"

text \<open>\<open>u64::try_from(i64)\<close>, \<open>i64::try_from(u64)\<close> and \<open>i32::try_from(usize)\<close>; the error carries
  no information.\<close>

definition u64_try_from_i64 :: "i64 \<Rightarrow> unit + u64" where
  "u64_try_from_i64 x = (if sint x < 0 then Err () else Ok x)"

definition i64_try_from_u64 :: "u64 \<Rightarrow> unit + i64" where
  "i64_try_from_u64 x = (if uint x > i64_max then Err () else Ok x)"

definition i32_try_from_usize :: "usize \<Rightarrow> unit + i32" where
  "i32_try_from_usize x = (if uint x > 2 ^ 31 - 1 then Err () else Ok (ucast x))"

text \<open>\<open>u64::checked_shl\<close>: \<open>None\<close> when the shift is not smaller than the width; and the saturating
  increment of a \<open>u32\<close>.\<close>

definition u64_checked_shl :: "u64 \<Rightarrow> u32 \<Rightarrow> u64 option" where
  "u64_checked_shl x n = (if unat n < 64 then Some (push_bit (unat n) x) else None)"

definition u32_saturating_add :: "u32 \<Rightarrow> u32 \<Rightarrow> u32" where
  "u32_saturating_add a b = (if unat a + unat b < 2 ^ 32 then a + b else - 1)"

text \<open>\<open>Duration::from_secs\<close>, in nanoseconds.\<close>

definition duration_from_secs :: "u64 \<Rightarrow> nanos" where
  "duration_from_secs s = unat s * 1000000000"

lemmas [rust_std] = i64_max_def u64_max_def u64_try_from_i64_def i64_try_from_u64_def
  i32_try_from_usize_def u64_checked_shl_def u32_saturating_add_def duration_from_secs_def

lemma sint_eqD:
  fixes x y :: "'a::len word"
  assumes "sint x = sint y"
  shows "x = y"
  using assms by (metis signed_word_eqI)

lemma uint_eq_sint_nonneg:
  fixes x :: "64 word"
  assumes "0 \<le> sint x"
  shows "uint x = sint x"
proof -
  have "sint x < 2 ^ 63" using sint_lt [of x] by simp
  with assms show ?thesis by (simp add: uint_sint take_bit_eq_mod)
qed

lemma sint_eq_uint_small:
  fixes x :: "64 word"
  assumes "uint x \<le> i64_max"
  shows "sint x = uint x"
proof -
  have "- (2 ^ 63) \<le> uint x" by (rule order_trans [of _ 0]) simp_all
  moreover from assms have "uint x < 2 ^ 63" by (simp add: i64_max_def)
  ultimately have "signed_take_bit 63 (uint x) = uint x" by (rule signed_take_bit_int_eq_self)
  then show ?thesis by (simp add: sint_uint)
qed

lemma u64_try_from_i64_Ok_iff: "u64_try_from_i64 x = Ok y \<longleftrightarrow> 0 \<le> sint x \<and> y = x"
  by (auto simp: u64_try_from_i64_def)

lemma i64_try_from_u64_Ok_iff: "i64_try_from_u64 x = Ok y \<longleftrightarrow> uint x \<le> i64_max \<and> y = x"
  by (auto simp: i64_try_from_u64_def)

text \<open>The two conversions are inverse to each other where they succeed.\<close>

lemma u64_i64_round_trip: "i64_try_from_u64 x = Ok y \<Longrightarrow> u64_try_from_i64 y = Ok x"
  using sint_eq_uint_small [of x] by (auto simp: i64_try_from_u64_Ok_iff u64_try_from_i64_Ok_iff)

lemma i64_u64_round_trip: "u64_try_from_i64 x = Ok y \<Longrightarrow> i64_try_from_u64 y = Ok x"
  using uint_eq_sint_nonneg [of x] sint_lt [of x]
  by (auto simp: i64_try_from_u64_Ok_iff u64_try_from_i64_Ok_iff i64_max_def)

section \<open>Decimal printing and reading\<close>

definition digit_char :: "nat \<Rightarrow> char" where
  "digit_char d = ''0123456789'' ! (d mod 10)"

definition digit_val :: "char \<Rightarrow> nat option" where
  "digit_val c = (let k = of_char c :: nat in if 48 \<le> k \<and> k \<le> 57 then Some (k - 48) else None)"

text \<open>The \<open>Display\<close> text of an unsigned number: no sign and no leading zeros.\<close>

fun show_nat :: "nat \<Rightarrow> string" where
  "show_nat n = (if n < 10 then [digit_char n] else show_nat (n div 10) @ [digit_char (n mod 10)])"

declare show_nat.simps [simp del]

definition show_int :: "int \<Rightarrow> string" where
  "show_int i = (if i < 0 then CHR ''-'' # show_nat (nat (- i)) else show_nat (nat i))"

text \<open>The format directive \<open>{:0w}\<close> on an unsigned number.\<close>

definition show_nat_padded :: "nat \<Rightarrow> nat \<Rightarrow> string" where
  "show_nat_padded w n = replicate (w - length (show_nat n)) (CHR ''0'') @ show_nat n"

text \<open>Reading digits, most significant first, on top of the value \<open>acc\<close> read so far.\<close>

fun read_digits :: "nat \<Rightarrow> string \<Rightarrow> nat option" where
  "read_digits acc [] = Some acc"
| "read_digits acc (c # cs) =
     (case digit_val c of None \<Rightarrow> None | Some d \<Rightarrow> read_digits (10 * acc + d) cs)"

definition is_digit :: "char \<Rightarrow> bool" where
  "is_digit c \<longleftrightarrow> digit_val c \<noteq> None"

definition all_digits :: "string \<Rightarrow> bool" where
  "all_digits s \<longleftrightarrow> list_all is_digit s"

lemma replicate_numeral [simp]: "replicate (numeral k) x = x # replicate (pred_numeral k) x"
  by (simp add: numeral_eq_Suc)

lemma digit_val_digit_char [simp]: "d < 10 \<Longrightarrow> digit_val (digit_char d) = Some d"
proof -
  assume "d < 10"
  then have "d \<in> {0, 1, 2, 3, 4, 5, 6, 7, 8, 9}" by auto
  then show ?thesis by (auto simp: digit_char_def digit_val_def)
qed

lemma digit_char_zero: "digit_char 0 = CHR ''0''"
  by (simp add: digit_char_def)

lemma digit_val_bound: "digit_val c = Some d \<Longrightarrow> d < 10"
  by (auto simp: digit_val_def Let_def split: if_splits)

lemma digit_char_inj: "a < 10 \<Longrightarrow> b < 10 \<Longrightarrow> digit_char a = digit_char b \<longleftrightarrow> a = b"
  by (metis digit_val_digit_char option.inject)

lemma show_nat_small: "n < 10 \<Longrightarrow> show_nat n = [digit_char n]"
  by (simp add: show_nat.simps)

lemma show_nat_step: "\<not> n < 10 \<Longrightarrow> show_nat n = show_nat (n div 10) @ [digit_char (n mod 10)]"
  by (simp add: show_nat.simps)

lemma show_nat_not_Nil [simp]: "show_nat n \<noteq> []"
  by (subst show_nat.simps) simp

lemma all_digits_simps [simp]:
  "all_digits []"
  "all_digits (c # cs) \<longleftrightarrow> is_digit c \<and> all_digits cs"
  "all_digits (xs @ ys) \<longleftrightarrow> all_digits xs \<and> all_digits ys"
  by (auto simp: all_digits_def)

lemma digit_val_zero [simp]: "digit_val (CHR ''0'') = Some 0"
  by (simp add: digit_val_def)

lemma is_digit_zero [simp]: "is_digit (CHR ''0'')"
  by (simp add: is_digit_def)

lemma is_digit_digit_char [simp]: "d < 10 \<Longrightarrow> is_digit (digit_char d)"
  by (simp add: is_digit_def)

lemma all_digits_replicate_zero [simp]: "all_digits (replicate k (CHR ''0''))"
  by (induction k) auto

lemma all_digits_show_nat [simp]: "all_digits (show_nat n)"
proof (induction n rule: show_nat.induct)
  case (1 n)
  then show ?case by (cases "n < 10") (auto simp: show_nat_small show_nat_step)
qed

lemma all_digits_padded [simp]: "all_digits (show_nat_padded w n)"
  by (simp add: show_nat_padded_def)

lemma read_digits_append:
  "read_digits acc (xs @ ys) = Option.bind (read_digits acc xs) (\<lambda>a. read_digits a ys)"
  by (induction acc xs rule: read_digits.induct) (auto split: option.splits)

lemma read_digits_zeros [simp]: "read_digits 0 (replicate k (CHR ''0'') @ s) = read_digits 0 s"
  by (induction k) auto

lemma read_show_nat [simp]: "read_digits 0 (show_nat n) = Some n"
proof (induction n rule: show_nat.induct)
  case (1 n)
  show ?case
  proof (cases "n < 10")
    case True
    then show ?thesis by (simp add: show_nat_small)
  next
    case False
    with 1 show ?thesis by (simp add: show_nat_step read_digits_append)
  qed
qed

lemma read_show_nat_padded [simp]: "read_digits 0 (show_nat_padded w n) = Some n"
  by (simp add: show_nat_padded_def)

lemma show_nat_inj: "show_nat m = show_nat n \<longleftrightarrow> m = n"
  by (metis option.inject read_show_nat)

lemma read_digits_all_digits: "all_digits s \<longleftrightarrow> (\<exists>n. read_digits acc s = Some n)"
  by (induction acc s rule: read_digits.induct) (auto simp: is_digit_def split: option.splits)

lemma read_digits_bound: "read_digits acc s = Some n \<Longrightarrow> n < (acc + 1) * 10 ^ length s"
proof (induction acc s rule: read_digits.induct)
  case (1 acc)
  then show ?case by simp
next
  case (2 acc c cs)
  then obtain d where d: "digit_val c = Some d" and r: "read_digits (10 * acc + d) cs = Some n"
    by (auto split: option.splits)
  from 2 d r have "n < (10 * acc + d + 1) * 10 ^ length cs" by simp
  also have "\<dots> \<le> (10 * acc + 10) * 10 ^ length cs"
    using digit_val_bound [OF d] by (intro mult_right_mono) auto
  finally show ?case by (simp add: algebra_simps)
qed

lemma length_show_nat_le: "n < 10 ^ k \<Longrightarrow> 0 < k \<Longrightarrow> length (show_nat n) \<le> k"
proof (induction n arbitrary: k rule: show_nat.induct)
  case (1 n)
  show ?case
  proof (cases "n < 10")
    case True
    with 1 show ?thesis by (simp add: show_nat_small)
  next
    case False
    then obtain j where k: "k = Suc j" and "0 < j"
      using 1 by (cases k; cases "k - 1") auto
    from 1 k have "n div 10 < 10 ^ j" by (simp add: less_mult_imp_div_less mult.commute)
    with 1 False k \<open>0 < j\<close> show ?thesis by (simp add: show_nat_step)
  qed
qed

lemma length_show_nat_padded [simp]: "n < 10 ^ w \<Longrightarrow> 0 < w \<Longrightarrow> length (show_nat_padded w n) = w"
  using length_show_nat_le [of n w] by (simp add: show_nat_padded_def)

text \<open>A printed number has no leading zero unless it is the number zero.\<close>

lemma hd_show_nat: "0 < n \<Longrightarrow> hd (show_nat n) \<noteq> CHR ''0''"
proof (induction n rule: show_nat.induct)
  case (1 n)
  show ?case
  proof (cases "n < 10")
    case True
    with 1 show ?thesis using digit_char_inj [of n 0] by (simp add: show_nat_small digit_char_zero)
  next
    case False
    with 1 show ?thesis by (simp add: show_nat_step)
  qed
qed

text \<open>Splitting at the first character that is no digit.\<close>

lemma takeWhile_digits_append:
  "all_digits xs \<Longrightarrow> \<not> is_digit c \<Longrightarrow> takeWhile is_digit (xs @ c # ys) = xs"
  by (induction xs) auto

lemma dropWhile_digits_append:
  "all_digits xs \<Longrightarrow> \<not> is_digit c \<Longrightarrow> dropWhile is_digit (xs @ c # ys) = c # ys"
  by (induction xs) auto

end
