(* ===== verification/Calendar.thy ===== *)
theory Calendar
  imports Prelude
begin

text \<open>
  The proleptic Gregorian calendar and the RFC 3339 text of a UTC instant, as the reference that
  the documented behaviour of the chrono crate is stated against: the civil date of a unix
  timestamp, its inverse, and the text form \<^verbatim>\<open>YYYY-MM-DDTHH:MM:SSZ\<close>. The service itself has no
  calendar code; the theory gives a meaning to "formats an instant as RFC 3339 in UTC with second
  precision" in \<^verbatim>\<open>src/src/domain/format.rs\<close>. The lemmas show that the civil date is valid, that it
  determines the timestamp and is determined by it, and that the text can be read back.
\<close>

section \<open>Days, months and years\<close>

record civil =
  year :: int
  month :: int
  day :: int
  hour :: int
  minute :: int
  second :: int

definition leap :: "int \<Rightarrow> bool" where
  "leap y \<longleftrightarrow> 4 dvd y \<and> (\<not> 100 dvd y \<or> 400 dvd y)"

definition year_len :: "int \<Rightarrow> int" where
  "year_len y = 365 + (if leap y then 1 else 0)"

text \<open>Days from 0000-01-01 to the first day of the year, and days of the year before a month.\<close>

definition year_start :: "int \<Rightarrow> int" where
  "year_start y = 365 * y + (y + 3) div 4 - (y + 99) div 100 + (y + 399) div 400"

definition month_start :: "int \<Rightarrow> int \<Rightarrow> int" where
  "month_start y m =
     [0, 31, 59, 90, 120, 151, 181, 212, 243, 273, 304, 334, 365] ! nat (m - 1)
       + (if 2 < m \<and> leap y then 1 else 0)"

definition days_in_month :: "int \<Rightarrow> int \<Rightarrow> int" where
  "days_in_month y m = month_start y (m + 1) - month_start y m"

text \<open>The last \<open>m\<close> up to \<open>k\<close> whose start \<open>f m\<close> is not after \<open>n\<close>.\<close>

function locate :: "(int \<Rightarrow> int) \<Rightarrow> int \<Rightarrow> int \<Rightarrow> int \<Rightarrow> int" where
  "locate f m k n = (if m < k \<and> f (m + 1) \<le> n then locate f (m + 1) k n else m)"
  by pat_completeness auto
termination
  by (relation "measure (\<lambda>(f, m, k, n). nat (k - m))") auto

declare locate.simps [simp del]

definition month_of_yday :: "int \<Rightarrow> int \<Rightarrow> int" where
  "month_of_yday y n = locate (month_start y) 1 12 n"

text \<open>The year of a day number: an estimate from the mean year length, corrected by at most one.\<close>

definition year_of_day :: "int \<Rightarrow> int" where
  "year_of_day d =
     (let g = (400 * d) div 146097
      in if d < year_start g then g - 1 else if year_start (g + 1) \<le> d then g + 1 else g)"

definition epoch_day :: int where
  "epoch_day = 719528"

definition civil_of_unix :: "int \<Rightarrow> civil" where
  "civil_of_unix t =
     (let d = t div 86400 + epoch_day; s = t mod 86400; y = year_of_day d; n = d - year_start y;
          m = month_of_yday y n
      in \<lparr>year = y, month = m, day = n - month_start y m + 1,
          hour = s div 3600, minute = s div 60 mod 60, second = s mod 60\<rparr>)"

definition unix_of_civil :: "civil \<Rightarrow> int" where
  "unix_of_civil c =
     (year_start (year c) + month_start (year c) (month c) + day c - 1 - epoch_day) * 86400
       + hour c * 3600 + minute c * 60 + second c"

definition valid_civil :: "civil \<Rightarrow> bool" where
  "valid_civil c \<longleftrightarrow>
     1 \<le> month c \<and> month c \<le> 12 \<and> 1 \<le> day c \<and> day c \<le> days_in_month (year c) (month c)
       \<and> 0 \<le> hour c \<and> hour c < 24 \<and> 0 \<le> minute c \<and> minute c < 60 \<and> 0 \<le> second c \<and> second c < 60"

lemma ceil_div_int:
  fixes y n k :: int
  assumes n: "n = k + 1" and k: "0 \<le> k"
  shows "(y + k) div n = y div n + (if n dvd y then 0 else 1)"
proof -
  have pos: "0 < n" using n k by simp
  have y: "y = n * (y div n) + y mod n" by simp
  have r: "0 \<le> y mod n" "y mod n < n"
    using pos_mod_sign [OF pos] pos_mod_bound [OF pos] by blast+
  show ?thesis
  proof (cases "n dvd y")
    case True
    with n have "y + k = n * (y div n) + k" by simp
    then have "(y + k) div n = y div n" by (rule int_div_pos_eq) (simp_all add: n k)
    with True show ?thesis by simp
  next
    case False
    have "y + k = n * (y div n + 1) + (y mod n - 1)" using y n by (simp add: algebra_simps)
    moreover have "y mod n \<noteq> 0" using False by (simp add: dvd_eq_mod_eq_0)
    ultimately have "(y + k) div n = y div n + 1"
      using r by - (rule int_div_pos_eq, assumption, linarith+)
    with False show ?thesis by simp
  qed
qed

lemma ceil_div_Suc:
  fixes y n k :: int
  assumes n: "n = k + 1" and k: "0 \<le> k"
  shows "(y + 1 + k) div n = (y + k) div n + (if n dvd y then 1 else 0)"
proof -
  have "(y + 1 + k) div n = (y + n) div n" using n by (simp add: algebra_simps)
  also have "\<dots> = y div n + 1" using n k by (intro div_add_self2) simp
  finally show ?thesis using ceil_div_int [OF n k, of y] by simp
qed

lemma leap_day_count:
  "(q \<longrightarrow> h) \<Longrightarrow> (h \<longrightarrow> f) \<Longrightarrow>
     (if f \<and> (\<not> h \<or> q) then 1 else 0) =
       (if f then 1 else 0) - (if h then 1 else 0) + (if q then 1 else (0::int))"
  by (cases q; cases h; cases f) simp_all

lemma year_start_Suc: "year_start (y + 1) = year_start y + year_len y"
proof -
  have e: "(y + 1 + 3) div 4 = (y + 3) div 4 + (if 4 dvd y then 1 else 0)"
    "(y + 1 + 99) div 100 = (y + 99) div 100 + (if 100 dvd y then 1 else 0)"
    "(y + 1 + 399) div 400 = (y + 399) div 400 + (if 400 dvd y then 1 else 0)"
    by (rule ceil_div_Suc; simp)+
  have "400 dvd y \<longrightarrow> 100 dvd y" "100 dvd y \<longrightarrow> 4 dvd y"
    using dvd_trans [of 100 400 y] dvd_trans [of 4 100 y] by simp_all
  then have l: "year_len y = 365 + ((if 4 dvd y then 1 else 0) - (if 100 dvd y then 1 else 0)
      + (if 400 dvd y then 1 else 0))"
    unfolding year_len_def leap_def by (simp only: leap_day_count)
  show ?thesis unfolding year_start_def e l by algebra
qed

lemma year_start_scaled:
  "146097 * y - 396 \<le> 400 * year_start y \<and> 400 * year_start y \<le> 146097 * y + 699"
proof -
  define a b c where "a = (y + 3) mod 4" and "b = (y + 99) mod 100" and "c = (y + 399) mod 400"
  have q: "4 * ((y + 3) div 4) + a = y + 3" "100 * ((y + 99) div 100) + b = y + 99"
    "400 * ((y + 399) div 400) + c = y + 399"
    by (simp_all add: a_def b_def c_def)
  have "400 * year_start y = 146097 * y + (303 - 100 * a + 4 * b - c)"
    unfolding year_start_def using q by algebra
  moreover have "0 \<le> a" "a \<le> 3" "0 \<le> b" "b \<le> 99" "0 \<le> c" "c \<le> 399"
    by (simp_all add: a_def b_def c_def)
  ultimately show ?thesis by simp
qed

lemma year_start_mono: "y \<le> z \<Longrightarrow> year_start y \<le> year_start z"
proof (induction z rule: int_ge_induct)
  case base
  then show ?case by simp
next
  case (step i)
  then show ?case using year_start_Suc [of i] by (simp add: year_len_def split: if_splits)
qed

lemma year_of_day_bounds:
  "year_start (year_of_day d) \<le> d" "d < year_start (year_of_day d + 1)"
proof -
  define g where "g = (400 * d) div 146097"
  have "\<exists>r. 146097 * g + r = 400 * d \<and> 0 \<le> r \<and> r < 146097"
    unfolding g_def by (rule exI [of _ "(400 * d) mod 146097"]) simp
  then obtain r where "146097 * g + r = 400 * d" "0 \<le> r" "r < 146097" by blast
  note r = this
  have "400 * year_start (g - 1) < 400 * d"
    using r year_start_scaled [of "g - 1"] by (simp add: algebra_simps)
  moreover have "400 * d < 400 * year_start (g + 2)"
    using r year_start_scaled [of "g + 2"] by (simp add: algebra_simps)
  ultimately show "year_start (year_of_day d) \<le> d" "d < year_start (year_of_day d + 1)"
    by (auto simp: year_of_day_def Let_def add.commute simp flip: g_def)
qed

text \<open>The bounds determine the year.\<close>

lemma year_of_day_unique:
  assumes "year_start y \<le> d" and "d < year_start (y + 1)"
  shows "year_of_day d = y"
proof (rule ccontr)
  assume "year_of_day d \<noteq> y"
  then have "year_of_day d + 1 \<le> y \<or> y + 1 \<le> year_of_day d" by linarith
  then show False
    using year_start_mono [of "year_of_day d + 1" y] year_start_mono [of "y + 1" "year_of_day d"]
      year_of_day_bounds [of d] assms by linarith
qed

lemma locate_bounds:
  assumes "m \<le> k" and "f m \<le> n" and "n < f (k + 1)"
  shows "m \<le> locate f m k n \<and> locate f m k n \<le> k \<and> f (locate f m k n) \<le> n
    \<and> n < f (locate f m k n + 1)"
  using assms
proof (induction f m k n rule: locate.induct)
  case (1 f m k n)
  show ?case
  proof (cases "m < k \<and> f (m + 1) \<le> n")
    case True
    with 1 show ?thesis by (subst (1 2 3 4) locate.simps) auto
  next
    case False
    with 1 show ?thesis by (subst (1 2 3 4) locate.simps) (auto simp: not_le)
  qed
qed

text \<open>A start that grows from month to month determines the month.\<close>

lemma locate_unique:
  assumes mono: "\<And>i j. a \<le> i \<Longrightarrow> i \<le> j \<Longrightarrow> j \<le> k + 1 \<Longrightarrow> f i \<le> f j"
    and m: "a \<le> m" "m \<le> k" "f m \<le> n" "n < f (m + 1)"
  shows "locate f a k n = m"
proof -
  let ?r = "locate f a k n"
  have r: "a \<le> ?r" "?r \<le> k" "f ?r \<le> n" "n < f (?r + 1)"
    using locate_bounds [of a k f n] mono [of a m] mono [of "m + 1" "k + 1"] m by auto
  show ?thesis
  proof (rule ccontr)
    assume "?r \<noteq> m"
    then have "?r + 1 \<le> m \<or> m + 1 \<le> ?r" by linarith
    then show False
      using mono [of "?r + 1" m] mono [of "m + 1" ?r] r m by auto
  qed
qed

lemma month_cases:
  fixes m :: int
  assumes "1 \<le> m" "m \<le> 12"
  obtains "m = 1" | "m = 2" | "m = 3" | "m = 4" | "m = 5" | "m = 6" | "m = 7" | "m = 8" | "m = 9"
    | "m = 10" | "m = 11" | "m = 12"
proof -
  have "m = 1 \<or> m = 2 \<or> m = 3 \<or> m = 4 \<or> m = 5 \<or> m = 6 \<or> m = 7 \<or> m = 8 \<or> m = 9 \<or> m = 10
      \<or> m = 11 \<or> m = 12"
    using assms by presburger
  with that show thesis by blast
qed

lemma month_start_first [simp]: "month_start y 1 = 0"
  by (simp add: month_start_def)

lemma month_start_last [simp]: "month_start y 13 = year_len y"
  by (simp add: month_start_def year_len_def)

lemma month_start_Suc: "1 \<le> m \<Longrightarrow> m \<le> 12 \<Longrightarrow> month_start y m \<le> month_start y (m + 1)"
  by (erule (1) month_cases) (simp_all add: month_start_def)

lemma month_start_mono:
  assumes "1 \<le> i" and "i \<le> j" and "j \<le> 12 + 1"
  shows "month_start y i \<le> month_start y j"
  using assms(2,3)
proof (induction j rule: int_ge_induct)
  case base
  then show ?case by simp
next
  case (step j)
  then show ?case using assms(1) month_start_Suc [of j y] by simp
qed

lemma month_of_yday_bounds:
  assumes "0 \<le> n" and "n < year_len y"
  shows "1 \<le> month_of_yday y n \<and> month_of_yday y n \<le> 12 \<and>
    month_start y (month_of_yday y n) \<le> n \<and> n < month_start y (month_of_yday y n + 1)"
  unfolding month_of_yday_def using assms by (intro locate_bounds) simp_all

lemma month_of_yday_unique:
  assumes "1 \<le> m" "m \<le> 12" and "month_start y m \<le> n" "n < month_start y (m + 1)"
  shows "month_of_yday y n = m"
  unfolding month_of_yday_def using assms by (intro locate_unique month_start_mono)

lemma month_start_range:
  assumes "1 \<le> m" "m \<le> 12"
  shows "0 \<le> month_start y m" "month_start y (m + 1) \<le> year_len y"
  using month_start_mono [of 1 m y] month_start_mono [of "m + 1" 13 y] assms by simp_all

section \<open>Instants and civil dates\<close>

lemma civil_of_unix_valid: "valid_civil (civil_of_unix t)"
proof -
  define d where "d = t div 86400 + epoch_day"
  define y where "y = year_of_day d"
  have n: "0 \<le> d - year_start y" "d - year_start y < year_len y"
    using year_of_day_bounds [of d] year_start_Suc [of y] by (simp_all add: y_def)
  note m = month_of_yday_bounds [OF n]
  have s: "0 \<le> t mod 86400" "t mod 86400 < 24 * 3600" by simp_all
  then have "0 \<le> t mod 86400 div 3600" "t mod 86400 div 3600 < 24"
    by (simp_all add: pos_imp_zdiv_nonneg_iff div_less_iff_less_mult)
  with m show ?thesis
    unfolding civil_of_unix_def Let_def d_def [symmetric] y_def [symmetric]
    by (simp add: valid_civil_def days_in_month_def)
qed

lemma hms_sum:
  fixes h m q x s :: int
  assumes "60 * h + m = q" and "60 * q + x = s"
  shows "h * 3600 + m * 60 + x = s"
  by (simp flip: assms)

lemma div_3600: "(s::int) div 3600 = s div 60 div 60"
  by (simp add: zdiv_zmult2_eq [of 60 s 60, simplified])

lemma unix_of_civil_of_unix: "unix_of_civil (civil_of_unix t) = t"
proof -
  define s where "s = t mod 86400"
  have "s div 3600 * 3600 + s div 60 mod 60 * 60 + s mod 60 = s"
    unfolding div_3600 by (rule hms_sum [of _ _ "s div 60"]) simp_all
  moreover have "t div 86400 * 86400 + s = t" by (simp add: s_def)
  moreover have "unix_of_civil (civil_of_unix t) =
      t div 86400 * 86400 + (s div 3600 * 3600 + s div 60 mod 60 * 60 + s mod 60)"
    unfolding unix_of_civil_def civil_of_unix_def Let_def s_def [symmetric] civil.simps by simp
  ultimately show ?thesis by presburger
qed

lemma day_seconds_split:
  fixes d h m x :: int
  assumes "0 \<le> h" "h < 24" "0 \<le> m" "m < 60" "0 \<le> x" "x < 60"
  defines "t \<equiv> d * 86400 + h * 3600 + m * 60 + x"
  shows "t div 86400 = d" "t mod 86400 div 3600 = h" "t mod 86400 div 60 mod 60 = m"
    "t mod 86400 mod 60 = x"
proof -
  let ?s = "60 * (60 * h + m) + x"
  have t: "t = 86400 * d + ?s" by (simp add: t_def)
  have s: "0 \<le> ?s" "?s < 86400" using assms by simp_all
  show "t div 86400 = d" by (rule int_div_pos_eq [OF t s])
  have r: "t mod 86400 = ?s" by (rule int_mod_pos_eq [OF t s])
  have q: "?s div 60 = 60 * h + m" by (rule int_div_pos_eq [OF refl]) (use assms in simp_all)
  show "t mod 86400 mod 60 = x" unfolding r by (rule int_mod_pos_eq [OF refl]) (use assms in simp_all)
  show "t mod 86400 div 60 mod 60 = m"
    unfolding r q by (rule int_mod_pos_eq [OF refl]) (use assms in simp_all)
  show "t mod 86400 div 3600 = h"
    unfolding r div_3600 q by (rule int_div_pos_eq [OF refl]) (use assms in simp_all)
qed

lemma civil_of_unix_of_civil:
  assumes "valid_civil c"
  shows "civil_of_unix (unix_of_civil c) = c"
proof -
  define n where "n = month_start (year c) (month c) + day c - 1"
  define d where "d = year_start (year c) + n"
  have v: "1 \<le> month c" "month c \<le> 12" "1 \<le> day c" "day c \<le> days_in_month (year c) (month c)"
    using assms by (simp_all add: valid_civil_def)
  have m: "month_of_yday (year c) n = month c"
    using v by (intro month_of_yday_unique) (simp_all add: n_def days_in_month_def)
  have "0 \<le> n" "n < year_len (year c)"
    using v month_start_range [OF v(1,2), of "year c"] by (simp_all add: n_def days_in_month_def)
  then have y: "year_of_day d = year c"
    using year_start_Suc [of "year c"] by (intro year_of_day_unique) (simp_all add: d_def)
  have u: "unix_of_civil c = (d - epoch_day) * 86400 + hour c * 3600 + minute c * 60 + second c"
    by (simp add: unix_of_civil_def d_def n_def)
  have h: "0 \<le> hour c" "hour c < 24" "0 \<le> minute c" "minute c < 60" "0 \<le> second c" "second c < 60"
    using assms by (simp_all add: valid_civil_def)
  have "d - year_start (year c) = n" by (simp add: d_def)
  then show ?thesis
    unfolding civil_of_unix_def u day_seconds_split [OF h] Let_def
    by (simp add: y m) (simp add: n_def)
qed

section \<open>The text form\<close>

text \<open>A text of fixed-width decimal fields, each followed by a separator.\<close>

fun show_fields :: "(nat \<times> char) list \<Rightarrow> int list \<Rightarrow> string" where
  "show_fields ((w, c) # fs) (v # vs) = show_nat_padded w (nat v) @ c # show_fields fs vs"
| "show_fields _ _ = []"

fun read_fields :: "(nat \<times> char) list \<Rightarrow> string \<Rightarrow> int list option" where
  "read_fields [] s = (if s = [] then Some [] else None)"
| "read_fields ((w, c) # fs) s =
     (case (read_digits 0 (take w s), drop w s) of
        (Some n, c' # rest) \<Rightarrow>
          if c' = c then map_option (Cons (int n)) (read_fields fs rest) else None
      | _ \<Rightarrow> None)"

definition fits :: "nat \<times> char \<Rightarrow> int \<Rightarrow> bool" where
  "fits f v \<longleftrightarrow> 0 < fst f \<and> 0 \<le> v \<and> v < 10 ^ fst f"

lemma read_show_fields: "list_all2 fits fs vs \<Longrightarrow> read_fields fs (show_fields fs vs) = Some vs"
proof (induction fs vs rule: show_fields.induct)
  case (1 w c fs v vs)
  then have "0 < w" "0 \<le> v" "v < 10 ^ w" by (simp_all add: fits_def)
  moreover from this have "nat v < 10 ^ w" by (simp add: nat_less_iff)
  ultimately show ?case using 1 by (simp add: length_show_nat_padded)
qed auto

lemma length_show_fields:
  "list_all2 fits fs vs \<Longrightarrow> length (show_fields fs vs) = sum_list (map (\<lambda>f. Suc (fst f)) fs)"
proof (induction fs vs rule: show_fields.induct)
  case (1 w c fs v vs)
  then have "0 < w" "nat v < 10 ^ w" by (simp_all add: fits_def nat_less_iff)
  with 1 show ?case by (simp add: length_show_nat_padded)
qed auto

definition rfc3339_layout :: "(nat \<times> char) list" where
  "rfc3339_layout =
     [(4, CHR ''-''), (2, CHR ''-''), (2, CHR ''T''), (2, CHR '':''), (2, CHR '':''), (2, CHR ''Z'')]"

definition civil_fields :: "civil \<Rightarrow> int list" where
  "civil_fields c = [year c, month c, day c, hour c, minute c, second c]"

definition rfc3339_of_unix :: "int \<Rightarrow> string" where
  "rfc3339_of_unix t = show_fields rfc3339_layout (civil_fields (civil_of_unix t))"

fun civil_of_fields :: "int list \<Rightarrow> civil option" where
  "civil_of_fields [y, m, d, h, i, s] =
     (let c = \<lparr>year = y, month = m, day = d, hour = h, minute = i, second = s\<rparr>
      in if valid_civil c then Some c else None)"
| "civil_of_fields _ = None"

definition unix_of_rfc3339 :: "string \<Rightarrow> int option" where
  "unix_of_rfc3339 s =
     map_option unix_of_civil (Option.bind (read_fields rfc3339_layout s) civil_of_fields)"

text \<open>The first second of year 0 and the last second of year 9999: RFC 3339 has four year digits.\<close>

definition rfc3339_first :: int where
  "rfc3339_first = -62167219200"

definition rfc3339_last :: int where
  "rfc3339_last = 253402300799"

lemma year_of_unix_range:
  assumes "rfc3339_first \<le> t" and "t \<le> rfc3339_last"
  shows "0 \<le> year (civil_of_unix t)" "year (civil_of_unix t) < 10000"
proof -
  define d where "d = t div 86400 + epoch_day"
  have "- 719528 \<le> t div 86400" "t div 86400 < 2932897"
    using assms zdiv_mono1 [of "-62167219200" t 86400] zdiv_mono1 [of t 253402300799 86400]
    by (simp_all add: rfc3339_first_def rfc3339_last_def)
  then have d: "year_start 0 \<le> d" "d < year_start 10000"
    by (simp_all add: d_def epoch_day_def year_start_def)
  have "0 \<le> year_of_day d"
    using d year_of_day_bounds [of d] year_start_mono [of "year_of_day d + 1" 0] by force
  moreover have "year_of_day d < 10000"
    using d year_of_day_bounds [of d] year_start_mono [of 10000 "year_of_day d"] by force
  ultimately show "0 \<le> year (civil_of_unix t)" "year (civil_of_unix t) < 10000"
    by (simp_all add: civil_of_unix_def Let_def d_def)
qed

lemma days_in_month_le: "1 \<le> m \<Longrightarrow> m \<le> 12 \<Longrightarrow> days_in_month y m \<le> 31"
  by (erule (1) month_cases) (simp_all add: days_in_month_def month_start_def)

lemma civil_fields_fit:
  assumes "rfc3339_first \<le> t" and "t \<le> rfc3339_last"
  shows "list_all2 fits rfc3339_layout (civil_fields (civil_of_unix t))"
proof -
  let ?c = "civil_of_unix t"
  have v: "valid_civil ?c" by (rule civil_of_unix_valid)
  then have "day ?c \<le> 31"
    using days_in_month_le [of "month ?c" "year ?c"] by (simp add: valid_civil_def)
  with v year_of_unix_range [OF assms] show ?thesis
    by (simp add: rfc3339_layout_def civil_fields_def fits_def valid_civil_def)
qed

lemma civil_of_civil_fields: "valid_civil c \<Longrightarrow> civil_of_fields (civil_fields c) = Some c"
  by (cases c) (simp add: civil_fields_def)

lemma unix_of_rfc3339_of_unix:
  assumes "rfc3339_first \<le> t" and "t \<le> rfc3339_last"
  shows "unix_of_rfc3339 (rfc3339_of_unix t) = Some t"
  using read_show_fields [OF civil_fields_fit [OF assms]]
  by (simp add: unix_of_rfc3339_def rfc3339_of_unix_def civil_of_civil_fields civil_of_unix_valid
      unix_of_civil_of_unix)

lemma length_rfc3339_of_unix:
  assumes "rfc3339_first \<le> t" and "t \<le> rfc3339_last"
  shows "length (rfc3339_of_unix t) = 20"
  using length_show_fields [OF civil_fields_fit [OF assms]]
  by (simp add: rfc3339_of_unix_def rfc3339_layout_def)

end
