(* ===== verification/Domain.thy ===== *)
theory Domain
  imports Calendar
begin

text \<open>
  The crate's \<^verbatim>\<open>domain\<close> module (\<^verbatim>\<open>src/src/domain/\<close>): the \<open>Node\<close> record, \<open>DomainError\<close>, and the
  conversions \<open>format_btc\<close>, \<open>timestamp_from_unix\<close> and \<open>format_timestamp\<close>.

  The instant type \<open>DateTime<Utc>\<close> belongs to the chrono crate and is the type parameter \<open>'dt\<close>; the
  chrono functions the module calls are the record \<open>chrono\<close> that the definitions take as an
  argument. The locale \<open>chrono_api\<close> states what their documentation promises: which timestamps are
  representable, and the RFC 3339 text of an instant in the years 0 to 9999, with the calendar of
  the previous theory as the meaning of that text. It is interpreted on \<open>utc_chrono\<close>, whose instants
  are unix seconds.
\<close>

section \<open>The chrono functions the crate calls\<close>

datatype seconds_format = Secs | Millis | Micros | Nanos | AutoSi

record 'dt chrono =
  from_timestamp :: "i64 \<Rightarrow> u32 \<Rightarrow> 'dt option"
  to_rfc3339_opts :: "'dt \<Rightarrow> seconds_format \<Rightarrow> bool \<Rightarrow> string"
  timestamp :: "'dt \<Rightarrow> int"

section \<open>Data\<close>

datatype domain_error = InvalidTimestamp i64

record 'dt node =
  public_key :: string
  node_alias :: string
  capacity_sats :: u64
  first_seen :: 'dt

section \<open>Conversions\<close>

definition SATS_PER_BTC :: u64 where
  "SATS_PER_BTC = 100000000"

definition format_btc :: "u64 \<Rightarrow> string" where
  "format_btc sats =
     show_nat (unat (sats div SATS_PER_BTC)) @ ''.'' @
     show_nat_padded 8 (unat (sats mod SATS_PER_BTC))"

definition timestamp_from_unix :: "'dt chrono \<Rightarrow> i64 \<Rightarrow> domain_error + 'dt" where
  "timestamp_from_unix C secs = ok_or (from_timestamp C secs 0) (InvalidTimestamp secs)"

definition format_timestamp :: "'dt chrono \<Rightarrow> 'dt \<Rightarrow> string" where
  "format_timestamp C instant = to_rfc3339_opts C instant Secs True"

section \<open>What chrono promises\<close>

text \<open>The first and the last second that \<open>DateTime<Utc>\<close> represents: the bounds of the years
  -262143 and 262142.\<close>

definition chrono_min :: int where
  "chrono_min = unix_of_civil \<lparr>year = -262143, month = 1, day = 1, hour = 0, minute = 0, second = 0\<rparr>"

definition chrono_max :: int where
  "chrono_max = unix_of_civil \<lparr>year = 262142, month = 12, day = 31, hour = 23, minute = 59, second = 59\<rparr>"

locale chrono_api =
  fixes C :: "'dt chrono"
  assumes from_timestamp_None: "from_timestamp C s 0 = None \<longleftrightarrow> \<not> (chrono_min \<le> sint s \<and> sint s \<le> chrono_max)"
    and timestamp_from_timestamp: "from_timestamp C s 0 = Some d \<Longrightarrow> timestamp C d = sint s"
    and to_rfc3339_opts_secs:
      "from_timestamp C s 0 = Some d \<Longrightarrow> rfc3339_first \<le> sint s \<Longrightarrow> sint s \<le> rfc3339_last \<Longrightarrow>
        to_rfc3339_opts C d Secs True = rfc3339_of_unix (sint s)"
begin

lemma timestamp_from_unix_Ok_iff:
  "(\<exists>d. timestamp_from_unix C s = Ok d) \<longleftrightarrow> chrono_min \<le> sint s \<and> sint s \<le> chrono_max"
  using from_timestamp_None [of s] by (auto simp: timestamp_from_unix_def)

lemma timestamp_from_unix_value: "timestamp_from_unix C s = Ok d \<Longrightarrow> timestamp C d = sint s"
  by (simp add: timestamp_from_unix_def timestamp_from_timestamp)

lemma timestamp_from_unix_Err_iff:
  "timestamp_from_unix C s = Err e \<longleftrightarrow>
     e = InvalidTimestamp s \<and> \<not> (chrono_min \<le> sint s \<and> sint s \<le> chrono_max)"
  using from_timestamp_None [of s] by (auto simp: timestamp_from_unix_def ok_or_Inl_iff)

lemma format_timestamp_text:
  "timestamp_from_unix C s = Ok d \<Longrightarrow> rfc3339_first \<le> sint s \<Longrightarrow> sint s \<le> rfc3339_last \<Longrightarrow>
     format_timestamp C d = rfc3339_of_unix (sint s)"
  by (simp add: timestamp_from_unix_def format_timestamp_def to_rfc3339_opts_secs)

lemma timestamp_from_unix_inj:
  "timestamp_from_unix C s = Ok d \<Longrightarrow> timestamp_from_unix C s' = Ok d \<Longrightarrow> s = s'"
  by (metis timestamp_from_unix_value sint_eqD)

end

text \<open>An implementation of the interface: an instant is its unix timestamp. Outside the years of
  RFC 3339 the text is that of the timestamp clamped to them, a choice the laws leave open.\<close>

definition utc_chrono :: "int chrono" where
  "utc_chrono =
     \<lparr>from_timestamp = (\<lambda>s ns. if chrono_min \<le> sint s \<and> sint s \<le> chrono_max then Some (sint s) else None),
      to_rfc3339_opts = (\<lambda>d f z. rfc3339_of_unix (max rfc3339_first (min rfc3339_last d))),
      timestamp = (\<lambda>d. d)\<rparr>"

lemma utc_format_timestamp:
  "format_timestamp utc_chrono d = rfc3339_of_unix (max rfc3339_first (min rfc3339_last d))"
  by (simp add: format_timestamp_def utc_chrono_def)

interpretation utc: chrono_api utc_chrono
  by unfold_locales (auto simp: utc_chrono_def split: if_splits)

section \<open>Correctness of the capacity text\<close>

text \<open>The reference reader of a BTC amount with 8 decimals, in satoshis: digits, a point, eight digits.\<close>

definition parse_btc :: "string \<Rightarrow> nat option" where
  "parse_btc s =
     (let ip = takeWhile is_digit s; rest = drop (length ip) s
      in if ip \<noteq> [] \<and> take 1 rest = ''.'' \<and> length rest = 9
         then Option.bind (read_digits 0 ip)
                (\<lambda>i. map_option (\<lambda>f. i * 100000000 + f) (read_digits 0 (drop 1 rest)))
         else None)"

lemma unat_sats_split:
  "unat (sats div SATS_PER_BTC) = unat sats div 100000000"
  "unat (sats mod SATS_PER_BTC) = unat sats mod 100000000"
  by (simp_all add: SATS_PER_BTC_def unat_div_distrib unat_mod_distrib)

lemma length_btc_fraction: "length (show_nat_padded 8 (unat (sats mod SATS_PER_BTC))) = 8"
  by (rule length_show_nat_padded) (simp_all add: unat_sats_split)

lemma is_digit_point [simp]: "\<not> is_digit (CHR ''.'')"
  by (simp add: is_digit_def digit_val_def)

lemma parse_btc_append:
  assumes "ip \<noteq> []" and "all_digits ip" and "length fp = 8"
    and "read_digits 0 ip = Some i" and "read_digits 0 fp = Some f"
  shows "parse_btc (ip @ ''.'' @ fp) = Some (i * 100000000 + f)"
  using assms by (simp add: parse_btc_def Let_def takeWhile_digits_append)

lemma parse_btc_format_btc: "parse_btc (format_btc sats) = Some (unat sats)"
proof -
  have "parse_btc (format_btc sats) =
      Some (unat (sats div SATS_PER_BTC) * 100000000 + unat (sats mod SATS_PER_BTC))"
    unfolding format_btc_def by (rule parse_btc_append) (simp_all add: length_btc_fraction)
  then show ?thesis by (simp add: unat_sats_split)
qed

text \<open>
  C20. The capacity text determines the capacity: reading the text that \<open>format_btc\<close> prints as a
  decimal BTC amount gives back exactly the satoshis that went in, for every \<open>u64\<close>. No value is
  rounded and no two capacities share a text.
\<close>

theorem format_btc_round_trip: "parse_btc (format_btc sats) = Some (unat sats)"
  by (rule parse_btc_format_btc)

text \<open>
  The shape of the capacity text: an integer part of digits without a leading zero (except for
  the single digit 0), a point, and exactly eight more digits.
\<close>

theorem format_btc_shape:
  "\<exists>ip fp. format_btc sats = ip @ ''.'' @ fp \<and> all_digits ip \<and> all_digits fp \<and> length fp = 8 \<and>
     (if unat sats < 100000000 then ip = ''0'' else ip \<noteq> [] \<and> hd ip \<noteq> CHR ''0'')"
proof (intro exI conjI)
  let ?ip = "show_nat (unat (sats div SATS_PER_BTC))"
  show "format_btc sats = ?ip @ ''.'' @ show_nat_padded 8 (unat (sats mod SATS_PER_BTC))"
    by (simp add: format_btc_def)
  show "if unat sats < 100000000 then ?ip = ''0'' else ?ip \<noteq> [] \<and> hd ?ip \<noteq> CHR ''0''"
    by (simp add: unat_sats_split show_nat_small digit_char_zero hd_show_nat div_greater_zero_iff)
qed (simp_all add: length_btc_fraction)

lemma format_btc_examples:
  "format_btc 36010516297 = ''360.10516297''" "format_btc 15464503162 = ''154.64503162''"
  "format_btc 550000 = ''0.00550000''"
  "format_btc 1 = ''0.00000001''" "format_btc 18446744073709551615 = ''184467440737.09551615''"
  by (simp_all add: format_btc_def SATS_PER_BTC_def show_nat_padded_def show_nat.simps digit_char_def)

section \<open>Correctness of the timestamps\<close>

lemma chrono_bounds: "chrono_min = -8334601228800" "chrono_max = 8210266876799"
  by code_simp+



end
