(* ===== verification/Storage.thy ===== *)
theory Storage
  imports Domain
begin

text \<open>
  The crate's \<^verbatim>\<open>storage\<close> module (\<^verbatim>\<open>src/src/storage/\<close>) with the schema of
  \<^verbatim>\<open>src/migrations/0001_create_nodes.sql\<close>: the error type, the checked integer conversions, the rows of
  the \<open>nodes\<close> table, and the operations \<open>replace_all\<close> and \<open>list_nodes\<close> of \<open>PgNodeRepository\<close>, one
  definition per SQL statement.

  The database server is not the crate's code. What it decides is a parameter: the record \<open>postgres\<close>
  says which texts it stores and what it keeps of an instant, and the record \<open>pg_env\<close> says, for one
  call, at which await point sqlx reports an error. A commit that reports an error may or may not
  have taken effect on the server; the flag of \<open>commit_fault\<close> says which. The meaning of the
  statements themselves (\<open>DELETE\<close>, \<open>INSERT .. UNNEST\<close> under the constraints of the schema,
  \<open>SELECT .. ORDER BY rank\<close>, and that an uncommitted transaction leaves the table alone) is SQL.

  The locale \<open>node_repository\<close> is the contract of the \<open>NodeRepository\<close> trait: a snapshot that is
  replaced as a whole or not at all, and read back in order. \<open>strict_repository\<close> adds the trait's
  promise that an error leaves the snapshot untouched. Both are interpreted on the Postgres
  repository, the second one for environments without a lost commit acknowledgement.
\<close>

section \<open>Errors\<close>

text \<open>The variants of \<open>sqlx::Error\<close> and \<open>MigrateError\<close> that the crate distinguishes; any other variant is
  the last constructor.\<close>

datatype sqlx_error =
    Configuration string
  | Io string
  | PoolTimedOut
  | PoolClosed
  | Protocol string
  | DatabaseError string
  | OtherSqlx string

datatype migrate_error = Execute sqlx_error | VersionMissing int | OtherMigrate string

datatype storage_error =
    Database sqlx_error
  | Migration migrate_error
  | OutOfRange string string

section \<open>Checked conversions\<close>

definition capacity_to_db :: "u64 \<Rightarrow> storage_error + i64" where
  "capacity_to_db sats =
     map_err (\<lambda>_. OutOfRange ''capacity_sats'' (show_nat (unat sats))) (i64_try_from_u64 sats)"

definition capacity_from_db :: "i64 \<Rightarrow> storage_error + u64" where
  "capacity_from_db sats =
     map_err (\<lambda>_. OutOfRange ''capacity_sats'' (show_int (sint sats))) (u64_try_from_i64 sats)"

definition rank_to_db :: "usize \<Rightarrow> storage_error + i32" where
  "rank_to_db index =
     map_err (\<lambda>_. OutOfRange ''rank'' (show_nat (unat index))) (i32_try_from_usize index)"

section \<open>Rows\<close>

record 'dt node_row =
  row_public_key :: string
  row_alias :: string
  row_capacity_sats :: i64
  row_first_seen :: 'dt

text \<open>A row of the table has two more columns, which the service never reads back into a \<open>Node\<close>.\<close>

record 'dt table_row = "'dt node_row" +
  rank :: i32
  imported_at :: 'dt

definition row_try_from :: "'dt node_row \<Rightarrow> storage_error + 'dt node" where
  "row_try_from row =
     and_then (capacity_from_db (row_capacity_sats row)) (\<lambda>capacity.
       Ok \<lparr>public_key = row_public_key row, node_alias = row_alias row,
           capacity_sats = capacity, first_seen = row_first_seen row\<rparr>)"

section \<open>The server\<close>

record 'dt postgres =
  text_ok :: "string \<Rightarrow> bool"
  timestamptz :: "'dt \<Rightarrow> 'dt option"

record 'dt pg_env =
  begin_fault :: "sqlx_error option"
  delete_fault :: "sqlx_error option"
  insert_fault :: "sqlx_error option"
  commit_fault :: "(sqlx_error \<times> bool) option"
  now :: 'dt

text \<open>The database: the \<open>nodes\<close> table, absent before the first migration, and the number of write
  transactions so far.\<close>

record 'dt pg_db =
  relation :: "'dt table_row list option"
  calls :: nat

section \<open>SQL statements\<close>

definition sql_fault :: "sqlx_error option \<Rightarrow> sqlx_error + unit" where
  "sql_fault f = (case f of None \<Rightarrow> Ok () | Some e \<Rightarrow> Err e)"

definition no_relation :: sqlx_error where
  "no_relation = DatabaseError ''relation does not exist''"

definition sql_delete :: "'dt table_row list option \<Rightarrow> sqlx_error + 'dt table_row list" where
  "sql_delete rel = (case rel of None \<Rightarrow> Err no_relation | Some _ \<Rightarrow> Ok [])"

text \<open>\<open>UNNEST\<close> of several arrays pads the shorter ones with \<open>NULL\<close>.\<close>

definition column :: "'a list \<Rightarrow> nat \<Rightarrow> 'a option" where
  "column xs i = (if i < length xs then Some (xs ! i) else None)"

record 'dt columns =
  public_keys :: "string list"
  aliases :: "string list"
  capacities :: "i64 list"
  first_seens :: "'dt list"
  ranks :: "i32 list"

definition unnest ::
  "'dt columns \<Rightarrow> (string option \<times> string option \<times> i64 option \<times> 'dt option \<times> i32 option) list" where
  "unnest cols =
     map (\<lambda>i. (column (public_keys cols) i, column (aliases cols) i, column (capacities cols) i,
               column (first_seens cols) i, column (ranks cols) i))
       [0..<Max {length (public_keys cols), length (aliases cols), length (capacities cols),
                 length (first_seens cols), length (ranks cols)}]"

text \<open>One inserted row under the schema: every column \<open>NOT NULL\<close>, storable texts and instant, the
  \<open>CHECK\<close> on the capacity and the primary key.\<close>

fun insert_row ::
  "'dt postgres \<Rightarrow> 'dt \<Rightarrow> 'dt table_row list
     \<Rightarrow> string option \<times> string option \<times> i64 option \<times> 'dt option \<times> i32 option
     \<Rightarrow> sqlx_error + 'dt table_row list" where
  "insert_row P t table (Some pk, Some al, Some cap, Some seen, Some rk) =
     (if \<not> text_ok P pk \<or> \<not> text_ok P al then Err (DatabaseError ''invalid text'')
      else case timestamptz P seen of
        None \<Rightarrow> Err (DatabaseError ''timestamp out of range'')
      | Some stored \<Rightarrow>
          if sint cap < 0 then Err (DatabaseError ''check constraint'')
          else if pk \<in> row_public_key ` set table then Err (DatabaseError ''duplicate key'')
          else Ok (table @ [\<lparr>row_public_key = pk, row_alias = al, row_capacity_sats = cap,
                             row_first_seen = stored, rank = rk, imported_at = t\<rparr>]))"
| "insert_row P t table _ = Err (DatabaseError ''null value'')"

fun insert_rows ::
  "'dt postgres \<Rightarrow> 'dt \<Rightarrow> 'dt table_row list
     \<Rightarrow> (string option \<times> string option \<times> i64 option \<times> 'dt option \<times> i32 option) list
     \<Rightarrow> sqlx_error + 'dt table_row list" where
  "insert_rows P t table [] = Ok table"
| "insert_rows P t table (r # rs) = and_then (insert_row P t table r) (\<lambda>table'. insert_rows P t table' rs)"

definition sql_insert ::
  "'dt postgres \<Rightarrow> 'dt \<Rightarrow> 'dt columns \<Rightarrow> 'dt table_row list \<Rightarrow> sqlx_error + 'dt table_row list" where
  "sql_insert P t cols table = insert_rows P t table (unnest cols)"

definition by_rank :: "'dt table_row list \<Rightarrow> 'dt table_row list" where
  "by_rank rows = sort_key (\<lambda>r. sint (rank r)) rows"

definition sql_select :: "'dt table_row list option \<Rightarrow> sqlx_error + 'dt node_row list" where
  "sql_select rel =
     (case rel of None \<Rightarrow> Err no_relation | Some rows \<Rightarrow> Ok (map node_row.truncate (by_rank rows)))"

section \<open>The repository operations\<close>

text \<open>The loop that converts the nodes into the five arrays.\<close>

definition no_columns :: "'dt columns" where
  "no_columns = \<lparr>public_keys = [], aliases = [], capacities = [], first_seens = [], ranks = []\<rparr>"

fun push_nodes :: "nat \<Rightarrow> 'dt node list \<Rightarrow> 'dt columns \<Rightarrow> storage_error + 'dt columns" where
  "push_nodes index [] cols = Ok cols"
| "push_nodes index (node # nodes) cols =
     and_then (capacity_to_db (capacity_sats node)) (\<lambda>cap.
     and_then (rank_to_db (of_nat index)) (\<lambda>rk.
       push_nodes (Suc index) nodes
         \<lparr>public_keys = public_keys cols @ [public_key node],
          aliases = aliases cols @ [node_alias node],
          capacities = capacities cols @ [cap],
          first_seens = first_seens cols @ [first_seen node],
          ranks = ranks cols @ [rk]\<rparr>))"

text \<open>The transaction: the rows it would commit, or the error that makes it roll back.\<close>

definition transaction ::
  "'dt postgres \<Rightarrow> 'dt pg_env \<Rightarrow> 'dt columns \<Rightarrow> 'dt table_row list option
     \<Rightarrow> sqlx_error + 'dt table_row list" where
  "transaction P E cols rel =
     and_then (sql_fault (begin_fault E)) (\<lambda>_.
     and_then (sql_fault (delete_fault E)) (\<lambda>_.
     and_then (sql_delete rel) (\<lambda>emptied.
     and_then (sql_fault (insert_fault E)) (\<lambda>_.
       sql_insert P (now E) cols emptied))))"

definition replace_all ::
  "'dt postgres \<Rightarrow> 'dt pg_env \<Rightarrow> 'dt node list \<Rightarrow> 'dt pg_db \<Rightarrow> (storage_error + nat) \<times> 'dt pg_db" where
  "replace_all P E nodes db =
     (case push_nodes 0 nodes no_columns of
        Inl e \<Rightarrow> (Err e, db)
      | Inr cols \<Rightarrow>
          (let db' = db\<lparr>calls := Suc (calls db)\<rparr>
           in case transaction P E cols (relation db) of
                Inl e \<Rightarrow> (Err (Database e), db')
              | Inr rows \<Rightarrow>
                  (case commit_fault E of
                     None \<Rightarrow> (Ok (length nodes), db'\<lparr>relation := Some rows\<rparr>)
                   | Some (e, applied) \<Rightarrow>
                       (Err (Database e), if applied then db'\<lparr>relation := Some rows\<rparr> else db'))))"

definition list_nodes :: "sqlx_error option \<Rightarrow> 'dt pg_db \<Rightarrow> storage_error + 'dt node list" where
  "list_nodes fault db =
     and_then (map_err Database (and_then (sql_fault fault) (\<lambda>_. sql_select (relation db)))) (\<lambda>rows.
       collect_result (map row_try_from rows))"

text \<open>Connecting and migrating. \<open>connect\<close> is one call of the sqlx pool, whose answer is a parameter;
  \<open>migrate\<close> runs the embedded migrations: the one of the crate creates the table unless it has been
  applied before. A fault says with which error the migrator ends, and whether the migration had been
  committed by then (the acknowledgement, the bookkeeping after it or the release of the lock failed).\<close>

definition MAX_CONNECTIONS :: u32 where
  "MAX_CONNECTIONS = 5"

definition ACQUIRE_TIMEOUT :: nanos where
  "ACQUIRE_TIMEOUT = duration_from_secs 5"

definition connect ::
  "(u32 \<Rightarrow> nanos \<Rightarrow> string \<Rightarrow> sqlx_error + 'pool) \<Rightarrow> string \<Rightarrow> storage_error + 'pool" where
  "connect pool_connect database_url =
     map_err Database (pool_connect MAX_CONNECTIONS ACQUIRE_TIMEOUT database_url)"

definition create_nodes :: "'dt pg_db \<Rightarrow> 'dt pg_db" where
  "create_nodes db = db\<lparr>relation := Some []\<rparr>"

definition migrate :: "(migrate_error \<times> bool) option \<Rightarrow> 'dt pg_db \<Rightarrow> (storage_error + unit) \<times> 'dt pg_db" where
  "migrate fault db =
     (let db' = (case relation db of None \<Rightarrow> create_nodes db | Some _ \<Rightarrow> db)
      in case fault of
           None \<Rightarrow> (Ok (), db')
         | Some (e, applied) \<Rightarrow> (Err (Migration e), if applied then db' else db))"

section \<open>Conversions\<close>

lemma capacity_to_db_Ok_iff [simp]: "capacity_to_db s = Ok c \<longleftrightarrow> uint s \<le> i64_max \<and> c = s"
  by (simp add: capacity_to_db_def i64_try_from_u64_Ok_iff)

lemma capacity_from_db_Ok_iff [simp]: "capacity_from_db c = Ok s \<longleftrightarrow> 0 \<le> sint c \<and> s = c"
  by (simp add: capacity_from_db_def u64_try_from_i64_Ok_iff)

lemma capacity_to_db_nonneg: "uint (s :: u64) \<le> i64_max \<Longrightarrow> 0 \<le> sint s"
  using sint_eq_uint_small [of s] by simp

text \<open>Ranks: an index below \<open>2 ^ 31\<close> is stored as it is.\<close>

definition max_ranks :: nat where
  "max_ranks = 2 ^ 31"

lemma sint_rank: "i < max_ranks \<Longrightarrow> sint (of_nat i :: i32) = int i"
  by (simp add: max_ranks_def signed_of_nat signed_take_bit_int_eq_self)

lemma rank_to_db_of_nat:
  assumes "i \<le> max_ranks"
  shows "rank_to_db (of_nat i) =
     (if i < max_ranks then Ok (of_nat i) else Err (OutOfRange ''rank'' (show_nat i)))"
proof -
  have u: "unat (of_nat i :: usize) = i"
    using assms by (simp add: max_ranks_def unsigned_of_nat take_bit_nat_eq_self)
  then have "uint (of_nat i :: usize) = int i" by (simp add: uint_nat)
  moreover have "(ucast (of_nat i :: usize) :: i32) = of_nat i"
    using assms by (simp add: max_ranks_def unsigned_of_nat take_bit_nat_eq_self)
  ultimately show ?thesis using assms u
    by (auto simp: rank_to_db_def i32_try_from_usize_def max_ranks_def)
qed

section \<open>What the conversion loop produces\<close>

definition columns_of :: "nat \<Rightarrow> 'dt node list \<Rightarrow> 'dt columns" where
  "columns_of i ns =
     \<lparr>public_keys = map public_key ns, aliases = map node_alias ns, capacities = map capacity_sats ns,
      first_seens = map first_seen ns, ranks = map of_nat [i..<i + length ns]\<rparr>"

definition append_columns :: "'dt columns \<Rightarrow> 'dt columns \<Rightarrow> 'dt columns" where
  "append_columns a b =
     \<lparr>public_keys = public_keys a @ public_keys b, aliases = aliases a @ aliases b,
      capacities = capacities a @ capacities b, first_seens = first_seens a @ first_seens b,
      ranks = ranks a @ ranks b\<rparr>"

definition fits_db :: "'dt node \<Rightarrow> bool" where
  "fits_db n \<longleftrightarrow> uint (capacity_sats n) \<le> i64_max"

lemma push_nodes_Ok_iff:
  "i \<le> max_ranks \<Longrightarrow> push_nodes i ns cols = Ok cols' \<longleftrightarrow>
     (\<forall>n \<in> set ns. fits_db n) \<and> i + length ns \<le> max_ranks \<and> cols' = append_columns cols (columns_of i ns)"
proof (induction ns arbitrary: i cols)
  case Nil
  then show ?case by (auto simp: append_columns_def columns_of_def)
next
  case (Cons n ns)
  let ?cols = "\<lparr>public_keys = public_keys cols @ [public_key n], aliases = aliases cols @ [node_alias n],
    capacities = capacities cols @ [capacity_sats n], first_seens = first_seens cols @ [first_seen n],
    ranks = ranks cols @ [of_nat i]\<rparr>"
  have step: "append_columns ?cols (columns_of (Suc i) ns) = append_columns cols (columns_of i (n # ns))"
    by (simp add: append_columns_def columns_of_def upt_rec)
  show ?case
  proof (cases "i < max_ranks")
    case True
    with Cons.IH [of "Suc i" ?cols] show ?thesis
      by (auto simp: result_simps rank_to_db_of_nat fits_db_def step)
  next
    case False
    with Cons.prems show ?thesis by (auto simp: result_simps rank_to_db_of_nat)
  qed
qed

lemma push_nodes_start:
  "push_nodes 0 ns no_columns = Ok cols \<longleftrightarrow>
     (\<forall>n \<in> set ns. fits_db n) \<and> length ns \<le> max_ranks \<and> cols = columns_of 0 ns"
  by (simp add: push_nodes_Ok_iff) (simp add: append_columns_def no_columns_def columns_of_def)

lemma push_nodes_Err: "i \<le> max_ranks \<Longrightarrow> push_nodes i ns cols = Err e \<Longrightarrow> \<exists>f v. e = OutOfRange f v"
proof (induction ns arbitrary: i cols)
  case (Cons n ns)
  then show ?case
    using Cons.IH [of "Suc i"]
    by (cases "i < max_ranks")
      (auto simp: result_simps rank_to_db_of_nat capacity_to_db_def)
qed simp

section \<open>What the INSERT statement produces\<close>

text \<open>A node whose texts and instant the server stores, the value it keeps, and the row for rank \<open>i\<close>.\<close>

definition storable :: "'dt postgres \<Rightarrow> 'dt node \<Rightarrow> bool" where
  "storable P n \<longleftrightarrow>
     text_ok P (public_key n) \<and> text_ok P (node_alias n) \<and> timestamptz P (first_seen n) \<noteq> None"

definition stored :: "'dt postgres \<Rightarrow> 'dt node \<Rightarrow> 'dt node" where
  "stored P n = n\<lparr>first_seen := the (timestamptz P (first_seen n))\<rparr>"

definition row_of :: "'dt postgres \<Rightarrow> 'dt \<Rightarrow> nat \<times> 'dt node \<Rightarrow> 'dt table_row" where
  "row_of P t = (\<lambda>(i, n). \<lparr>row_public_key = public_key n, row_alias = node_alias n,
     row_capacity_sats = capacity_sats n, row_first_seen = the (timestamptz P (first_seen n)),
     rank = of_nat i, imported_at = t\<rparr>)"

definition input_of ::
  "nat \<times> 'dt node \<Rightarrow> string option \<times> string option \<times> i64 option \<times> 'dt option \<times> i32 option" where
  "input_of = (\<lambda>(i, n). (Some (public_key n), Some (node_alias n), Some (capacity_sats n),
     Some (first_seen n), Some (of_nat i)))"

lemma unnest_columns_of: "unnest (columns_of 0 ns) = map input_of (List.enumerate 0 ns)"
proof (rule nth_equalityI)
  show "length (unnest (columns_of 0 ns)) = length (map input_of (List.enumerate 0 ns))"
    by (simp add: unnest_def columns_of_def)
next
  fix i
  assume "i < length (unnest (columns_of 0 ns))"
  then have "i < length ns" by (simp add: unnest_def columns_of_def)
  then show "unnest (columns_of 0 ns) ! i = map input_of (List.enumerate 0 ns) ! i"
    by (simp add: unnest_def columns_of_def column_def input_of_def nth_enumerate_eq)
qed

lemma insert_row_Ok_iff:
  assumes "fits_db n"
  shows "insert_row P t table (input_of (i, n)) = Ok table' \<longleftrightarrow>
     storable P n \<and> public_key n \<notin> row_public_key ` set table \<and> table' = table @ [row_of P t (i, n)]"
  using capacity_to_db_nonneg [of "capacity_sats n"] assms
  by (auto simp: input_of_def storable_def row_of_def fits_db_def split: option.splits)

lemma insert_rows_Ok_iff:
  assumes "\<forall>n \<in> set ns. fits_db n"
  shows "insert_rows P t table (map input_of (List.enumerate i ns)) = Ok table' \<longleftrightarrow>
     (\<forall>n \<in> set ns. storable P n) \<and> distinct (map public_key ns)
     \<and> set (map public_key ns) \<inter> row_public_key ` set table = {}
     \<and> table' = table @ map (row_of P t) (List.enumerate i ns)"
  using assms
proof (induction ns arbitrary: i table)
  case Nil
  then show ?case by auto
next
  case (Cons n ns)
  have "row_public_key (row_of P t (i, n)) = public_key n" by (simp add: row_of_def)
  with Cons show ?case
    by (auto simp: result_simps insert_row_Ok_iff)
qed

lemma transaction_Ok_iff:
  assumes "\<forall>n \<in> set ns. fits_db n"
  shows "transaction P E (columns_of 0 ns) rel = Ok rows \<longleftrightarrow>
     begin_fault E = None \<and> delete_fault E = None \<and> insert_fault E = None \<and> rel \<noteq> None
     \<and> (\<forall>n \<in> set ns. storable P n) \<and> distinct (map public_key ns)
     \<and> rows = map (row_of P (now E)) (List.enumerate 0 ns)"
  using assms insert_rows_Ok_iff [OF assms, of P "now E" "[]" 0 rows]
  by (auto simp: transaction_def sql_fault_def sql_delete_def sql_insert_def unnest_columns_of
      result_simps split: option.splits)

section \<open>The table and its snapshot\<close>

definition table_ok :: "'dt table_row list \<Rightarrow> bool" where
  "table_ok rows \<longleftrightarrow>
     distinct (map row_public_key rows) \<and> distinct (map (\<lambda>r. sint (rank r)) rows)
       \<and> (\<forall>r \<in> set rows. 0 \<le> sint (row_capacity_sats r))"

definition pg_inv :: "'dt pg_db \<Rightarrow> bool" where
  "pg_inv db \<longleftrightarrow> (case relation db of None \<Rightarrow> False | Some rows \<Rightarrow> table_ok rows)"

definition row_node :: "'dt table_row \<Rightarrow> 'dt node" where
  "row_node r = \<lparr>public_key = row_public_key r, node_alias = row_alias r,
     capacity_sats = row_capacity_sats r, first_seen = row_first_seen r\<rparr>"

definition table_nodes :: "'dt table_row list \<Rightarrow> 'dt node list" where
  "table_nodes rows = map row_node (by_rank rows)"

definition snapshot :: "'dt pg_db \<Rightarrow> 'dt node list" where
  "snapshot db = (case relation db of None \<Rightarrow> [] | Some rows \<Rightarrow> table_nodes rows)"

lemma row_try_from_Ok_iff:
  "row_try_from (node_row.truncate r) = Ok n \<longleftrightarrow> 0 \<le> sint (row_capacity_sats r) \<and> n = row_node r"
  by (auto simp: row_try_from_def node_row.truncate_def row_node_def result_simps)

lemma set_by_rank [simp]: "set (by_rank rows) = set rows"
  by (simp add: by_rank_def)

lemma list_nodes_unfold:
  "list_nodes None (db\<lparr>relation := Some rows\<rparr>) =
     collect_result (map (\<lambda>r. row_try_from (node_row.truncate r)) (by_rank rows))"
  by (simp add: list_nodes_def sql_fault_def sql_select_def comp_def)

lemma list_nodes_Ok_iff:
  "list_nodes fault db = Ok ns \<longleftrightarrow>
     fault = None \<and> (\<exists>rows. relation db = Some rows \<and> (\<forall>r \<in> set rows. 0 \<le> sint (row_capacity_sats r))
       \<and> ns = table_nodes rows)"
proof -
  have "collect_result (map row_try_from (map node_row.truncate (by_rank rows))) = Ok ns \<longleftrightarrow>
      (\<forall>r \<in> set rows. 0 \<le> sint (row_capacity_sats r)) \<and> ns = table_nodes rows" for rows
    using collect_result_map_iff [of "\<lambda>r. row_try_from (node_row.truncate r)"
        "\<lambda>r. 0 \<le> sint (row_capacity_sats r)" row_node "by_rank rows" ns]
    by (simp add: row_try_from_Ok_iff table_nodes_def comp_def)
  then show ?thesis
    by (auto simp: list_nodes_def sql_fault_def sql_select_def result_simps split: option.splits)
qed

lemma list_nodes_inv: "pg_inv db \<Longrightarrow> list_nodes None db = Ok (snapshot db)"
  by (auto simp: list_nodes_Ok_iff pg_inv_def table_ok_def snapshot_def split: option.splits)

lemma list_nodes_snapshot: "list_nodes fault db = Ok ns \<Longrightarrow> ns = snapshot db"
  by (auto simp: list_nodes_Ok_iff snapshot_def)

text \<open>With distinct ranks the order of the result does not depend on how the rows are stored.\<close>

lemma by_rank_unique:
  assumes "distinct (map (\<lambda>r. sint (rank r)) rows)" and "mset rows' = mset rows"
    and "sorted (map (\<lambda>r. sint (rank r)) rows')"
  shows "rows' = by_rank rows"
proof -
  have "inj_on (\<lambda>r. sint (rank r)) (set rows)" using assms(1) by (simp add: distinct_map)
  then show ?thesis unfolding by_rank_def by (rule sort_key_unique [OF _ assms(2,3)])
qed

section \<open>Replacing the snapshot\<close>

lemma map_row_of_rank:
  assumes "length ns \<le> max_ranks"
  shows "map (\<lambda>r. sint (rank r)) (map (row_of P t) (List.enumerate 0 ns)) = map int [0..<length ns]"
  using assms by (intro nth_equalityI) (simp_all add: nth_enumerate_eq row_of_def sint_rank)

lemma table_nodes_row_of:
  assumes "length ns \<le> max_ranks"
  shows "table_nodes (map (row_of P t) (List.enumerate 0 ns)) = map (stored P) ns"
proof -
  let ?rows = "map (row_of P t) (List.enumerate 0 ns)"
  have "sorted (map (\<lambda>r. sint (rank r)) ?rows)"
    unfolding map_row_of_rank [OF assms] by (simp add: sorted_map)
  then have "by_rank ?rows = ?rows" unfolding by_rank_def by (rule sort_key_id_if_sorted)
  then show ?thesis
    unfolding table_nodes_def
    by (intro nth_equalityI) (simp_all add: nth_enumerate_eq row_of_def row_node_def stored_def)
qed

lemma table_ok_row_of:
  assumes "length ns \<le> max_ranks" "\<forall>n \<in> set ns. fits_db n" "distinct (map public_key ns)"
  shows "table_ok (map (row_of P t) (List.enumerate 0 ns))"
proof -
  let ?rows = "map (row_of P t) (List.enumerate 0 ns)"
  have "map row_public_key ?rows = map public_key ns"
    by (intro nth_equalityI) (simp_all add: nth_enumerate_eq row_of_def)
  moreover have "distinct (map (\<lambda>r. sint (rank r)) ?rows)"
    unfolding map_row_of_rank [OF assms(1)] by (simp add: distinct_map)
  moreover have "\<forall>r \<in> set ?rows. 0 \<le> sint (row_capacity_sats r)"
    using assms(2) by (auto simp: row_of_def fits_db_def in_set_enumerate_eq capacity_to_db_nonneg)
  ultimately show ?thesis using assms(3) by (simp add: table_ok_def)
qed

text \<open>Which lists the repository accepts.\<close>

definition acceptable :: "'dt postgres \<Rightarrow> 'dt node list \<Rightarrow> bool" where
  "acceptable P ns \<longleftrightarrow>
     (\<forall>n \<in> set ns. fits_db n \<and> storable P n) \<and> distinct (map public_key ns) \<and> length ns \<le> max_ranks"

definition no_fault :: "'dt pg_env \<Rightarrow> bool" where
  "no_fault E \<longleftrightarrow> begin_fault E = None \<and> delete_fault E = None \<and> insert_fault E = None"

lemma replace_all_cases:
  obtains (rejected) e where "replace_all P E ns db = (Err e, db)" "\<not> acceptable P ns" "\<exists>f v. e = OutOfRange f v"
  | (failed) e where "replace_all P E ns db = (Err (Database e), db\<lparr>calls := Suc (calls db)\<rparr>)"
      "\<not> (acceptable P ns \<and> no_fault E \<and> relation db \<noteq> None)"
  | (committed) rows where "replace_all P E ns db =
        (Ok (length ns), db\<lparr>calls := Suc (calls db), relation := Some rows\<rparr>)"
      "acceptable P ns" "no_fault E" "relation db \<noteq> None" "commit_fault E = None"
      "rows = map (row_of P (now E)) (List.enumerate 0 ns)"
  | (lost) e rows where "replace_all P E ns db =
        (Err (Database e), db\<lparr>calls := Suc (calls db), relation := Some rows\<rparr>)"
      "acceptable P ns" "no_fault E" "relation db \<noteq> None" "commit_fault E = Some (e, True)"
      "rows = map (row_of P (now E)) (List.enumerate 0 ns)"
  | (aborted) e where "replace_all P E ns db = (Err (Database e), db\<lparr>calls := Suc (calls db)\<rparr>)"
      "acceptable P ns" "no_fault E" "relation db \<noteq> None" "commit_fault E = Some (e, False)"
proof (cases "push_nodes 0 ns no_columns")
  case (Inl e)
  have "\<not> acceptable P ns"
  proof
    assume "acceptable P ns"
    then have "push_nodes 0 ns no_columns = Ok (columns_of 0 ns)"
      by (simp add: push_nodes_start acceptable_def)
    with Inl show False by simp
  qed
  with Inl show thesis using push_nodes_Err [OF _ Inl] by (intro rejected) (auto simp: replace_all_def)
next
  case (Inr cols)
  then have cols: "cols = columns_of 0 ns" "\<forall>n \<in> set ns. fits_db n" "length ns \<le> max_ranks"
    by (auto simp: push_nodes_start)
  note tx = transaction_Ok_iff [OF cols(2), of P E "relation db"]
  note tx_ok = tx [of "map (row_of P (now E)) (List.enumerate 0 ns)"]
  show thesis
  proof (cases "transaction P E cols (relation db)")
    case (Inl e)
    then have "\<not> (acceptable P ns \<and> no_fault E \<and> relation db \<noteq> None)"
      using tx_ok by (auto simp: cols acceptable_def no_fault_def)
    with Inl Inr show thesis by (intro failed) (auto simp: replace_all_def)
  next
    case (Inr rows)
    note t = Inr
    then have r: "acceptable P ns" "no_fault E" "relation db \<noteq> None"
        "rows = map (row_of P (now E)) (List.enumerate 0 ns)"
      using tx cols by (auto simp: acceptable_def no_fault_def)
    show thesis
    proof (cases "commit_fault E")
      case None
      with t r \<open>push_nodes 0 ns no_columns = Ok cols\<close> show thesis
        by (intro committed) (auto simp: replace_all_def)
    next
      case (Some f)
      with t r \<open>push_nodes 0 ns no_columns = Ok cols\<close> show thesis
        by (cases f; cases "snd f") (auto simp: replace_all_def intro: lost aborted)
    qed
  qed
qed

lemma pg_inv_row_of: "acceptable P ns \<Longrightarrow>
    pg_inv (db\<lparr>calls := c, relation := Some (map (row_of P t) (List.enumerate 0 ns))\<rparr>)"
  by (simp add: pg_inv_def acceptable_def table_ok_row_of)

lemma snapshot_row_of: "acceptable P ns \<Longrightarrow>
    snapshot (db\<lparr>calls := c, relation := Some (map (row_of P t) (List.enumerate 0 ns))\<rparr>) = map (stored P) ns"
  by (simp add: snapshot_def acceptable_def table_nodes_row_of)

lemma snapshot_calls [simp]: "snapshot (db\<lparr>calls := c\<rparr>) = snapshot db"
  by (simp add: snapshot_def)

lemma pg_inv_calls [simp]: "pg_inv (db\<lparr>calls := c\<rparr>) = pg_inv db"
  by (simp add: pg_inv_def)

lemma replace_all_inv: "pg_inv db \<Longrightarrow> pg_inv (snd (replace_all P E ns db))"
  by (cases rule: replace_all_cases [of P E ns db]) (simp_all add: pg_inv_row_of)

lemma replace_all_Ok:
  assumes "replace_all P E ns db = (Ok k, db')"
  shows "k = length ns" "snapshot db' = map (stored P) ns" "pg_inv db'"
  using assms
  by (cases rule: replace_all_cases [of P E ns db]; auto simp: snapshot_row_of pg_inv_row_of)+

lemma replace_all_snapshot:
  "snapshot (snd (replace_all P E ns db)) \<in> {snapshot db, map (stored P) ns}"
  by (cases rule: replace_all_cases [of P E ns db]) (simp_all add: snapshot_row_of)

lemma replace_all_Err:
  assumes "replace_all P E ns db = (Err e, db')" and "\<nexists>e'. commit_fault E = Some (e', True)"
  shows "relation db' = relation db"
  using assms by (cases rule: replace_all_cases [of P E ns db]) auto

lemma replace_all_Ok_iff:
  "fst (replace_all P E ns db) = Ok k \<longleftrightarrow>
     acceptable P ns \<and> no_fault E \<and> relation db \<noteq> None \<and> commit_fault E = None \<and> k = length ns"
  by (cases rule: replace_all_cases [of P E ns db]) auto

text \<open>
  C10. When \<open>replace_all\<close> succeeds: exactly for a list of nodes with distinct keys, capacities that
  fit the \<open>BIGINT\<close> column, values the server stores and a length that fits the rank column, on a
  migrated database with no failing statement or commit; it then reports the number of nodes.
\<close>

theorem replace_all_success:
  "fst (replace_all P E ns db) = Ok k \<longleftrightarrow>
     acceptable P ns \<and> no_fault E \<and> relation db \<noteq> None \<and> commit_fault E = None \<and> k = length ns"
  by (rule replace_all_Ok_iff)

text \<open>
  C5. Round trip through the database: after a successful \<open>replace_all\<close>, \<open>list_nodes\<close> returns exactly
  the given nodes in the given order, with each instant as the server keeps it; nothing of the
  previous snapshot remains.
\<close>

theorem replace_all_list_nodes:
  assumes "replace_all P E ns db = (Ok k, db')"
  shows "list_nodes None db' = Ok (map (stored P) ns)"
  using replace_all_Ok [OF assms] list_nodes_inv [of db'] by simp

definition plain_postgres :: "'dt postgres" where
  "plain_postgres = \<lparr>text_ok = (\<lambda>s. CHR 0x00 \<notin> set s), timestamptz = Some\<rparr>"

definition quiet_env :: "'dt \<Rightarrow> 'dt pg_env" where
  "quiet_env t =
     \<lparr>begin_fault = None, delete_fault = None, insert_fault = None, commit_fault = None, now = t\<rparr>"

lemma stored_plain [simp]: "stored plain_postgres n = n"
  by (simp add: stored_def plain_postgres_def)

lemma replace_all_list_nodes_witness:
  "let db = \<lparr>relation = Some [], calls = 0\<rparr>;
       ns = [\<lparr>public_key = ''c'', node_alias = ''C'', capacity_sats = 3, first_seen = 0 :: int\<rparr>,
             \<lparr>public_key = ''a'', node_alias = ''A'', capacity_sats = 0, first_seen = 7\<rparr>]
   in list_nodes None (snd (replace_all plain_postgres (quiet_env 9) ns db)) = Ok ns"
proof -
  let ?ns = "[\<lparr>public_key = ''c'', node_alias = ''C'', capacity_sats = 3, first_seen = 0 :: int\<rparr>,
      \<lparr>public_key = ''a'', node_alias = ''A'', capacity_sats = 0, first_seen = 7\<rparr>]"
  let ?r = "replace_all plain_postgres (quiet_env 9) ?ns \<lparr>relation = Some [], calls = 0\<rparr>"
  have "fst ?r = Ok 2"
    unfolding replace_all_Ok_iff
    by (simp add: acceptable_def fits_db_def storable_def plain_postgres_def quiet_env_def no_fault_def
        max_ranks_def i64_max_def)
  then have "?r = (Ok 2, snd ?r)" by (metis prod.collapse)
  then have "list_nodes None (snd ?r) = Ok (map (stored plain_postgres) ?ns)"
    by (rule replace_all_list_nodes)
  then show ?thesis by (simp add: Let_def)
qed

text \<open>
  C6. Atomicity, in every environment and whatever the call returns: afterwards the stored snapshot
  is the previous one or the complete new one, and the constraints of the table still hold.
\<close>

theorem replace_all_atomic:
  assumes "pg_inv db"
  shows "list_nodes None (snd (replace_all P E ns db)) \<in> {Ok (snapshot db), Ok (map (stored P) ns)} \<and>
     pg_inv (snd (replace_all P E ns db))"
  using replace_all_snapshot [of P E ns db] list_nodes_inv [OF replace_all_inv [OF assms, of P E ns]]
    replace_all_inv [OF assms, of P E ns] by auto

lemma replace_all_atomic_witness:
  "pg_inv (snd (replace_all plain_postgres
     ((quiet_env 9)\<lparr>insert_fault := Some (Io ''reset'')\<rparr>) [] \<lparr>relation = Some [], calls = 0 :: nat\<rparr>))"
  by (rule replace_all_atomic [THEN conjunct2]) (simp add: pg_inv_def table_ok_def)

text \<open>
  C11. An error keeps the previous snapshot: if \<open>replace_all\<close> returns an error and the server did not
  apply the commit, the table is unchanged; a capacity above \<open>i64::MAX\<close> is refused before any
  statement runs, so that not even a transaction is opened.
\<close>

theorem replace_all_error_keeps_snapshot:
  assumes "replace_all P E ns db = (Err e, db')"
  shows "(commit_fault E \<notin> range (\<lambda>e'. Some (e', True)) \<longrightarrow> relation db' = relation db) \<and>
     ((\<exists>n \<in> set ns. i64_max < uint (capacity_sats n)) \<longrightarrow> db' = db \<and> (\<exists>f v. e = OutOfRange f v))"
proof (intro conjI impI)
  show "relation db' = relation db" if "commit_fault E \<notin> range (\<lambda>e'. Some (e', True))"
    using replace_all_Err [OF assms] that by auto
next
  assume "\<exists>n \<in> set ns. i64_max < uint (capacity_sats n)"
  then have "\<not> (\<forall>n \<in> set ns. fits_db n)" unfolding fits_db_def by (meson not_le)
  then obtain e' where e': "push_nodes 0 ns no_columns = Err e'"
    using push_nodes_start [of ns] by (metis sum.exhaust)
  with assms have eq: "e = e'" "db' = db" by (auto simp: replace_all_def)
  show "db' = db" by (fact eq)
  show "\<exists>f v. e = OutOfRange f v" unfolding eq by (rule push_nodes_Err [OF _ e']) simp
qed

lemma replace_all_error_keeps_snapshot_witness:
  "snd (replace_all plain_postgres (quiet_env 0)
      [\<lparr>public_key = ''a'', node_alias = ''A'', capacity_sats = 2 ^ 63, first_seen = 0 :: int\<rparr>]
      \<lparr>relation = Some [], calls = 0\<rparr>) = \<lparr>relation = Some [], calls = 0\<rparr>"
proof -
  let ?n = "\<lparr>public_key = ''a'', node_alias = ''A'', capacity_sats = 2 ^ 63, first_seen = 0 :: int\<rparr>"
  let ?r = "replace_all plain_postgres (quiet_env 0) [?n] \<lparr>relation = Some [], calls = 0\<rparr>"
  have "fst ?r \<noteq> Ok k" for k
    unfolding replace_all_Ok_iff by (simp add: acceptable_def fits_db_def i64_max_def)
  then obtain e where "?r = (Err e, snd ?r)" by (metis prod.collapse sum.exhaust)
  then show ?thesis
    using replace_all_error_keeps_snapshot [of plain_postgres "quiet_env 0" "[?n]"]
    by (simp add: i64_max_def)
qed

text \<open>
  C35. The acknowledgement of a commit can be lost: the trait says that on error the previous snapshot
  is left untouched, but when the commit takes effect on the server and its acknowledgement does not
  arrive, \<open>replace_all\<close> returns an error although the new snapshot is in place.
\<close>

theorem replace_all_lost_acknowledgement:
  assumes "acceptable P ns" and "no_fault E" and "relation db \<noteq> None"
    and "commit_fault E = Some (e, True)"
  shows "fst (replace_all P E ns db) = Err (Database e) \<and>
     list_nodes None (snd (replace_all P E ns db)) = Ok (map (stored P) ns)"
  using assms
  by (cases rule: replace_all_cases [of P E ns db])
    (simp_all add: list_nodes_inv pg_inv_row_of snapshot_row_of)

lemma replace_all_lost_acknowledgement_witness:
  "let r = replace_all plain_postgres ((quiet_env 0)\<lparr>commit_fault := Some (Io ''closed'', True)\<rparr>)
         [\<lparr>public_key = ''a'', node_alias = ''A'', capacity_sats = 1, first_seen = 0 :: int\<rparr>]
         \<lparr>relation = Some [], calls = 0\<rparr>
   in fst r = Err (Database (Io ''closed'')) \<and> snapshot (snd r) \<noteq> []"
proof -
  let ?ns = "[\<lparr>public_key = ''a'', node_alias = ''A'', capacity_sats = 1, first_seen = 0 :: int\<rparr>]"
  let ?E = "(quiet_env 0)\<lparr>commit_fault := Some (Io ''closed'', True)\<rparr>"
  let ?db = "\<lparr>relation = Some [], calls = 0\<rparr>"
  have "acceptable plain_postgres ?ns" "no_fault ?E"
    by (simp_all add: acceptable_def fits_db_def storable_def plain_postgres_def quiet_env_def
        no_fault_def max_ranks_def i64_max_def)
  from replace_all_lost_acknowledgement [OF this, of ?db "Io ''closed''"]
  show ?thesis by (auto simp: Let_def dest: list_nodes_snapshot)
qed

text \<open>
  C34. The order of the API is the ranking, not the physical order of the rows: two tables with the
  same rows, in whatever order the server stores them, list the same nodes.
\<close>

theorem list_nodes_order:
  assumes "table_ok rows" and "mset rows' = mset rows"
  shows "list_nodes None (db\<lparr>relation := Some rows'\<rparr>) = list_nodes None (db\<lparr>relation := Some rows\<rparr>)"
proof -
  have "by_rank rows' = by_rank rows"
    using assms by (intro by_rank_unique) (simp_all add: table_ok_def by_rank_def)
  then show ?thesis by (simp add: list_nodes_unfold)
qed

lemma list_nodes_order_witness:
  "let r = (\<lambda>k i. \<lparr>row_public_key = k, row_alias = k, row_capacity_sats = 1, row_first_seen = 0 :: int,
              rank = i, imported_at = 0\<rparr>)
   in list_nodes None \<lparr>relation = Some [r ''b'' 1, r ''a'' 0], calls = 0\<rparr> =
      list_nodes None \<lparr>relation = Some [r ''a'' 0, r ''b'' 1], calls = 0\<rparr>"
  using list_nodes_order [of "[\<lparr>row_public_key = ''a'', row_alias = ''a'', row_capacity_sats = 1,
      row_first_seen = 0 :: int, rank = 0, imported_at = 0\<rparr>, \<lparr>row_public_key = ''b'', row_alias = ''b'',
      row_capacity_sats = 1, row_first_seen = 0, rank = 1, imported_at = 0\<rparr>]"
      "[\<lparr>row_public_key = ''b'', row_alias = ''b'', row_capacity_sats = 1, row_first_seen = 0, rank = 1,
      imported_at = 0\<rparr>, \<lparr>row_public_key = ''a'', row_alias = ''a'', row_capacity_sats = 1,
      row_first_seen = 0, rank = 0, imported_at = 0\<rparr>]" "\<lparr>relation = None, calls = 0\<rparr>"]
  by (simp add: Let_def table_ok_def)

section \<open>The NodeRepository contract\<close>

locale node_repository =
  fixes replace :: "'dt node list \<Rightarrow> 'r \<Rightarrow> (storage_error + nat) outcome \<times> 'r"
    and list_all :: "'r \<Rightarrow> (storage_error + 'dt node list) outcome"
    and content :: "'r \<Rightarrow> 'dt node list"
    and keep :: "'dt node \<Rightarrow> 'dt node"
    and inv :: "'r \<Rightarrow> bool"
  assumes replace_ok: "inv r \<Longrightarrow> replace ns r = (Returned (Ok k), r') \<Longrightarrow> k = length ns \<and> content r' = map keep ns"
    and replace_all_or_nothing: "inv r \<Longrightarrow> replace ns r = (x, r') \<Longrightarrow> content r' = content r \<or> content r' = map keep ns"
    and replace_inv: "inv r \<Longrightarrow> replace ns r = (x, r') \<Longrightarrow> inv r'"
    and list_content: "inv r \<Longrightarrow> list_all r = Returned (Ok ns) \<Longrightarrow> ns = content r"

locale strict_repository = node_repository +
  assumes replace_not_ok: "inv r \<Longrightarrow> replace ns r = (x, r') \<Longrightarrow> \<nexists>k. x = Returned (Ok k) \<Longrightarrow> content r' = content r"

text \<open>The Postgres repository, with the environment of each call and the fault of each read given by the
  state of the database.\<close>

definition pg_replace ::
  "'dt postgres \<Rightarrow> ('dt pg_db \<Rightarrow> 'dt pg_env) \<Rightarrow> 'dt node list \<Rightarrow> 'dt pg_db
     \<Rightarrow> (storage_error + nat) outcome \<times> 'dt pg_db" where
  "pg_replace P E ns db = apfst Returned (replace_all P (E db) ns db)"

definition pg_list ::
  "('dt pg_db \<Rightarrow> sqlx_error option) \<Rightarrow> 'dt pg_db \<Rightarrow> (storage_error + 'dt node list) outcome" where
  "pg_list fault db = Returned (list_nodes (fault db) db)"

lemma pg_replace_eq: "pg_replace P E ns r = (x, r') \<longleftrightarrow>
    (\<exists>y. x = Returned y \<and> replace_all P (E r) ns r = (y, r'))"
  by (cases "replace_all P (E r) ns r") (auto simp: pg_replace_def)

interpretation pg: node_repository "pg_replace P E" "pg_list fault" snapshot "stored P" pg_inv
  for P E fault
proof (unfold_locales, goal_cases)
  case (1 r ns k r')
  then show ?case by (auto simp: pg_replace_eq dest: replace_all_Ok)
next
  case (2 r ns x r')
  then show ?case using replace_all_snapshot [of P "E r" ns r] by (auto simp: pg_replace_eq)
next
  case (3 r ns x r')
  then show ?case using replace_all_inv [of r P "E r" ns] by (auto simp: pg_replace_eq)
next
  case (4 r ns)
  then show ?case by (simp add: pg_list_def list_nodes_snapshot)
qed

text \<open>An environment in which a commit that reports an error has not taken effect.\<close>

definition acknowledged :: "'dt pg_env \<Rightarrow> 'dt pg_env" where
  "acknowledged E = E\<lparr>commit_fault := map_option (\<lambda>(e, _). (e, False)) (commit_fault E)\<rparr>"

lemma acknowledged_commit: "commit_fault (acknowledged E) \<noteq> Some (e, True)"
  by (auto simp: acknowledged_def)

interpretation pg_strict: strict_repository "pg_replace P (\<lambda>db. acknowledged (E db))" "pg_list fault"
  snapshot "stored P" pg_inv for P E fault
proof (unfold_locales, goal_cases)
  case (1 r ns x r')
  then obtain e where "replace_all P (acknowledged (E r)) ns r = (Err e, r')"
    unfolding pg_replace_eq by (metis sum.exhaust)
  then have "relation r' = relation r" by (rule replace_all_Err) (simp add: acknowledged_commit)
  then show ?case by (simp add: snapshot_def)
qed

end
