(* ===== verification/Isolation.thy ===== *)
theory Isolation
  imports Storage
begin

text \<open>
  Readers beside a running import (\<^verbatim>\<open>src/src/storage/postgres.rs\<close>): the transaction of \<open>replace_all\<close> as
  single steps, \<open>BEGIN\<close>, \<open>DELETE\<close>, \<open>INSERT\<close> and \<open>COMMIT\<close> or a rollback at any point, between which requests
  read the table. The importer is one task, so there is one writer; a statement of another connection
  sees what has been committed when it starts, and the rows of an open transaction are its own.

  \<open>act\<close> is the step relation and \<open>trace\<close> the runs of a step relation. Shown are an invariant of the
  reachable states, that the steps of an import and the function \<open>replace_all\<close> have the same effects,
  that the store refines an atomic register of snapshots (through the locale \<open>forward_simulation\<close>), and
  that every read returns exactly the snapshot committed last.
\<close>

section \<open>Steps\<close>

text \<open>Where the writer stands: its nodes, the arrays it has built, and the rows its transaction sees.\<close>

datatype 'dt phase =
    Idle
  | Opened "'dt node list" "'dt columns"
  | Emptied "'dt node list" "'dt columns" "'dt table_row list"
  | Filled "'dt node list" "'dt table_row list"

record 'dt shared =
  visible :: "'dt table_row list option"
  writer :: "'dt phase"

text \<open>
  \<open>Refuse\<close> is a call that ends before a transaction is open, because a conversion or \<open>begin\<close> fails. A
  commit carries the nodes it makes visible and whether its acknowledgement arrives; a read carries
  the fault of its statement, if any, and its result.
\<close>

datatype 'dt action =
    Refuse "'dt node list"
  | Begin "'dt node list"
  | Delete
  | Insert 'dt
  | Commit "'dt node list" bool
  | Rollback
  | Read "sqlx_error option" "storage_error + 'dt node list"

definition as_db :: "'dt shared \<Rightarrow> 'dt pg_db" where
  "as_db s = \<lparr>relation = visible s, calls = 0\<rparr>"

inductive act :: "'dt postgres \<Rightarrow> 'dt shared \<Rightarrow> 'dt action \<Rightarrow> 'dt shared \<Rightarrow> bool" for P where
  act_refuse: "writer s = Idle \<Longrightarrow> act P s (Refuse ns) s"
| act_begin: "writer s = Idle \<Longrightarrow> push_nodes 0 ns no_columns = Ok cols
    \<Longrightarrow> act P s (Begin ns) (s\<lparr>writer := Opened ns cols\<rparr>)"
| act_delete: "writer s = Opened ns cols \<Longrightarrow> sql_delete (visible s) = Ok rows
    \<Longrightarrow> act P s Delete (s\<lparr>writer := Emptied ns cols rows\<rparr>)"
| act_insert: "writer s = Emptied ns cols rows \<Longrightarrow> sql_insert P t cols rows = Ok rows'
    \<Longrightarrow> act P s (Insert t) (s\<lparr>writer := Filled ns rows'\<rparr>)"
| act_commit: "writer s = Filled ns rows \<Longrightarrow> act P s (Commit ns ack) (s\<lparr>visible := Some rows, writer := Idle\<rparr>)"
| act_rollback: "writer s \<noteq> Idle \<Longrightarrow> act P s Rollback (s\<lparr>writer := Idle\<rparr>)"
| act_read: "act P s (Read fault (list_nodes fault (as_db s))) s"

section \<open>Runs of a step relation\<close>

inductive trace :: "('s \<Rightarrow> 'a \<Rightarrow> 's \<Rightarrow> bool) \<Rightarrow> 's \<Rightarrow> 'a list \<Rightarrow> 's \<Rightarrow> bool" for R where
  trace_Nil: "trace R s [] s"
| trace_step: "R s a s' \<Longrightarrow> trace R s' as s'' \<Longrightarrow> trace R s (a # as) s''"

inductive_simps trace_Nil_iff [simp]: "trace R s [] s'"
inductive_simps trace_Cons: "trace R s (a # as) s'"

lemma trace_append: "trace R s (as @ bs) s'' \<longleftrightarrow> (\<exists>s'. trace R s as s' \<and> trace R s' bs s'')"
  by (induction as arbitrary: s) (auto simp: trace_Cons)

text \<open>A forward simulation along an abstraction function: every concrete step is an abstract one.\<close>

locale forward_simulation =
  fixes step :: "'s \<Rightarrow> 'a \<Rightarrow> 's \<Rightarrow> bool"
    and spec :: "'t \<Rightarrow> 'b \<Rightarrow> 't \<Rightarrow> bool"
    and abst :: "'s \<Rightarrow> 't"
    and obs :: "'a \<Rightarrow> 'b"
    and good :: "'s \<Rightarrow> bool"
  assumes step_good: "good s \<Longrightarrow> step s a s' \<Longrightarrow> good s'"
    and step_simulated: "good s \<Longrightarrow> step s a s' \<Longrightarrow> spec (abst s) (obs a) (abst s')"
begin

lemma trace_good: "trace step s as s' \<Longrightarrow> good s \<Longrightarrow> good s'"
  by (induction rule: trace.induct) (auto intro: step_good)

lemma trace_simulated: "trace step s as s' \<Longrightarrow> good s \<Longrightarrow> trace spec (abst s) (map obs as) (abst s')"
  by (induction rule: trace.induct) (auto simp: trace_Cons intro: trace_Nil step_good step_simulated)

end

section \<open>Invariant\<close>

text \<open>The committed table satisfies the schema; the arrays and rows of the writer are those of its nodes.\<close>

fun phase_ok :: "'dt postgres \<Rightarrow> 'dt phase \<Rightarrow> bool" where
  "phase_ok P Idle = True"
| "phase_ok P (Opened ns cols) = (push_nodes 0 ns no_columns = Ok cols)"
| "phase_ok P (Emptied ns cols rows) = (push_nodes 0 ns no_columns = Ok cols \<and> rows = [])"
| "phase_ok P (Filled ns rows) =
     (acceptable P ns \<and> (\<exists>t. rows = map (row_of P t) (List.enumerate 0 ns)))"

definition shared_ok :: "'dt postgres \<Rightarrow> 'dt shared \<Rightarrow> bool" where
  "shared_ok P s \<longleftrightarrow> pg_inv (as_db s) \<and> phase_ok P (writer s)"

lemma as_db_writer [simp]: "as_db (s\<lparr>writer := w\<rparr>) = as_db s"
  by (simp add: as_db_def)

lemma sql_insert_filled:
  assumes "push_nodes 0 ns no_columns = Ok cols" and "sql_insert P t cols [] = Ok rows"
  shows "acceptable P ns \<and> rows = map (row_of P t) (List.enumerate 0 ns)"
proof -
  from assms(1) have cols: "cols = columns_of 0 ns" "\<forall>n \<in> set ns. fits_db n" "length ns \<le> max_ranks"
    by (auto simp: push_nodes_start)
  with assms(2) insert_rows_Ok_iff [OF cols(2), of P t "[]" 0 rows] show ?thesis
    by (simp add: sql_insert_def unnest_columns_of acceptable_def)
qed

lemma as_db_filled:
  assumes "acceptable P ns" and "rows = map (row_of P t) (List.enumerate 0 ns)"
  shows "pg_inv (as_db (s\<lparr>visible := Some rows, writer := w\<rparr>))"
    and "snapshot (as_db (s\<lparr>visible := Some rows, writer := w\<rparr>)) = map (stored P) ns"
  using pg_inv_row_of [OF assms(1), where db = "as_db s" and t = t and c = 0]
    snapshot_row_of [OF assms(1), where db = "as_db s" and t = t and c = 0] assms(2)
  by (simp_all add: as_db_def)

lemma act_ok:
  assumes "act P s a s'" and "shared_ok P s"
  shows "shared_ok P s'"
  using assms(1)
proof cases
  case (act_delete ns cols rows)
  then show ?thesis using assms(2)
    by (auto simp: shared_ok_def sql_delete_def split: option.splits)
next
  case (act_insert ns cols rows t rows')
  then show ?thesis using assms(2) sql_insert_filled by (fastforce simp: shared_ok_def)
next
  case (act_commit ns rows ack)
  then show ?thesis using assms(2) as_db_filled(1) by (fastforce simp: shared_ok_def)
qed (use assms(2) in \<open>auto simp: shared_ok_def\<close>)

section \<open>The atomic register\<close>

text \<open>
  The abstract store is one value that is written and read at once. An observer sees the commits and
  the results of the reads whose statement runs; no step of the register answers \<open>ReadError\<close>.
\<close>

datatype 'v event = Wrote 'v | Got 'v | Tau | ReadError

inductive register :: "'v \<Rightarrow> 'v event \<Rightarrow> 'v \<Rightarrow> bool" where
  register_write: "register r (Wrote v) v"
| register_read: "register r (Got r) r"
| register_tau: "register r Tau r"

inductive_simps register_iffs [simp]:
  "register r (Wrote v) r'" "register r (Got v) r'" "register r Tau r'" "register r ReadError r'"

fun observe :: "'dt postgres \<Rightarrow> 'dt action \<Rightarrow> 'dt node list event" where
  "observe P (Commit ns ack) = Wrote (map (stored P) ns)"
| "observe P (Read None (Inr ns)) = Got ns"
| "observe P (Read None (Inl e)) = ReadError"
| "observe P _ = Tau"

lemma act_register:
  assumes "act P s a s'" and "shared_ok P s"
  shows "register (snapshot (as_db s)) (observe P a) (snapshot (as_db s'))"
  using assms(1)
proof cases
  case (act_commit ns rows ack)
  then show ?thesis using assms(2) as_db_filled(2) by (fastforce simp: shared_ok_def)
next
  case (act_read fault)
  with assms(2) show ?thesis
    by (cases fault) (auto simp: shared_ok_def list_nodes_inv)
qed simp_all

interpretation pg_register: forward_simulation "act P" register "\<lambda>s. snapshot (as_db s)" "observe P" "shared_ok P"
  for P
  by unfold_locales (auto intro: act_ok act_register)

text \<open>What a register holds after a sequence of events.\<close>

fun latest :: "'v \<Rightarrow> 'v event list \<Rightarrow> 'v" where
  "latest r [] = r"
| "latest r (Wrote v # es) = latest v es"
| "latest r (e # es) = latest r es"

lemma register_latest: "trace register r es r' \<Longrightarrow> r' = latest r es"
proof (induction rule: trace.induct)
  case (trace_step s a s' as s'')
  then show ?case by (cases a) auto
qed simp

lemma trace_list_nodes:
  assumes "trace (act P) s as s'" and "shared_ok P s"
  shows "list_nodes None (as_db s') = Ok (latest (snapshot (as_db s)) (map (observe P) as))"
proof -
  have "pg_inv (as_db s')" using pg_register.trace_good [OF assms] by (simp add: shared_ok_def)
  moreover have "snapshot (as_db s') = latest (snapshot (as_db s)) (map (observe P) as)"
    by (rule register_latest [OF pg_register.trace_simulated [OF assms]])
  ultimately show ?thesis by (simp add: list_nodes_inv)
qed

section \<open>Import calls as traces\<close>

text \<open>The calls of \<open>replace_all\<close> a trace contains, and whether one of them is acknowledged.\<close>

fun attempts :: "'dt action list \<Rightarrow> 'dt node list list" where
  "attempts [] = []"
| "attempts (Refuse ns # as) = ns # attempts as"
| "attempts (Begin ns # as) = ns # attempts as"
| "attempts (a # as) = attempts as"

fun acknowledges :: "'dt action list \<Rightarrow> bool" where
  "acknowledges [] = False"
| "acknowledges (Commit ns ack # as) = (ack \<or> acknowledges as)"
| "acknowledges (a # as) = acknowledges as"

text \<open>The steps of one call in a given environment.\<close>

definition replace_steps :: "'dt postgres \<Rightarrow> 'dt pg_env \<Rightarrow> 'dt node list \<Rightarrow> 'dt shared \<Rightarrow> 'dt action list" where
  "replace_steps P E ns s =
     (case push_nodes 0 ns no_columns of
        Inl e \<Rightarrow> [Refuse ns]
      | Inr cols \<Rightarrow>
          if begin_fault E \<noteq> None then [Refuse ns]
          else Begin ns #
            (if delete_fault E \<noteq> None \<or> visible s = None then [Rollback]
             else Delete #
               (case and_then (sql_fault (insert_fault E)) (\<lambda>_. sql_insert P (now E) cols []) of
                  Inl e \<Rightarrow> [Rollback]
                | Inr rows \<Rightarrow> Insert (now E) #
                    (case commit_fault E of
                       None \<Rightarrow> [Commit ns True]
                     | Some (e, applied) \<Rightarrow> if applied then [Commit ns False] else [Rollback]))))"

definition after_call :: "'dt postgres \<Rightarrow> 'dt pg_env \<Rightarrow> 'dt node list \<Rightarrow> 'dt shared \<Rightarrow> 'dt shared" where
  "after_call P E ns s = s\<lparr>visible := relation (snd (replace_all P E ns (as_db s)))\<rparr>"

lemma replace_steps_attempts: "attempts (replace_steps P E ns s) = [ns]"
  by (simp add: replace_steps_def split: sum.splits option.splits prod.splits)

lemma replace_steps_acknowledges:
  "acknowledges (replace_steps P E ns s) \<longleftrightarrow> (\<exists>k. fst (replace_all P E ns (as_db s)) = Ok k)"
  by (auto simp: replace_steps_def replace_all_def transaction_def sql_delete_def sql_fault_def as_db_def
      Let_def result_simps split: sum.splits option.splits if_splits)

lemma replace_steps_trace:
  assumes "writer s = Idle"
  shows "trace (act P) s (replace_steps P E ns s) (after_call P E ns s)"
proof (cases "push_nodes 0 ns no_columns")
  case (Inl e)
  with assms show ?thesis
    by (auto simp: replace_steps_def after_call_def replace_all_def as_db_def trace_Cons intro: act_refuse)
next
  case (Inr cols)
  let ?b = "s\<lparr>writer := Opened ns cols\<rparr>" and ?d = "s\<lparr>writer := Emptied ns cols []\<rparr>"
  have idle: "s\<lparr>writer := Idle\<rparr> = s" "s\<lparr>visible := v, writer := Idle\<rparr> = s\<lparr>visible := v\<rparr>" for v
    using assms by (cases s, simp)+
  have b: "act P s (Begin ns) ?b" using assms Inr by (rule act_begin)
  have roll: "act P (s\<lparr>writer := w\<rparr>) Rollback s" if "w \<noteq> Idle" for w
    using act_rollback [of "s\<lparr>writer := w\<rparr>" P] that by (simp add: idle)
  have d: "act P ?b Delete ?d" if "visible s \<noteq> None"
    using act_delete [of ?b ns cols "[]" P] that by (auto simp: sql_delete_def)
  have i: "act P ?d (Insert t) (s\<lparr>writer := Filled ns rows\<rparr>)" if "sql_insert P t cols [] = Ok rows" for t rows
    using act_insert [of ?d ns cols "[]" P t rows] that by simp
  have c: "act P (s\<lparr>writer := Filled ns rows\<rparr>) (Commit ns ack) (s\<lparr>visible := Some rows\<rparr>)" for rows ack
    using act_commit [of "s\<lparr>writer := Filled ns rows\<rparr>" ns rows P ack] by (simp add: idle)
  note steps = b d roll i c act_refuse [OF assms] trace.intros
  from Inr show ?thesis
    by (auto simp: replace_steps_def after_call_def replace_all_def transaction_def sql_delete_def sql_fault_def
        as_db_def Let_def result_simps split: sum.splits option.splits if_splits intro!: steps)
qed

text \<open>The rows the writer may still commit.\<close>

fun pending :: "'dt phase \<Rightarrow> 'dt node list option" where
  "pending Idle = None"
| "pending (Opened ns cols) = Some ns"
| "pending (Emptied ns cols rows) = Some ns"
| "pending (Filled ns rows) = Some ns"

definition fills :: "'dt postgres \<Rightarrow> 'dt node list \<Rightarrow> 'dt table_row list \<Rightarrow> bool" where
  "fills P ns rows \<longleftrightarrow> acceptable P ns \<and> (\<exists>t. rows = map (row_of P t) (List.enumerate 0 ns))"

lemma trace_idle:
  "trace (act P) s as s' \<Longrightarrow> attempts as = [] \<Longrightarrow> writer s = Idle \<Longrightarrow> s' = s \<and> \<not> acknowledges as"
proof (induction rule: trace.induct)
  case (trace_step s a s' as s'')
  from trace_step.hyps(1) show ?case by cases (use trace_step in auto)
qed simp

lemma trace_pending:
  assumes "trace (act P) s as s'" and "attempts as = []" and "writer s' = Idle" and "shared_ok P s"
    and "writer s \<noteq> Idle"
  shows "visible s' = visible s \<and> \<not> acknowledges as \<or>
     (\<exists>ns rows. pending (writer s) = Some ns \<and> fills P ns rows \<and> visible s' = Some rows)"
  using assms
proof (induction rule: trace.induct)
  case (trace_step s a s' as s'')
  have ok: "shared_ok P s'" using act_ok trace_step.hyps(1) trace_step.prems(3) .
  from trace_step.hyps(1) show ?case
  proof cases
    case (act_commit ns rows ack)
    then show ?thesis using trace_idle [OF trace_step.hyps(2)] trace_step.prems
      by (auto simp: shared_ok_def fills_def)
  next
    case act_rollback
    then show ?thesis using trace_idle [OF trace_step.hyps(2)] trace_step.prems by auto
  qed (use trace_step ok in auto)
qed simp

lemma trace_call:
  assumes "trace (act P) s as s'" and "attempts as = [ns]" and "writer s' = Idle" and "shared_ok P s"
    and "writer s = Idle"
  shows "visible s' = visible s \<and> \<not> acknowledges as \<or> (\<exists>rows. fills P ns rows \<and> visible s' = Some rows)"
  using assms
proof (induction rule: trace.induct)
  case (trace_step s a s' as s'')
  have ok: "shared_ok P s'" using act_ok trace_step.hyps(1) trace_step.prems(3) .
  from trace_step.hyps(1) show ?case
  proof cases
    case (act_refuse ms)
    then show ?thesis using trace_idle [OF trace_step.hyps(2)] trace_step.prems by auto
  next
    case (act_begin ms cols)
    then show ?thesis using trace_pending [OF trace_step.hyps(2) _ _ ok] trace_step.prems by auto
  qed (use trace_step ok in auto)
qed simp

text \<open>Each outcome of a call occurs in some environment.\<close>

lemma replace_all_unchanged:
  "\<exists>E e db'. replace_all P E ns db = (Err e, db') \<and> relation db' = relation db"
proof -
  let ?E = "(quiet_env undefined)\<lparr>begin_fault := Some PoolClosed\<rparr>"
  show ?thesis
    by (cases rule: replace_all_cases [of P ?E ns db])
      (fastforce simp: no_fault_def)+
qed

lemma replace_all_filled:
  assumes "fills P ns rows" and "relation db \<noteq> None"
  shows "\<exists>E res db'. replace_all P E ns db = (res, db') \<and> relation db' = Some rows \<and> isl res = (\<not> ok)"
proof -
  from assms obtain t where t: "acceptable P ns" "rows = map (row_of P t) (List.enumerate 0 ns)"
    by (auto simp: fills_def)
  let ?E = "(quiet_env t)\<lparr>commit_fault := if ok then None else Some (PoolClosed, True)\<rparr>"
  have E: "no_fault ?E" "now ?E = t" by (simp_all add: quiet_env_def no_fault_def)
  then show ?thesis
    using t assms(2) by (cases rule: replace_all_cases [of P ?E ns db]) (fastforce split: if_splits)+
qed

text \<open>
  The function \<open>replace_all\<close> and the single steps of its transaction agree, also when requests
  read in between: from a state without an open transaction, the tables that a trace with exactly one
  call for the given nodes can leave, acknowledged or not, are exactly those that \<open>replace_all\<close> leaves
  in some environment with a success or an error.
\<close>

lemma replace_all_small_steps:
  assumes "pg_inv (as_db s)" and "writer s = Idle"
  shows "(\<exists>as s'. trace (act P) s as s' \<and> attempts as = [ns] \<and> writer s' = Idle
            \<and> acknowledges as = ok \<and> visible s' = v) \<longleftrightarrow>
         (\<exists>E res db'. replace_all P E ns (as_db s) = (res, db') \<and> isl res = (\<not> ok) \<and> relation db' = v)"
    (is "?steps \<longleftrightarrow> ?call")
proof
  assume ?steps
  then obtain as s' where tr: "trace (act P) s as s'" "attempts as = [ns]" "writer s' = Idle"
      and res: "acknowledges as = ok" "visible s' = v" by auto
  have "shared_ok P s" using assms by (simp add: shared_ok_def)
  from trace_call [OF tr this assms(2)] consider "v = visible s" "\<not> ok" | rows where "fills P ns rows" "v = Some rows"
    using res by auto
  then show ?call
  proof cases
    case 1
    then show ?thesis using replace_all_unchanged [of P ns "as_db s"] by (fastforce simp: as_db_def)
  next
    case 2
    have "relation (as_db s) \<noteq> None" using assms(1) by (auto simp: pg_inv_def split: option.splits)
    from replace_all_filled [OF 2(1) this] show ?thesis using 2(2) by blast
  qed
next
  assume ?call
  then obtain E res db' where call: "replace_all P E ns (as_db s) = (res, db')" "isl res = (\<not> ok)"
    "relation db' = v" by auto
  moreover have "acknowledges (replace_steps P E ns s) = ok"
    using call by (cases res) (auto simp: replace_steps_acknowledges)
  ultimately show ?steps
    using replace_steps_trace [OF assms(2), of P E ns] replace_steps_attempts [of P E ns s] assms(2)
    by (intro exI [of _ "replace_steps P E ns s"] exI [of _ "after_call P E ns s"]) (simp add: after_call_def)
qed

definition migrated :: "'dt shared" where
  "migrated = \<lparr>visible = Some [], writer = Idle\<rparr>"

lemma migrated_ok: "pg_inv (as_db migrated)" "writer migrated = Idle" "shared_ok P migrated"
    "snapshot (as_db migrated) = []"
  by (simp_all add: migrated_def as_db_def shared_ok_def pg_inv_def table_ok_def snapshot_def table_nodes_def
      by_rank_def)

lemma snapshot_fills:
  assumes "fills P ns rows"
  shows "pg_inv \<lparr>relation = Some rows, calls = 0\<rparr>" and "snapshot \<lparr>relation = Some rows, calls = 0\<rparr> = map (stored P) ns"
proof -
  obtain t where t: "acceptable P ns" "rows = map (row_of P t) (List.enumerate 0 ns)"
    using assms by (auto simp: fills_def)
  from as_db_filled [OF t, where s = migrated and w = Idle]
  show "pg_inv \<lparr>relation = Some rows, calls = 0\<rparr>" "snapshot \<lparr>relation = Some rows, calls = 0\<rparr> = map (stored P) ns"
    by (simp_all add: as_db_def)
qed

text \<open>A call that ends as asked, with a table that holds the nodes or with the one from before.\<close>

lemma call_fills:
  assumes "pg_inv (as_db s)" and "writer s = Idle" and "acceptable P ns"
  shows "\<exists>as s' rows. trace (act P) s as s' \<and> attempts as = [ns] \<and> writer s' = Idle \<and> acknowledges as = ok
    \<and> fills P ns rows \<and> visible s' = Some rows"
proof -
  have f: "fills P ns (map (row_of P undefined) (List.enumerate 0 ns))" using assms(3) by (auto simp: fills_def)
  have "relation (as_db s) \<noteq> None" using assms(1) by (auto simp: pg_inv_def split: option.splits)
  from replace_all_filled [OF f this, of ok] replace_all_small_steps [OF assms(1,2), of P ns ok "Some (map (row_of P undefined) (List.enumerate 0 ns))"] f
  show ?thesis by blast
qed

lemma call_unchanged:
  assumes "pg_inv (as_db s)" and "writer s = Idle"
  shows "\<exists>as s'. trace (act P) s as s' \<and> attempts as = [ns] \<and> writer s' = Idle \<and> \<not> acknowledges as
    \<and> visible s' = visible s"
proof -
  have "\<exists>E res db'. replace_all P E ns (as_db s) = (res, db') \<and> isl res \<and> relation db' = visible s"
    using replace_all_unchanged [of P ns "as_db s"] by (fastforce simp: as_db_def)
  with replace_all_small_steps [OF assms, of P ns False "visible s"] show ?thesis by simp
qed

text \<open>
  C14. What one import can do to the stored ranking, with reads in between and faults at any point: from
  a migrated database without an open transaction, the lists that can be read after a call for the
  nodes \<open>ns\<close> are, when it is acknowledged, exactly those nodes in their order, which happens only when
  the columns can hold them; and when it fails, these nodes again (the acknowledgement was lost) or
  the list from before. Both do occur, and no third list can.
\<close>

theorem import_call_outcomes:
  assumes "pg_inv (as_db s)" and "writer s = Idle"
  shows "(\<exists>as s'. trace (act P) s as s' \<and> attempts as = [ns] \<and> writer s' = Idle \<and> acknowledges as = ok
            \<and> list_nodes None (as_db s') = Ok v) \<longleftrightarrow>
    acceptable P ns \<and> v = map (stored P) ns \<or> \<not> ok \<and> v = snapshot (as_db s)" (is "?steps \<longleftrightarrow> ?lists")
proof
  have read: "list_nodes None (as_db s') = Ok (snapshot (as_db s'))" if "pg_inv (as_db s')" for s' :: "'a shared"
    using list_nodes_inv [OF that] .
  have filled: "pg_inv (as_db s')" "snapshot (as_db s') = map (stored P) ns"
    if "fills P ns rows" "visible s' = Some rows" for s' :: "'a shared" and rows
    using snapshot_fills [OF that(1)] that(2) by (simp_all add: as_db_def)
  have same: "as_db s' = as_db s" if "visible s' = visible s" for s' :: "'a shared"
    using that by (simp add: as_db_def)
  show ?lists if ?steps
  proof -
    from that obtain as s' where tr: "trace (act P) s as s'" "attempts as = [ns]" "writer s' = Idle"
      and res: "acknowledges as = ok" "list_nodes None (as_db s') = Ok v" by blast
    have "shared_ok P s" using assms by (simp add: shared_ok_def)
    from trace_call [OF tr this assms(2)] show ?thesis
    proof
      assume *: "visible s' = visible s \<and> \<not> acknowledges as"
      then have "as_db s' = as_db s" by (intro same) simp
      with * res read [OF assms(1)] show ?thesis by simp
    next
      assume "\<exists>rows. fills P ns rows \<and> visible s' = Some rows"
      then obtain rows where rows: "fills P ns rows" "visible s' = Some rows" by blast
      with res(2) read [OF filled(1) [OF rows]] filled(2) [OF rows] show ?thesis by (simp add: fills_def)
    qed
  qed
  show ?steps if ?lists
    using that
  proof
    assume v: "acceptable P ns \<and> v = map (stored P) ns"
    then obtain as s' rows where "trace (act P) s as s'" "attempts as = [ns]" "writer s' = Idle" "acknowledges as = ok"
      and rows: "fills P ns rows" "visible s' = Some rows"
      using call_fills [OF assms, of P ns ok] by blast
    moreover have "list_nodes None (as_db s') = Ok v" using read filled [OF rows] v by simp
    ultimately show ?thesis by blast
  next
    assume v: "\<not> ok \<and> v = snapshot (as_db s)"
    obtain as s' where "trace (act P) s as s'" "attempts as = [ns]" "writer s' = Idle" "\<not> acknowledges as"
      and same': "visible s' = visible s"
      using call_unchanged [OF assms, of P ns] by blast
    moreover have "list_nodes None (as_db s') = Ok v" using read [OF assms(1)] same [OF same'] v by simp
    ultimately show ?thesis using v by blast
  qed
qed

text \<open>
  C4. The store refines an atomic register: observing only the commits and the reads whose statement
  runs, every trace of the transaction steps is a trace of a register that is written and read at once
  and never fails, holding at each moment the nodes of the committed table; the invariant of the
  reachable states holds at its end.
\<close>

theorem store_refines_register:
  assumes "trace (act P) s as s'" and "shared_ok P s"
  shows "trace register (snapshot (as_db s)) (map (observe P) as) (snapshot (as_db s')) \<and> shared_ok P s'"
  using pg_register.trace_simulated [OF assms] pg_register.trace_good [OF assms] by simp

text \<open>
  C3. Isolation: a read that runs at any moment, also between the \<open>DELETE\<close> and the \<open>COMMIT\<close> of an
  import, succeeds and returns exactly the nodes that the last commit before it wrote, in their order,
  or the initial snapshot when there was none; it never sees the emptied or half-filled table.
\<close>

theorem reads_see_last_commit:
  assumes "trace (act P) s (as @ Read None r # bs) s'" and "shared_ok P s"
  shows "r = Ok (latest (snapshot (as_db s)) (map (observe P) as))"
proof -
  from assms(1) obtain m m' where m: "trace (act P) s as m" and rd: "act P m (Read None r) m'"
    by (auto simp: trace_append trace_Cons)
  from rd trace_list_nodes [OF m assms(2)] show ?thesis by cases simp
qed

text \<open>An import of one node, with a read after the \<open>DELETE\<close> and one after the \<open>COMMIT\<close>.\<close>

definition example_node :: "int node" where
  "example_node = \<lparr>public_key = ''a'', node_alias = ''A'', capacity_sats = 1, first_seen = 0\<rparr>"

definition example_rows :: "int table_row list" where
  "example_rows = map (row_of plain_postgres 7) (List.enumerate 0 [example_node])"

lemma example_acceptable: "acceptable plain_postgres [example_node]"
  by (simp add: acceptable_def fits_db_def storable_def plain_postgres_def example_node_def max_ranks_def
      i64_max_def)

lemma act_read_ok:
  assumes "pg_inv (as_db s)" and "ns = snapshot (as_db s)"
  shows "act P s (Read None (Ok ns)) s"
  using act_read [of P s None] list_nodes_inv [OF assms(1)] assms(2) by simp

lemma push_nodes_acceptable: "acceptable P ns \<Longrightarrow> push_nodes 0 ns no_columns = Ok (columns_of 0 ns)"
  by (simp add: push_nodes_start acceptable_def)

lemma sql_insert_acceptable:
  assumes "acceptable P ns"
  shows "sql_insert P t (columns_of 0 ns) [] = Ok (map (row_of P t) (List.enumerate 0 ns))"
  using insert_rows_Ok_iff [of ns P t "[]" 0] assms
  by (simp add: sql_insert_def unnest_columns_of acceptable_def)

lemma example_trace:
  "trace (act plain_postgres) migrated
     [Begin [example_node], Delete, Read None (Ok []), Insert 7, Commit [example_node] True,
      Read None (Ok [example_node])]
     (migrated\<lparr>visible := Some example_rows, writer := Idle\<rparr>)" (is "trace _ _ _ ?end")
proof -
  let ?cols = "columns_of 0 [example_node]"
  let ?at = "\<lambda>w. migrated\<lparr>writer := w\<rparr>"
  note cols = push_nodes_acceptable [OF example_acceptable]
  have rows: "sql_insert plain_postgres 7 ?cols [] = Ok example_rows"
    unfolding example_rows_def by (rule sql_insert_acceptable [OF example_acceptable])
  have 1: "act plain_postgres migrated (Begin [example_node]) (?at (Opened [example_node] ?cols))"
    by (rule act_begin [OF migrated_ok(2) cols])
  have 2: "act plain_postgres (?at (Opened [example_node] ?cols)) Delete (?at (Emptied [example_node] ?cols []))"
    using act_delete [of "?at (Opened [example_node] ?cols)" "[example_node]" ?cols "[]"]
    by (simp add: sql_delete_def migrated_def)
  have 3: "act plain_postgres (?at w) (Read None (Ok [])) (?at w)" for w
    by (rule act_read_ok) (simp_all add: migrated_ok)
  have 4: "act plain_postgres (?at (Emptied [example_node] ?cols [])) (Insert 7) (?at (Filled [example_node] example_rows))"
    using act_insert [of "?at (Emptied [example_node] ?cols [])" "[example_node]" ?cols "[]" plain_postgres 7 example_rows]
    by (simp add: rows)
  have 5: "act plain_postgres (?at (Filled [example_node] example_rows)) (Commit [example_node] True) ?end"
    using act_commit [of "?at (Filled [example_node] example_rows)" "[example_node]" example_rows plain_postgres True]
    by (simp add: migrated_def)
  have 6: "act plain_postgres ?end (Read None (Ok [example_node])) ?end"
    by (rule act_read_ok)
      (use as_db_filled [OF example_acceptable example_rows_def, where s = migrated and w = Idle] in simp_all)
  show ?thesis by (intro trace.intros) (fact 1 2 3 4 5 6 trace_Nil)+
qed

lemma import_call_outcomes_witness:
  "\<exists>as s'. trace (act plain_postgres) (migrated :: int shared) as s' \<and> attempts as = [[example_node]]
     \<and> writer s' = Idle \<and> acknowledges as = True \<and> list_nodes None (as_db s') = Ok [example_node]"
  using import_call_outcomes [OF migrated_ok(1,2), of plain_postgres "[example_node]" True "[example_node]"]
    example_acceptable by (simp add: plain_postgres_def stored_def)

lemma store_refines_register_witness:
  "trace register [] [Tau, Tau, Got [], Tau, Wrote [example_node], Got [example_node]]
     (snapshot (as_db (migrated\<lparr>visible := Some example_rows, writer := Idle\<rparr>)))"
  using store_refines_register [OF example_trace migrated_ok(3)] by (simp add: migrated_ok)

lemma reads_see_last_commit_witness:
  "Ok [] = (Ok (latest (snapshot (as_db migrated)) (map (observe plain_postgres) [Begin [example_node], Delete]))
     :: storage_error + int node list)"
  by (rule reads_see_last_commit [where as = "[Begin [example_node], Delete]", OF _ migrated_ok(3)],
      simp only: append.simps, rule example_trace)

end
