(* ===== verification/Retry.thy ===== *)
theory Retry
  imports Storage
begin

text \<open>
  Starting up against a database that may not be there yet (\<^verbatim>\<open>src/src/app.rs\<close>): the exponential backoff, the
  generic \<open>retry\<close> loop, the classification of errors and the two loops built from them.

  The operation that is retried is a function of the number of the attempt and of the state it works on;
  an \<open>attempt\<close> says how long it takes, what it answers, and the state after it completed, after it was
  dropped because the token was cancelled first, and after the operation was only called: \<open>select!\<close> calls
  it before it looks at the token, and an already cancelled token drops the future unpolled. The loop may go on for ever, so it is a
  \<open>partial_function\<close> in the option type. The clock is in nanoseconds.
\<close>

section \<open>Backoff\<close>

definition MAX_BACKOFF :: nanos where
  "MAX_BACKOFF = duration_from_secs 30"

definition backoff_delay :: "u32 \<Rightarrow> nanos" where
  "backoff_delay attempt =
     (let secs = unwrap_or (u64_checked_shl 1 attempt) (- 1) in min (duration_from_secs secs) MAX_BACKOFF)"

section \<open>The retry loop\<close>

record ('e, 'a, 'w) attempt =
  att_took :: nanos
  att_answer :: "'e + 'a"
  att_after :: 'w
  att_dropped :: 'w
  att_called :: 'w

datatype 'e retry_event = Retrying string 'e u32 nanos

definition is_cancelled :: "nanos option \<Rightarrow> nanos \<Rightarrow> bool" where
  "is_cancelled token t = (case token of None \<Rightarrow> False | Some c \<Rightarrow> c \<le> t)"

text \<open>The result, the time, the state and the log of a finished loop.\<close>

record ('e, 'a, 'w) retried =
  outcome_of :: "'e + 'a option"
  finished_at :: nanos
  left :: 'w
  retry_log :: "'e retry_event list"

partial_function (option) retry_from ::
  "string \<Rightarrow> nanos option \<Rightarrow> ('e \<Rightarrow> bool) \<Rightarrow> (nat \<Rightarrow> 'w \<Rightarrow> ('e, 'a, 'w) attempt)
     \<Rightarrow> nat \<Rightarrow> u32 \<Rightarrow> nanos \<Rightarrow> 'w \<Rightarrow> 'e retry_event list \<Rightarrow> ('e, 'a, 'w) retried option" where
  "retry_from what token is_transient op i attempt t w log =
     (let a = op i w; done = t + att_took a in
      if is_cancelled token t then
        Some \<lparr>outcome_of = Ok None, finished_at = t, left = att_called a, retry_log = log\<rparr>
      else if is_cancelled token done then
        Some \<lparr>outcome_of = Ok None, finished_at = the token, left = att_dropped a, retry_log = log\<rparr>
      else case att_answer a of
        Inr value \<Rightarrow>
          Some \<lparr>outcome_of = Ok (Some value), finished_at = done, left = att_after a, retry_log = log\<rparr>
      | Inl err \<Rightarrow>
          if is_transient err then
            (let delay = backoff_delay attempt; log' = log @ [Retrying what err (attempt + 1) delay] in
             if is_cancelled token (done + delay) then
               Some \<lparr>outcome_of = Ok None, finished_at = the token, left = att_after a, retry_log = log'\<rparr>
             else
               retry_from what token is_transient op (Suc i) (u32_saturating_add attempt 1)
                 (done + delay) (att_after a) log')
          else Some \<lparr>outcome_of = Err err, finished_at = done, left = att_after a, retry_log = log\<rparr>)"

definition retry ::
  "string \<Rightarrow> nanos option \<Rightarrow> ('e \<Rightarrow> bool) \<Rightarrow> (nat \<Rightarrow> 'w \<Rightarrow> ('e, 'a, 'w) attempt)
     \<Rightarrow> nanos \<Rightarrow> 'w \<Rightarrow> ('e, 'a, 'w) retried option" where
  "retry what token is_transient op t w = retry_from what token is_transient op 0 0 t w []"

section \<open>Which errors are transient\<close>

fun is_connection_error :: "sqlx_error \<Rightarrow> bool" where
  "is_connection_error (Io _) = True"
| "is_connection_error PoolTimedOut = True"
| "is_connection_error PoolClosed = True"
| "is_connection_error _ = False"

fun is_transient_connect_error :: "storage_error \<Rightarrow> bool" where
  "is_transient_connect_error (Database (Configuration _)) = False"
| "is_transient_connect_error _ = True"

fun is_transient_migrate_error :: "storage_error \<Rightarrow> bool" where
  "is_transient_migrate_error (Database err) = is_connection_error err"
| "is_transient_migrate_error (Migration (Execute err)) = is_connection_error err"
| "is_transient_migrate_error _ = False"

section \<open>Connecting and migrating\<close>

text \<open>What the attempts meet: the answers and durations of sqlx, and whether a dropped migration had
  already been committed.\<close>

record 'pool db_env =
  pool_connect :: "nat \<Rightarrow> u32 \<Rightarrow> nanos \<Rightarrow> string \<Rightarrow> sqlx_error + 'pool"
  connect_took :: "nat \<Rightarrow> nanos"
  migrate_fault :: "nat \<Rightarrow> (migrate_error \<times> bool) option"
  migrate_took :: "nat \<Rightarrow> nanos"
  drop_committed :: bool

definition connect_with_retry ::
  "'pool db_env \<Rightarrow> string \<Rightarrow> nanos option \<Rightarrow> nanos \<Rightarrow> (storage_error, 'pool, unit) retried option" where
  "connect_with_retry D database_url token t =
     retry ''database connection'' token is_transient_connect_error
       (\<lambda>i w. \<lparr>att_took = connect_took D i, att_answer = connect (pool_connect D i) database_url,
               att_after = (), att_dropped = (), att_called = ()\<rparr>) t ()"

definition migrate_with_retry ::
  "'pool db_env \<Rightarrow> nanos option \<Rightarrow> nanos \<Rightarrow> 'dt pg_db \<Rightarrow> (storage_error, unit, 'dt pg_db) retried option" where
  "migrate_with_retry D token t db =
     retry ''database migration'' token is_transient_migrate_error
       (\<lambda>i db. case migrate (migrate_fault D i) db of
          (answer, db') \<Rightarrow> \<lparr>att_took = migrate_took D i, att_answer = answer, att_after = db',
                           att_dropped = (if drop_committed D then db' else db), att_called = db\<rparr>) t db"

section \<open>The delays\<close>

lemma backoff_delay_eq: "backoff_delay n = min (2 ^ unat n) 30 * 1000000000"
proof (cases "unat n < 64")
  case True
  then have "(2 :: nat) ^ unat n < 2 ^ 64" by (intro power_strict_increasing) auto
  moreover have "(push_bit (unat n) 1 :: u64) = of_nat (2 ^ unat n)" by (simp add: push_bit_eq_mult)
  ultimately have "unat (push_bit (unat n) 1 :: u64) = 2 ^ unat n" using True
    by (simp only: unsigned_of_nat) (simp add: take_bit_nat_eq_self)
  with True show ?thesis
    by (simp add: backoff_delay_def MAX_BACKOFF_def u64_checked_shl_def duration_from_secs_def min_mult_distrib_right)
next
  case False
  then have "(2 :: nat) ^ 64 \<le> 2 ^ unat n" by (intro power_increasing) auto
  moreover have "unat (- 1 :: u64) = 2 ^ 64 - 1" by (simp add: unsigned_minus_1_eq_mask mask_eq_exp_minus_1)
  ultimately show ?thesis using False
    by (simp add: backoff_delay_def MAX_BACKOFF_def u64_checked_shl_def duration_from_secs_def)
qed

lemma backoff_delay_pos: "0 < backoff_delay n"
  by (simp add: backoff_delay_eq)

lemma saturating_add_1: "unat (u32_saturating_add n 1) = min (unat n + 1) (2 ^ 32 - 1)"
proof (cases "unat n + 1 < 2 ^ 32")
  case True
  then show ?thesis by (simp add: u32_saturating_add_def unat_word_ariths)
next
  case False
  moreover have "unat (- 1 :: u32) = 2 ^ 32 - 1" by (simp add: unsigned_minus_1_eq_mask mask_eq_exp_minus_1)
  ultimately show ?thesis by (simp add: u32_saturating_add_def)
qed

section \<open>What the loop returns\<close>

text \<open>One turn of the loop as rewrite rules, by the way it ends.\<close>

lemma retry_from_cancelled:
  "is_cancelled token t \<Longrightarrow> retry_from what token tr op i n t w log =
     Some \<lparr>outcome_of = Ok None, finished_at = t, left = att_called (op i w), retry_log = log\<rparr>"
  by (simp add: retry_from.simps Let_def)

lemma retry_from_dropped:
  "\<not> is_cancelled token t \<Longrightarrow> is_cancelled token (t + att_took (op i w)) \<Longrightarrow>
     retry_from what token tr op i n t w log =
       Some \<lparr>outcome_of = Ok None, finished_at = the token, left = att_dropped (op i w), retry_log = log\<rparr>"
  by (simp add: retry_from.simps Let_def)

lemma retry_from_answer:
  "\<not> is_cancelled token (t + att_took (op i w)) \<Longrightarrow> \<not> is_cancelled token t \<Longrightarrow>
     (\<And>e. att_answer (op i w) = Err e \<Longrightarrow> \<not> tr e) \<Longrightarrow>
     retry_from what token tr op i n t w log =
       Some \<lparr>outcome_of = map_sum id Some (att_answer (op i w)), finished_at = t + att_took (op i w),
             left = att_after (op i w), retry_log = log\<rparr>"
  by (simp add: retry_from.simps Let_def split: sum.splits)

lemma retry_from_transient:
  assumes "att_answer (op i w) = Err e" and "tr e" and "\<not> is_cancelled token t"
    and "\<not> is_cancelled token (t + att_took (op i w))"
  shows "retry_from what token tr op i n t w log =
    (if is_cancelled token (t + att_took (op i w) + backoff_delay n) then
       Some \<lparr>outcome_of = Ok None, finished_at = the token, left = att_after (op i w),
             retry_log = log @ [Retrying what e (n + 1) (backoff_delay n)]\<rparr>
     else retry_from what token tr op (Suc i) (u32_saturating_add n 1)
            (t + att_took (op i w) + backoff_delay n) (att_after (op i w))
            (log @ [Retrying what e (n + 1) (backoff_delay n)]))"
  using assms by (simp add: retry_from.simps [of what token tr op i n t w log] Let_def)

lemma is_cancelled_mono: "is_cancelled token t \<Longrightarrow> t \<le> t' \<Longrightarrow> is_cancelled token t'"
  by (auto simp: is_cancelled_def split: option.splits)

lemma not_cancelled_before: "\<not> is_cancelled token (t + d) \<Longrightarrow> \<not> is_cancelled token t"
  using is_cancelled_mono [of token t "t + d"] by auto

text \<open>A cancelled token ends the loop no later than at its cancellation; every delay takes time, so the
  distance to it shrinks.\<close>

lemma retry_from_returns:
  assumes "token = Some c"
  shows "\<exists>r. retry_from what token tr op i n t w log = Some r \<and> finished_at r \<le> max t c
    \<and> (\<forall>e. outcome_of r = Err e \<longrightarrow> \<not> tr e)"
proof (induction "c - t" arbitrary: i n t w log rule: less_induct)
  case less
  let ?done = "t + att_took (op i w)"
  consider "is_cancelled token t" | "\<not> is_cancelled token t" "is_cancelled token ?done"
    | "\<not> is_cancelled token t" "\<not> is_cancelled token ?done" by blast
  then show ?case
  proof cases
    case 3
    then have lt: "?done < c" by (simp add: assms is_cancelled_def)
    show ?thesis
    proof (cases "\<exists>e. att_answer (op i w) = Err e \<and> tr e")
      case True
      then obtain e where e: "att_answer (op i w) = Err e" "tr e" by blast
      have "c - (?done + backoff_delay n) < c - t" using lt backoff_delay_pos [of n] by simp
      from less [OF this] 3 e lt show ?thesis
        by (auto simp: retry_from_transient assms is_cancelled_def)
    next
      case False
      with 3 lt show ?thesis
        by (subst retry_from_answer) (auto simp: is_cancelled_def map_sum_def split: sum.splits)
    qed
  qed (auto simp: retry_from_cancelled retry_from_dropped assms is_cancelled_def)
qed

text \<open>The state and the time at which attempt \<open>i\<close> begins when all earlier ones failed.\<close>

primrec world_at :: "(nat \<Rightarrow> 'w \<Rightarrow> ('e, 'a, 'w) attempt) \<Rightarrow> 'w \<Rightarrow> nat \<Rightarrow> 'w" where
  "world_at op w 0 = w"
| "world_at op w (Suc i) = att_after (op i (world_at op w i))"

primrec time_at :: "(nat \<Rightarrow> 'w \<Rightarrow> ('e, 'a, 'w) attempt) \<Rightarrow> 'w \<Rightarrow> nanos \<Rightarrow> nat \<Rightarrow> nanos" where
  "time_at op w t 0 = t"
| "time_at op w t (Suc i) =
     time_at op w t i + att_took (op i (world_at op w i)) + min (2 ^ i) 30 * 1000000000"

definition attempt_number :: "nat \<Rightarrow> u32" where
  "attempt_number i = of_nat (min i (2 ^ 32 - 1))"

lemma unat_attempt_number: "unat (attempt_number i) = min i (2 ^ 32 - 1)"
  by (simp add: attempt_number_def unsigned_of_nat take_bit_nat_eq_self min_def)

lemma attempt_number_Suc: "u32_saturating_add (attempt_number i) 1 = attempt_number (Suc i)"
proof (rule unsigned_word_eqI)
  show "unat (u32_saturating_add (attempt_number i) 1) = unat (attempt_number (Suc i))"
    by (simp add: saturating_add_1 unat_attempt_number min_def)
qed

lemma power_min_30: "5 \<le> m \<Longrightarrow> min (2 ^ m) 30 = (30 :: nat)"
  using power_increasing [of 5 m "2 :: nat"] by simp

lemma backoff_attempt: "backoff_delay (attempt_number i) = min (2 ^ i) 30 * 1000000000"
proof -
  define M :: nat where "M = 2 ^ 32 - 1"
  then have "5 \<le> M" by simp
  then have "min (2 ^ min i M) 30 = min (2 ^ i) (30 :: nat)"
    by (cases "i \<le> M") (simp_all add: power_min_30)
  then show ?thesis unfolding backoff_delay_eq unat_attempt_number M_def [symmetric] by (simp only:)
qed

lemma retry_reaches:
  assumes "\<forall>j < k. \<exists>e. att_answer (op j (world_at op w j)) = Err e \<and> tr e"
    and "\<not> is_cancelled token (time_at op w t k)"
  shows "\<exists>log. length log = k \<and> retry what token tr op t w =
    retry_from what token tr op k (attempt_number k) (time_at op w t k) (world_at op w k) log"
  using assms
proof (induction k)
  case 0
  then show ?case by (auto simp: retry_def attempt_number_def)
next
  case (Suc k)
  let ?t = "time_at op w t k" and ?w = "world_at op w k"
  have nc: "\<not> is_cancelled token (?t + att_took (op k ?w) + backoff_delay (attempt_number k))"
    using Suc.prems(2) by (simp add: backoff_attempt)
  note nd = not_cancelled_before [OF nc] and nt = not_cancelled_before [OF not_cancelled_before [OF nc]]
  obtain log where log: "length log = k"
    "retry what token tr op t w = retry_from what token tr op k (attempt_number k) ?t ?w log"
    using Suc.IH Suc.prems(1) nt by auto
  obtain e where e: "att_answer (op k ?w) = Err e" "tr e" using Suc.prems(1) by blast
  have "retry what token tr op t w = retry_from what token tr op (Suc k) (attempt_number (Suc k))
      (time_at op w t (Suc k)) (world_at op w (Suc k))
      (log @ [Retrying what e (attempt_number k + 1) (backoff_delay (attempt_number k))])"
    unfolding log(2) retry_from_transient [where op = op and tr = tr and i = k and w = ?w and t = ?t, OF e nt nd]
    using nc by (simp add: attempt_number_Suc backoff_attempt)
  with log(1) show ?case by (intro exI conjI) (auto intro: exI)
qed

text \<open>What it returns is the answer of an attempt, unless it was cancelled.\<close>

lemma retry_from_outcome:
  assumes "retry_from what token tr op i n t w log = Some r" and "Q (Ok None)"
    and "\<And>i w v. att_answer (op i w) = Ok v \<Longrightarrow> Q (Ok (Some v))"
    and "\<And>i w e. att_answer (op i w) = Err e \<Longrightarrow> \<not> tr e \<Longrightarrow> Q (Err e)"
  shows "Q (outcome_of r)"
proof -
  have "(\<forall>i w v. att_answer (op i w) = Ok v \<longrightarrow> Q (Ok (Some v))) \<longrightarrow>
      (\<forall>i w e. att_answer (op i w) = Err e \<longrightarrow> \<not> tr e \<longrightarrow> Q (Err e)) \<longrightarrow> Q (outcome_of r)"
  proof (rule retry_from.raw_induct [OF _ assms(1)], goal_cases)
    case (1 rec what token tr op i n t w log r)
    from 1(2) show ?case
      by (auto simp: Let_def assms(2) split: if_splits sum.splits dest!: 1(1))
  qed
  with assms(3,4) show ?thesis by blast
qed

lemma retry_from_permanent:
  "retry_from what token tr op i n t w log = Some r \<Longrightarrow> \<forall>e. outcome_of r = Err e \<longrightarrow> \<not> tr e"
  by (rule retry_from_outcome) auto

lemma retry_from_success:
  assumes "retry_from what token tr op i n t w log = Some r" and "outcome_of r = Ok (Some v)"
  shows "\<exists>i w. att_answer (op i w) = Ok v \<and> left r = att_after (op i w)"
proof -
  have "outcome_of r = Ok (Some v) \<longrightarrow> (\<exists>i w. att_answer (op i w) = Ok v \<and> left r = att_after (op i w))"
  proof (rule retry_from.raw_induct [OF _ assms(1)], goal_cases)
    case (1 rec what token tr op i n t w log r)
    from 1(2) show ?case
      by (auto simp: Let_def split: if_splits sum.splits dest!: 1(1)) blast
  qed
  with assms(2) show ?thesis by blast
qed

text \<open>Whatever every attempt keeps, completed or dropped, the loop keeps.\<close>

lemma retry_from_left:
  assumes "retry_from what token tr op i n t w log = Some r" and "Q w"
    and "\<And>i w. Q w \<Longrightarrow> Q (att_after (op i w)) \<and> Q (att_dropped (op i w)) \<and> Q (att_called (op i w))"
  shows "Q (left r)"
proof -
  have "Q w \<longrightarrow> (\<forall>i w. Q w \<longrightarrow> Q (att_after (op i w)) \<and> Q (att_dropped (op i w)) \<and> Q (att_called (op i w))) \<longrightarrow> Q (left r)"
  proof (rule retry_from.raw_induct [OF _ assms(1)], goal_cases)
    case (1 rec what token tr op i n t w log r)
    from 1(2) show ?case
      by (auto simp: Let_def split: if_splits sum.splits dest!: 1(1))
  qed
  with assms(2,3) show ?thesis by blast
qed

lemma migrate_snapshot: "migrate f db = (x, db') \<Longrightarrow> snapshot db' = snapshot db"
  by (auto simp: migrate_def Let_def create_nodes_def snapshot_def table_nodes_def by_rank_def
      split: option.splits if_splits)

lemma migrate_inv: "migrate f db = (x, db') \<Longrightarrow> pg_inv db \<Longrightarrow> pg_inv db'"
  by (auto simp: migrate_def Let_def create_nodes_def pg_inv_def table_ok_def split: option.splits if_splits)

lemma migrate_Ok: "migrate f db = (Ok u, db') \<Longrightarrow> relation db' \<noteq> None"
  by (auto simp: migrate_def Let_def create_nodes_def split: option.splits)

lemma migrate_Err: "migrate f db = (Err e, db') \<Longrightarrow> \<exists>me. e = Migration me"
  by (auto simp: migrate_def Let_def split: option.splits)

lemma migrate_with_retry_keeps:
  assumes "migrate_with_retry D token t db = Some r"
  shows "snapshot (left r) = snapshot db \<and> (pg_inv db \<longrightarrow> pg_inv (left r))"
proof (intro conjI impI)
  note r = assms [unfolded migrate_with_retry_def retry_def]
  show "snapshot (left r) = snapshot db"
    by (rule retry_from_left [OF r]) (auto split: prod.splits dest: migrate_snapshot)
  show "pg_inv (left r)" if "pg_inv db"
    by (rule retry_from_left [OF r]) (auto simp: that split: prod.splits dest: migrate_inv)
qed

lemma migrate_with_retry_success:
  assumes "migrate_with_retry D token t db = Some r" and "outcome_of r = Ok (Some u)"
  shows "relation (left r) \<noteq> None"
proof -
  obtain i db0 where "fst (migrate (migrate_fault D i) db0) = Ok u" "left r = snd (migrate (migrate_fault D i) db0)"
    using retry_from_success [OF assms(1) [unfolded migrate_with_retry_def retry_def] assms(2)]
    by (auto simp: prod.case_eq_if)
  then show ?thesis by (metis migrate_Ok prod.collapse)
qed

text \<open>The errors that a lost or missing connection gives a migration.\<close>

lemma migrate_with_retry_permanent:
  assumes "migrate_with_retry D token t db = Some r" and "outcome_of r = Err e"
  shows "\<exists>me. e = Migration me \<and> me \<notin> Execute ` (range Io \<union> {PoolTimedOut, PoolClosed})"
proof -
  note r = assms(1) [unfolded migrate_with_retry_def retry_def]
  have "case outcome_of r of Inl e \<Rightarrow> \<exists>me. e = Migration me | Inr _ \<Rightarrow> True"
    by (rule retry_from_outcome [OF r]) (auto split: prod.splits dest!: migrate_Err)
  moreover have "\<not> is_transient_migrate_error e" using retry_from_permanent [OF r] assms(2) by blast
  ultimately show ?thesis using assms(2) by auto
qed

lemma retry_cancelled_called:
  "\<exists>r. retry what (Some c) tr op t w = Some r \<and> finished_at r \<le> max t c
    \<and> (\<forall>e. outcome_of r = Err e \<longrightarrow> \<not> tr e) \<and> (c \<le> t \<longrightarrow> outcome_of r = Ok None \<and> left r = att_called (op 0 w))"
proof -
  obtain r where r: "retry what (Some c) tr op t w = Some r" "finished_at r \<le> max t c"
    "\<forall>e. outcome_of r = Err e \<longrightarrow> \<not> tr e"
    using retry_from_returns [OF refl, of what c tr op 0 0 t w "[]"] by (auto simp: retry_def)
  moreover have "outcome_of r = Ok None \<and> left r = att_called (op 0 w)" if "c \<le> t"
    using r(1) that by (auto simp: retry_def retry_from_cancelled is_cancelled_def)
  ultimately show ?thesis by blast
qed

lemma retry_cancelled:
  assumes "att_called (op 0 w) = w"
  shows "\<exists>r. retry what (Some c) tr op t w = Some r \<and> finished_at r \<le> max t c
    \<and> (\<forall>e. outcome_of r = Err e \<longrightarrow> \<not> tr e) \<and> (c \<le> t \<longrightarrow> outcome_of r = Ok None \<and> left r = w)"
  using retry_cancelled_called [of what c tr op t w] unfolding assms .

lemma connect_with_retry_cancelled:
  "\<exists>r. connect_with_retry D url (Some c) t = Some r \<and> finished_at r \<le> max t c
    \<and> (\<forall>e. outcome_of r = Err e \<longrightarrow> \<not> is_transient_connect_error e)
    \<and> (c \<le> t \<longrightarrow> outcome_of r = Ok None \<and> left r = ())"
  unfolding connect_with_retry_def by (rule retry_cancelled) simp

lemma migrate_with_retry_cancelled:
  "\<exists>r. migrate_with_retry D (Some c) t db = Some r \<and> finished_at r \<le> max t c
    \<and> (\<forall>e. outcome_of r = Err e \<longrightarrow> \<not> is_transient_migrate_error e)
    \<and> (c \<le> t \<longrightarrow> outcome_of r = Ok None \<and> left r = db)"
  unfolding migrate_with_retry_def by (rule retry_cancelled) (simp split: prod.splits)

lemma permanent_connect_error: "\<not> is_transient_connect_error e \<Longrightarrow> \<exists>m. e = Database (Configuration m)"
  by (cases e rule: is_transient_connect_error.cases) auto

section \<open>Properties of the startup\<close>

text \<open>A database for the witnesses: unreachable for two attempts of a second each, then up; the
  first migration is applied but not acknowledged.\<close>

definition test_db :: "string db_env" where
  "test_db =
     \<lparr>pool_connect = (\<lambda>i m t url. if i < 2 then Err (Io ''refused'') else Ok url),
      connect_took = (\<lambda>_. 1000000000),
      migrate_fault = (\<lambda>i. if i = 0 then Some (Execute PoolTimedOut, True) else None),
      migrate_took = (\<lambda>_. 1000000000), drop_committed = False\<rparr>"

text \<open>
  The backoff: retry number \<open>n\<close> waits \<open>min (2 ^ n) 30\<close> seconds, for every \<open>u32\<close>, also where the shift
  exceeds the width of the integer: the delay doubles, never wraps around and stays at the cap.
\<close>

theorem backoff_delay_value: "backoff_delay n = min (2 ^ unat n) 30 * 1000000000"
  by (rule backoff_delay_eq)

text \<open>
  C29. Retrying reaches the answer: if the first \<open>k\<close> attempts fail with transient errors and attempt
  \<open>k\<close> does not, and the token is not cancelled before that one completes, \<open>retry\<close> returns exactly its
  answer, a permanent error included, after the attempts and the delays \<open>1, 2, 4, .., 30, 30, ..\<close> seconds
  between them, and has logged one warning per failed attempt.
\<close>

theorem retry_returns_first_answer:
  assumes "\<forall>j < k. \<exists>e. att_answer (op j (world_at op w j)) = Err e \<and> is_transient e"
    and "\<forall>e. att_answer (op k (world_at op w k)) = Err e \<longrightarrow> \<not> is_transient e"
    and "\<not> is_cancelled token (time_at op w t k + att_took (op k (world_at op w k)))"
  shows "\<exists>log. length log = k \<and> retry what token is_transient op t w = Some
    \<lparr>outcome_of = map_sum id Some (att_answer (op k (world_at op w k))),
     finished_at = time_at op w t k + att_took (op k (world_at op w k)),
     left = att_after (op k (world_at op w k)), retry_log = log\<rparr>"
proof -
  have nc: "\<not> is_cancelled token (time_at op w t k)" by (rule not_cancelled_before [OF assms(3)])
  obtain log where "length log = k" "retry what token is_transient op t w = retry_from what token
      is_transient op k (attempt_number k) (time_at op w t k) (world_at op w k) log"
    using retry_reaches [where tr = is_transient, OF assms(1) nc] by blast
  with assms(2,3) nc show ?thesis by (simp add: retry_from_answer)
qed

lemma retry_returns_first_answer_witness:
  "\<exists>log. connect_with_retry test_db ''postgres://db'' None 0 = Some
     \<lparr>outcome_of = Ok (Some ''postgres://db''), finished_at = 6000000000, left = (), retry_log = log\<rparr>"
proof -
  let ?op = "\<lambda>i w. \<lparr>att_took = connect_took test_db i,
    att_answer = connect (pool_connect test_db i) ''postgres://db'', att_after = (), att_dropped = (), att_called = ()\<rparr>"
  have t: "\<forall>j < 2. \<exists>e. att_answer (?op j (world_at ?op () j)) = Err e \<and> is_transient_connect_error e"
    by (simp add: test_db_def connect_def)
  have "time_at ?op () 0 2 = 5000000000" by (simp add: numeral_2_eq_2 test_db_def)
  with retry_returns_first_answer [where k = 2 and op = ?op and w = "()" and token = None and t = 0
      and what = "''database connection''", OF t]
  show ?thesis by (auto simp: connect_with_retry_def test_db_def connect_def is_cancelled_def)
qed

text \<open>
  C30. Shutdown while waiting for the database: with a cancelled token, \<open>retry\<close> returns, and no later than
  at the cancellation (at once, when it was cancelled before), whatever the operation answers and
  however long it would take; it never invents an error. With a token cancelled beforehand, the operation
  is called but its future never runs.
\<close>

theorem retry_stops_on_cancel:
  assumes "token = Some c"
  shows "\<exists>r. retry what token is_transient op t w = Some r \<and> finished_at r \<le> max t c
    \<and> (\<forall>e. outcome_of r = Err e \<longrightarrow> \<not> is_transient e)
    \<and> (c \<le> t \<longrightarrow> outcome_of r = Ok None \<and> left r = att_called (op 0 w))"
  unfolding assms by (rule retry_cancelled_called)

lemma retry_stops_on_cancel_witness:
  "\<exists>r. connect_with_retry (test_db\<lparr>connect_took := \<lambda>_. 999999999999\<rparr>) ''postgres://db'' (Some 1500000000) 0
      = Some r \<and> finished_at r \<le> 1500000000"
proof -
  let ?D = "test_db\<lparr>connect_took := \<lambda>_. 999999999999\<rparr>"
  let ?op = "\<lambda>i w. \<lparr>att_took = connect_took ?D i,
    att_answer = connect (pool_connect ?D i) ''postgres://db'', att_after = (), att_dropped = (), att_called = ()\<rparr>"
  obtain r where "retry ''database connection'' (Some 1500000000) is_transient_connect_error ?op 0 () = Some r"
    "finished_at r \<le> max 0 1500000000"
    using retry_stops_on_cancel [where token = "Some 1500000000" and c = 1500000000 and op = ?op and t = 0
        and w = "()" and is_transient = is_transient_connect_error and what = "''database connection''"]
    by (elim meta_impE, simp, blast)
  then show ?thesis by (intro exI [of _ r]) (simp add: connect_with_retry_def)
qed

text \<open>
  C31. What makes the startup give up: connecting fails for good only because of the configuration (a
  malformed URL), never because the database is down; migrating fails for good only with an error of
  the migration that is not a lost connection, a timeout of the pool or a closed pool. A migration that
  reports success has left the table in place, and however it ends, after however many attempts, lost
  acknowledgements included, it leaves the stored nodes as they were.
\<close>

theorem startup_gives_up_only_on_permanent_errors:
  assumes "connect_with_retry D url token t = Some r" and "migrate_with_retry D' token' t' db = Some r'"
  shows "(\<forall>e. outcome_of r = Err e \<longrightarrow> (\<exists>m. e = Database (Configuration m))) \<and>
    (\<forall>e. outcome_of r' = Err e \<longrightarrow>
       (\<exists>me. e = Migration me \<and> me \<notin> Execute ` (range Io \<union> {PoolTimedOut, PoolClosed}))) \<and>
    (outcome_of r' = Ok (Some ()) \<longrightarrow> relation (left r') \<noteq> None) \<and>
    snapshot (left r') = snapshot db \<and> (pg_inv db \<longrightarrow> pg_inv (left r'))"
proof (intro conjI allI impI)
  show "\<exists>m. e = Database (Configuration m)" if "outcome_of r = Err e" for e
    using retry_from_permanent [OF assms(1) [unfolded connect_with_retry_def retry_def]] that
    by (simp add: permanent_connect_error)
  show "\<exists>me. e = Migration me \<and> me \<notin> Execute ` (range Io \<union> {PoolTimedOut, PoolClosed})"
    if "outcome_of r' = Err e" for e
    by (rule migrate_with_retry_permanent [OF assms(2) that])
  show "relation (left r') \<noteq> None" if "outcome_of r' = Ok (Some ())"
    by (rule migrate_with_retry_success [OF assms(2) that])
  show "snapshot (left r') = snapshot db" "pg_inv db \<Longrightarrow> pg_inv (left r')"
    using migrate_with_retry_keeps [OF assms(2)] by blast+
qed

lemma test_db_connects:
  "\<exists>r. connect_with_retry test_db ''x'' None 0 = Some r \<and> outcome_of r = Ok (Some ''x'')"
  by (simp add: connect_with_retry_def retry_def retry_from.simps Let_def is_cancelled_def test_db_def connect_def)

lemma test_db_migrates:
  "\<exists>r. migrate_with_retry test_db None 0 \<lparr>relation = None, calls = 0\<rparr> = Some r \<and> outcome_of r = Ok (Some ())"
  by (simp add: migrate_with_retry_def retry_def retry_from.simps Let_def is_cancelled_def test_db_def migrate_def
      create_nodes_def)

lemma startup_gives_up_only_on_permanent_errors_witness:
  "\<exists>r r'. connect_with_retry test_db ''x'' None 0 = Some r
    \<and> migrate_with_retry test_db None 0 \<lparr>relation = None, calls = 0\<rparr> = Some r'
    \<and> relation (left r' :: int pg_db) \<noteq> None \<and> snapshot (left r') = []"
proof -
  let ?db = "\<lparr>relation = None, calls = 0\<rparr> :: int pg_db"
  obtain r where r: "connect_with_retry test_db ''x'' None 0 = Some r" using test_db_connects by blast
  obtain r' where r': "migrate_with_retry test_db None 0 ?db = Some r'" "outcome_of r' = Ok (Some ())"
    using test_db_migrates by blast
  from startup_gives_up_only_on_permanent_errors [OF r r'(1)] r r' show ?thesis
    by (auto simp: snapshot_def)
qed

end
