(* ===== verification/Source.thy ===== *)
theory Source
  imports Domain
begin

text \<open>
  The crate's \<^verbatim>\<open>source\<close> module (\<^verbatim>\<open>src/src/source/\<close>): the wire format of the rankings endpoint and its
  validation (\<^verbatim>\<open>dto.rs\<close>), the HTTP client (\<^verbatim>\<open>mempool.rs\<close>) and the \<open>NodeSource\<close> trait with its error
  type (\<^verbatim>\<open>mod.rs\<close>).

  A JSON value is the datatype \<open>json\<close> with the constructors of \<open>serde_json::Value\<close>; an object is the
  list of its entries. \<open>from_value_dto\<close> is what the \<open>Deserialize\<close> derive on \<open>MempoolNodeDto\<close> denotes:
  fields by their camelCase names, unknown fields ignored, integers taken only when they fit \<open>i64\<close>;
  an array with exactly the four fields in order is accepted as well. Each record is kept or logged
  with its index; the warnings are the second list that \<open>parse_records\<close> yields. The HTTP exchange is
  not the crate's code: the record \<open>reqwest\<close> holds the client functions, with the outside world as an
  explicit state, and \<open>from_slice\<close> stands for the JSON text parser.

  The locale \<open>node_source\<close> is the trait's contract, interpreted here on the mempool client.
\<close>

section \<open>JSON values\<close>

datatype json_number = PosInt u64 | NegInt i64 | Float u64

datatype json =
    JNull
  | JBool bool
  | JNumber json_number
  | JString string
  | JArray "json list"
  | JObject "(string \<times> json) list"

section \<open>The record of the wire format\<close>

record mempool_node_dto =
  dto_public_key :: string
  dto_alias :: string
  dto_capacity :: i64
  dto_first_seen :: i64

datatype de_error =
    InvalidType
  | InvalidValue
  | InvalidLength nat
  | MissingField string
  | DuplicateField string

fun de_string :: "json \<Rightarrow> de_error + string" where
  "de_string (JString s) = Ok s"
| "de_string _ = Err InvalidType"

fun de_i64 :: "json \<Rightarrow> de_error + i64" where
  "de_i64 (JNumber (PosInt u)) = (if uint u \<le> i64_max then Ok u else Err InvalidValue)"
| "de_i64 (JNumber (NegInt i)) = Ok i"
| "de_i64 _ = Err InvalidType"

fun visit_map ::
  "(string \<times> json) list \<Rightarrow> string option \<Rightarrow> string option \<Rightarrow> i64 option \<Rightarrow> i64 option
     \<Rightarrow> de_error + mempool_node_dto" where
  "visit_map [] pk al cap fs =
     and_then (ok_or pk (MissingField ''publicKey'')) (\<lambda>pk.
     and_then (ok_or al (MissingField ''alias'')) (\<lambda>al.
     and_then (ok_or cap (MissingField ''capacity'')) (\<lambda>cap.
     and_then (ok_or fs (MissingField ''firstSeen'')) (\<lambda>fs.
       Ok \<lparr>dto_public_key = pk, dto_alias = al, dto_capacity = cap, dto_first_seen = fs\<rparr>))))"
| "visit_map ((k, v) # es) pk al cap fs =
     (if k = ''publicKey'' then
        if pk \<noteq> None then Err (DuplicateField k)
        else and_then (de_string v) (\<lambda>x. visit_map es (Some x) al cap fs)
      else if k = ''alias'' then
        if al \<noteq> None then Err (DuplicateField k)
        else and_then (de_string v) (\<lambda>x. visit_map es pk (Some x) cap fs)
      else if k = ''capacity'' then
        if cap \<noteq> None then Err (DuplicateField k)
        else and_then (de_i64 v) (\<lambda>x. visit_map es pk al (Some x) fs)
      else if k = ''firstSeen'' then
        if fs \<noteq> None then Err (DuplicateField k)
        else and_then (de_i64 v) (\<lambda>x. visit_map es pk al cap (Some x))
      else visit_map es pk al cap fs)"

definition visit_seq :: "json list \<Rightarrow> de_error + mempool_node_dto" where
  "visit_seq vs =
     (let elem = (\<lambda>i. if i < length vs then Ok (vs ! i) else Err (InvalidLength i))
      in and_then (and_then (elem 0) de_string) (\<lambda>pk.
         and_then (and_then (elem 1) de_string) (\<lambda>al.
         and_then (and_then (elem 2) de_i64) (\<lambda>cap.
         and_then (and_then (elem 3) de_i64) (\<lambda>fs.
           if length vs = 4
           then Ok \<lparr>dto_public_key = pk, dto_alias = al, dto_capacity = cap, dto_first_seen = fs\<rparr>
           else Err (InvalidLength (length vs)))))))"

fun from_value_dto :: "json \<Rightarrow> de_error + mempool_node_dto" where
  "from_value_dto (JObject es) = visit_map es None None None None"
| "from_value_dto (JArray vs) = visit_seq vs"
| "from_value_dto _ = Err InvalidType"

section \<open>Validation\<close>

datatype validation_error = EmptyPublicKey | NegativeCapacity i64 | InvalidFirstSeen i64

definition node_try_from :: "'dt chrono \<Rightarrow> mempool_node_dto \<Rightarrow> validation_error + 'dt node" where
  "node_try_from C dto =
     (if dto_public_key dto = [] then Err EmptyPublicKey
      else
        and_then (map_err (\<lambda>_. NegativeCapacity (dto_capacity dto))
                    (u64_try_from_i64 (dto_capacity dto))) (\<lambda>capacity.
        and_then (map_err (\<lambda>_. InvalidFirstSeen (dto_first_seen dto))
                    (timestamp_from_unix C (dto_first_seen dto))) (\<lambda>seen.
          Ok \<lparr>public_key = dto_public_key dto, node_alias = dto_alias dto,
              capacity_sats = capacity, first_seen = seen\<rparr>)))"

datatype record_warning =
    Malformed nat de_error
  | Invalid nat string validation_error

fun parse_record :: "'dt chrono \<Rightarrow> nat \<times> json \<Rightarrow> record_warning + 'dt node" where
  "parse_record C (index, record) =
     (case from_value_dto record of
        Inl err \<Rightarrow> Err (Malformed index err)
      | Inr dto \<Rightarrow>
          (case node_try_from C dto of
             Inr node \<Rightarrow> Ok node
           | Inl err \<Rightarrow> Err (Invalid index (dto_public_key dto) err)))"

text \<open>\<open>parse_records\<close>: the nodes it returns and the warnings it logs.\<close>

definition oks :: "('e + 'a) list \<Rightarrow> 'a list" where
  "oks rs = List.map_filter (\<lambda>r. case r of Inl _ \<Rightarrow> None | Inr x \<Rightarrow> Some x) rs"

definition errs :: "('e + 'a) list \<Rightarrow> 'e list" where
  "errs rs = List.map_filter (\<lambda>r. case r of Inl e \<Rightarrow> Some e | Inr _ \<Rightarrow> None) rs"

definition parse_records :: "'dt chrono \<Rightarrow> json list \<Rightarrow> 'dt node list \<times> record_warning list" where
  "parse_records C records =
     (let rs = map (parse_record C) (List.enumerate 0 records) in (oks rs, errs rs))"

section \<open>The HTTP client\<close>

datatype source_error = Request string | Status u16 | Decode string

record http_response =
  status :: u16
  body :: "string + string"

text \<open>The reqwest functions the client calls: building a client from a user agent and a timeout, and
  sending a GET request, which consumes and yields the state of the outside world.\<close>

record ('client, 'url, 'w) reqwest =
  build :: "string \<Rightarrow> nanos \<Rightarrow> string + 'client"
  send :: "'client \<Rightarrow> 'url \<Rightarrow> 'w \<Rightarrow> (string + http_response) \<times> 'w"

record ('client, 'url) mempool_client =
  http :: 'client
  url :: 'url

definition USER_AGENT :: string where
  "USER_AGENT = ''bipa-nodes/0.1.0''"

definition mempool_client_new ::
  "('client, 'url, 'w) reqwest \<Rightarrow> 'url \<Rightarrow> nanos \<Rightarrow> source_error + ('client, 'url) mempool_client" where
  "mempool_client_new R u timeout =
     and_then (map_err Request (build R USER_AGENT timeout)) (\<lambda>c. Ok \<lparr>http = c, url = u\<rparr>)"

definition is_success :: "u16 \<Rightarrow> bool" where
  "is_success st \<longleftrightarrow> 200 \<le> unat st \<and> unat st < 300"

text \<open>The part of \<open>fetch_nodes\<close> after \<open>send\<close>. The number of skipped records is a subtraction on \<open>usize\<close>,
  which panics on underflow.\<close>

definition decode_response ::
  "'dt chrono \<Rightarrow> (string \<Rightarrow> string + json list) \<Rightarrow> string + http_response
     \<Rightarrow> (source_error + 'dt node list) outcome" where
  "decode_response C from_slice sent =
     (case sent of
        Inl e \<Rightarrow> Returned (Err (Request e))
      | Inr response \<Rightarrow>
          if \<not> is_success (status response) then Returned (Err (Status (status response)))
          else
            (case body response of
               Inl e \<Rightarrow> Returned (Err (Request e))
             | Inr bytes \<Rightarrow>
                 (case from_slice bytes of
                    Inl e \<Rightarrow> Returned (Err (Decode e))
                  | Inr records \<Rightarrow>
                      (let received = length records; nodes = fst (parse_records C records)
                       in if received < length nodes then Panic ''attempt to subtract with overflow''
                          else Returned (Ok nodes)))))"

definition fetch_nodes ::
  "'dt chrono \<Rightarrow> ('client, 'url, 'w) reqwest \<Rightarrow> (string \<Rightarrow> string + json list)
     \<Rightarrow> ('client, 'url) mempool_client \<Rightarrow> 'w \<Rightarrow> (source_error + 'dt node list) outcome \<times> 'w" where
  "fetch_nodes C R from_slice client w =
     (case send R (http client) (url client) w of
        (sent, w') \<Rightarrow> (decode_response C from_slice sent, w'))"

section \<open>The example of the challenge\<close>

text \<open>The two-record example of the challenge, with the fields the service ignores; texts beyond ASCII are
  their UTF-8 bytes.\<close>

definition ACINQ_KEY :: string where
  "ACINQ_KEY = ''03864ef025fde8fb587d989186ce6a4a186895ee44a926bfc370e2c366597a3f8f''"

definition WOS_KEY :: string where
  "WOS_KEY = ''035e4ff418fc8b5554c5d9eea66396c227bd429a3251c8cbc711002ba215bfc226''"

definition challenge_example :: "json list" where
  "challenge_example =
    [JObject
      [(''publicKey'', JString ACINQ_KEY),
       (''alias'', JString ''ACINQ''),
       (''channels'', JNumber (PosInt 2908)),
       (''capacity'', JNumber (PosInt 36010516297)),
       (''firstSeen'', JNumber (PosInt 1522941222)),
       (''updatedAt'', JNumber (PosInt 1661274935)),
       (''city'', JNull),
       (''country'', JObject
        [(''de'', JString ''Vereinigte Staaten''),
         (''en'', JString ''United States''),
         (''es'', JString ''Estados Unidos''),
         (''fr'', JString [CHR 0xC3, CHR 0x89, CHR 0x74, CHR 0x61, CHR 0x74, CHR 0x73, CHR 0x20, CHR 0x55, CHR 0x6E, CHR 0x69, CHR 0x73]),
         (''ja'', JString [CHR 0xE3, CHR 0x82, CHR 0xA2, CHR 0xE3, CHR 0x83, CHR 0xA1, CHR 0xE3, CHR 0x83, CHR 0xAA, CHR 0xE3, CHR 0x82, CHR 0xAB]),
         (''pt-BR'', JString ''EUA''),
         (''ru'', JString [CHR 0xD0, CHR 0xA1, CHR 0xD0, CHR 0xA8, CHR 0xD0, CHR 0x90]),
         (''zh-CN'', JString [CHR 0xE7, CHR 0xBE, CHR 0x8E, CHR 0xE5, CHR 0x9B, CHR 0xBD])])],
     JObject
      [(''publicKey'', JString WOS_KEY),
       (''alias'', JString ''WalletOfSatoshi.com''),
       (''channels'', JNumber (PosInt 2772)),
       (''capacity'', JNumber (PosInt 15464503162)),
       (''firstSeen'', JNumber (PosInt 1601429940)),
       (''updatedAt'', JNumber (PosInt 1661812116)),
       (''city'', JObject
        [(''de'', JString ''Vancouver''),
         (''en'', JString ''Vancouver''),
         (''es'', JString ''Vancouver''),
         (''fr'', JString ''Vancouver''),
         (''ja'', JString [CHR 0xE3, CHR 0x83, CHR 0x90, CHR 0xE3, CHR 0x83, CHR 0xB3, CHR 0xE3, CHR 0x82, CHR 0xAF, CHR 0xE3, CHR 0x83, CHR 0xBC, CHR 0xE3, CHR 0x83, CHR 0x90, CHR 0xE3, CHR 0x83, CHR 0xBC, CHR 0xE5, CHR 0xB8, CHR 0x82]),
         (''pt-BR'', JString [CHR 0x56, CHR 0x61, CHR 0x6E, CHR 0x63, CHR 0xC3, CHR 0xB4, CHR 0x76, CHR 0x65, CHR 0x72]),
         (''ru'', JString [CHR 0xD0, CHR 0x92, CHR 0xD0, CHR 0xB0, CHR 0xD0, CHR 0xBD, CHR 0xD0, CHR 0xBA, CHR 0xD1, CHR 0x83, CHR 0xD0, CHR 0xB2, CHR 0xD0, CHR 0xB5, CHR 0xD1, CHR 0x80])]),
       (''country'', JObject
        [(''de'', JString ''Kanada''),
         (''en'', JString ''Canada''),
         (''es'', JString [CHR 0x43, CHR 0x61, CHR 0x6E, CHR 0x61, CHR 0x64, CHR 0xC3, CHR 0xA1]),
         (''fr'', JString ''Canada''),
         (''ja'', JString [CHR 0xE3, CHR 0x82, CHR 0xAB, CHR 0xE3, CHR 0x83, CHR 0x8A, CHR 0xE3, CHR 0x83, CHR 0x80]),
         (''pt-BR'', JString [CHR 0x43, CHR 0x61, CHR 0x6E, CHR 0x61, CHR 0x64, CHR 0xC3, CHR 0xA1]),
         (''ru'', JString [CHR 0xD0, CHR 0x9A, CHR 0xD0, CHR 0xB0, CHR 0xD0, CHR 0xBD, CHR 0xD0, CHR 0xB0, CHR 0xD0, CHR 0xB4, CHR 0xD0, CHR 0xB0]),
         (''zh-CN'', JString [CHR 0xE5, CHR 0x8A, CHR 0xA0, CHR 0xE6, CHR 0x8B, CHR 0xBF, CHR 0xE5, CHR 0xA4, CHR 0xA7])])]]"

section \<open>Decoding a record\<close>

definition known_field :: "string \<Rightarrow> bool" where
  "known_field k \<longleftrightarrow> k \<in> {''publicKey'', ''alias'', ''capacity'', ''firstSeen''}"

lemma visit_map_filter_known:
  "visit_map (filter (\<lambda>e. known_field (fst e)) es) pk al cap fs = visit_map es pk al cap fs"
proof (induction es arbitrary: pk al cap fs)
  case Nil
  then show ?case by simp
next
  case (Cons e es)
  obtain k v where e: "e = (k, v)" by (cases e)
  show ?case
  proof (cases "known_field k")
    case True
    with Cons e show ?thesis by simp
  next
    case False
    with Cons e show ?thesis by (simp add: known_field_def)
  qed
qed

text \<open>A field of the result: already read (\<open>acc\<close>), or decoded from the entry of that name.\<close>

definition decodes :: "(json \<Rightarrow> de_error + 'a) \<Rightarrow> 'a option \<Rightarrow> (string \<times> json) list \<Rightarrow> string \<Rightarrow> 'a \<Rightarrow> bool" where
  "decodes f acc es k x \<longleftrightarrow>
     (case acc of None \<Rightarrow> (\<exists>v. map_of es k = Some v \<and> f v = Ok x) | Some y \<Rightarrow> x = y)"

lemma decodes_simps [simp]:
  "decodes f (Some y) es k x \<longleftrightarrow> x = y"
  "\<not> decodes f None [] k x"
  "decodes f None ((k, v) # es) k x \<longleftrightarrow> f v = Ok x"
  "k' \<noteq> k \<Longrightarrow> decodes f acc ((k', v) # es) k x \<longleftrightarrow> decodes f acc es k x"
  by (auto simp: decodes_def split: option.splits)

definition read_once :: "'a option \<Rightarrow> (string \<times> json) list \<Rightarrow> string \<Rightarrow> bool" where
  "read_once acc es k \<longleftrightarrow> acc = None \<or> k \<notin> fst ` set es"

lemma decodes_end: "decodes f acc [] k x \<longleftrightarrow> acc = Some x"
  by (cases acc) auto

lemma visit_map_Ok_iff:
  assumes "distinct (map fst es)"
    and "read_once pk es ''publicKey''" "read_once al es ''alias''"
    and "read_once cap es ''capacity''" "read_once fs es ''firstSeen''"
  shows "visit_map es pk al cap fs = Ok dto \<longleftrightarrow>
       decodes de_string pk es ''publicKey'' (dto_public_key dto)
     \<and> decodes de_string al es ''alias'' (dto_alias dto)
     \<and> decodes de_i64 cap es ''capacity'' (dto_capacity dto)
     \<and> decodes de_i64 fs es ''firstSeen'' (dto_first_seen dto)"
  using assms
proof (induction es arbitrary: pk al cap fs)
  case Nil
  then show ?case by (cases dto) (auto simp: result_simps decodes_end)
next
  case (Cons e es)
  obtain k v where e: "e = (k, v)" by (cases e)
  note prems = Cons.prems [unfolded e read_once_def]
  consider "k = ''publicKey''" | "k = ''alias''" | "k = ''capacity''" | "k = ''firstSeen''"
    | "\<not> known_field k"
    by (auto simp: known_field_def)
  then show ?case
  proof cases
    case 1
    with prems Cons.IH show ?thesis by (auto simp: e result_simps read_once_def)
  next
    case 2
    with prems Cons.IH show ?thesis by (auto simp: e result_simps read_once_def)
  next
    case 3
    with prems Cons.IH show ?thesis by (auto simp: e result_simps read_once_def)
  next
    case 4
    with prems Cons.IH show ?thesis by (auto simp: e result_simps read_once_def)
  next
    case 5
    with prems Cons.IH show ?thesis by (auto simp: e read_once_def known_field_def)
  qed
qed

lemma de_string_Ok_iff [simp]: "de_string v = Ok x \<longleftrightarrow> v = JString x"
  by (cases v) auto

text \<open>The value of an integer field: what the JSON number denotes.\<close>

fun json_int :: "json \<Rightarrow> int option" where
  "json_int (JNumber (PosInt u)) = Some (uint u)"
| "json_int (JNumber (NegInt i)) = Some (sint i)"
| "json_int _ = None"

lemma de_i64_Ok_iff:
  "de_i64 v = Ok x \<longleftrightarrow> (\<exists>z. json_int v = Some z \<and> z \<le> i64_max \<and> sint x = z)"
proof (cases v)
  case (JNumber n)
  have max: "sint y \<le> i64_max" for y :: i64 using sint_lt [of y] by (simp add: i64_max_def)
  show ?thesis
  proof (cases n)
    case (PosInt u)
    have "uint u \<le> i64_max \<Longrightarrow> sint x = uint u \<Longrightarrow> u = x"
      using sint_eq_uint_small [of u] by (intro sint_eqD) simp
    with JNumber PosInt show ?thesis using sint_eq_uint_small by auto
  next
    case (NegInt i)
    with JNumber max show ?thesis by (auto intro: sint_eqD)
  next
    case (Float b)
    with JNumber show ?thesis by simp
  qed
qed auto

text \<open>
  C18. Decoding of a JSON object: it succeeds exactly when the four needed fields are there with the
  right types and 64-bit values, whatever other fields the object has, and the result holds their
  values; entries the service does not know never change the outcome.
\<close>

theorem from_value_dto_object:
  assumes "distinct (map fst es)"
  shows "(from_value_dto (JObject es) = Ok dto \<longleftrightarrow>
       map_of es ''publicKey'' = Some (JString (dto_public_key dto))
     \<and> map_of es ''alias'' = Some (JString (dto_alias dto))
     \<and> (\<exists>v. map_of es ''capacity'' = Some v \<and> json_int v = Some (sint (dto_capacity dto)))
     \<and> (\<exists>v. map_of es ''firstSeen'' = Some v \<and> json_int v = Some (sint (dto_first_seen dto))))
     \<and> from_value_dto (JObject es) =
         from_value_dto (JObject (filter (\<lambda>e. known_field (fst e)) es))"
proof (rule conjI)
  have max: "sint y \<le> i64_max" for y :: i64 using sint_lt [of y] by (simp add: i64_max_def)
  have int: "de_i64 v = Ok y \<longleftrightarrow> json_int v = Some (sint y)" for v y
    using max [of y] by (auto simp: de_i64_Ok_iff)
  show "from_value_dto (JObject es) = Ok dto \<longleftrightarrow>
       map_of es ''publicKey'' = Some (JString (dto_public_key dto))
     \<and> map_of es ''alias'' = Some (JString (dto_alias dto))
     \<and> (\<exists>v. map_of es ''capacity'' = Some v \<and> json_int v = Some (sint (dto_capacity dto)))
     \<and> (\<exists>v. map_of es ''firstSeen'' = Some v \<and> json_int v = Some (sint (dto_first_seen dto)))"
    using visit_map_Ok_iff [OF assms, of None None None None dto]
    by (simp add: read_once_def decodes_def int)
  show "from_value_dto (JObject es) =
      from_value_dto (JObject (filter (\<lambda>e. known_field (fst e)) es))"
    by (simp add: visit_map_filter_known)
qed

theorem from_value_dto_object_witness:
  "from_value_dto (JObject [(''alias'', JString ''ACINQ''), (''capacity'', JNumber (PosInt 36010516297)),
      (''city'', JNull), (''firstSeen'', JNumber (PosInt 1522941222)), (''publicKey'', JString ''0386'')])
   = Ok \<lparr>dto_public_key = ''0386'', dto_alias = ''ACINQ'', dto_capacity = 36010516297,
        dto_first_seen = 1522941222\<rparr>"
  by (subst from_value_dto_object [THEN conjunct1]) simp_all

section \<open>Validating a record\<close>

definition valid_node :: "'dt chrono \<Rightarrow> 'dt node \<Rightarrow> bool" where
  "valid_node C n \<longleftrightarrow>
     public_key n \<noteq> [] \<and> uint (capacity_sats n) \<le> i64_max
       \<and> chrono_min \<le> timestamp C (first_seen n) \<and> timestamp C (first_seen n) \<le> chrono_max"

definition dto_ok :: "mempool_node_dto \<Rightarrow> bool" where
  "dto_ok dto \<longleftrightarrow> dto_public_key dto \<noteq> [] \<and> 0 \<le> sint (dto_capacity dto)
     \<and> chrono_min \<le> sint (dto_first_seen dto) \<and> sint (dto_first_seen dto) \<le> chrono_max"

definition represents :: "'dt chrono \<Rightarrow> mempool_node_dto \<Rightarrow> 'dt node \<Rightarrow> bool" where
  "represents C dto n \<longleftrightarrow>
     public_key n = dto_public_key dto \<and> node_alias n = dto_alias dto
       \<and> uint (capacity_sats n) = sint (dto_capacity dto)
       \<and> timestamp C (first_seen n) = sint (dto_first_seen dto)"

context chrono_api
begin

lemma node_try_from_Ok:
  assumes "node_try_from C dto = Ok n"
  shows "dto_ok dto" and "represents C dto n"
  using assms timestamp_from_unix_Ok_iff [of "dto_first_seen dto"] uint_eq_sint_nonneg
  by (auto simp: node_try_from_def dto_ok_def represents_def result_simps u64_try_from_i64_Ok_iff
      timestamp_from_unix_value split: if_splits)

lemma node_try_from_complete: "dto_ok dto \<Longrightarrow> \<exists>n. node_try_from C dto = Ok n"
  using timestamp_from_unix_Ok_iff [of "dto_first_seen dto"]
  by (auto simp: node_try_from_def dto_ok_def u64_try_from_i64_def)

lemma node_try_from_Err:
  "node_try_from C dto = Err e \<longleftrightarrow>
     (if dto_public_key dto = [] then e = EmptyPublicKey
      else if sint (dto_capacity dto) < 0 then e = NegativeCapacity (dto_capacity dto)
      else e = InvalidFirstSeen (dto_first_seen dto)
        \<and> \<not> (chrono_min \<le> sint (dto_first_seen dto) \<and> sint (dto_first_seen dto) \<le> chrono_max))"
  using timestamp_from_unix_Err_iff [of "dto_first_seen dto"]
  by (auto simp: node_try_from_def result_simps u64_try_from_i64_def)

lemma represents_valid: "dto_ok dto \<Longrightarrow> represents C dto n \<Longrightarrow> valid_node C n"
  using sint_lt [of "dto_capacity dto"]
  by (auto simp: dto_ok_def represents_def valid_node_def i64_max_def)

end

text \<open>
  C16. Validation of a decoded record: it is accepted exactly when the key is not empty, the capacity
  is not negative and the timestamp is representable; the node then carries the same key, alias,
  capacity and instant. Otherwise the first failing check, in that order, names the offending value.
\<close>

theorem node_try_from_correct:
  assumes "chrono_api C"
  shows "if dto_ok dto
     then \<exists>n. node_try_from C dto = Ok n \<and> represents C dto n \<and> valid_node C n
     else node_try_from C dto = Err
       (if dto_public_key dto = [] then EmptyPublicKey
        else if sint (dto_capacity dto) < 0 then NegativeCapacity (dto_capacity dto)
        else InvalidFirstSeen (dto_first_seen dto))"
proof (cases "dto_ok dto")
  case True
  then show ?thesis
    using chrono_api.node_try_from_complete [OF assms] chrono_api.node_try_from_Ok [OF assms]
      chrono_api.represents_valid [OF assms] by (simp only: if_True) blast
next
  case False
  then show ?thesis
    by (simp add: chrono_api.node_try_from_Err [OF assms]) (auto simp: dto_ok_def)
qed

theorem node_try_from_correct_witness:
  "node_try_from utc_chrono
     \<lparr>dto_public_key = ''b'', dto_alias = ''n'', dto_capacity = - 5, dto_first_seen = 0\<rparr>
   = Err (NegativeCapacity (- 5))"
  using node_try_from_correct [OF utc.chrono_api_axioms, of
      "\<lparr>dto_public_key = ''b'', dto_alias = ''n'', dto_capacity = - 5, dto_first_seen = 0\<rparr>"]
  by (simp add: dto_ok_def)

section \<open>All records\<close>

definition accept :: "'dt chrono \<Rightarrow> json \<Rightarrow> 'dt node option" where
  "accept C record =
     (case from_value_dto record of
        Inl _ \<Rightarrow> None
      | Inr dto \<Rightarrow> (case node_try_from C dto of Inl _ \<Rightarrow> None | Inr n \<Rightarrow> Some n))"

fun warning_index :: "record_warning \<Rightarrow> nat" where
  "warning_index (Malformed i _) = i"
| "warning_index (Invalid i _ _) = i"

lemma oks_simps [simp]: "oks [] = []" "oks (Inl e # rs) = oks rs" "oks (Inr x # rs) = x # oks rs"
  by (simp_all add: oks_def)

lemma errs_simps [simp]: "errs [] = []" "errs (Inl e # rs) = e # errs rs" "errs (Inr x # rs) = errs rs"
  by (simp_all add: errs_def)

lemma length_oks_errs: "length (oks rs) + length (errs rs) = length rs"
proof (induction rs)
  case (Cons r rs)
  then show ?case by (cases r) auto
qed simp

lemma parse_record_accept:
  "parse_record C (i, r) = Inr n \<longleftrightarrow> accept C r = Some n"
  "parse_record C (i, r) = Inl w \<Longrightarrow> accept C r = None \<and> warning_index w = i"
  by (auto simp: accept_def split: sum.splits)

lemma oks_parse_record:
  "oks (map (parse_record C) (List.enumerate i rs)) = List.map_filter (accept C) rs"
proof (induction rs arbitrary: i)
  case (Cons r rs)
  show ?case
  proof (cases "parse_record C (i, r)")
    case (Inl w)
    with parse_record_accept(2) [OF Inl] Cons show ?thesis
      by (simp del: parse_record.simps)
  next
    case (Inr n)
    with parse_record_accept(1) [of C i r n] Cons show ?thesis
      by (simp del: parse_record.simps)
  qed
qed simp

lemma errs_parse_record:
  "map warning_index (errs (map (parse_record C) (List.enumerate i rs)))
     = filter (\<lambda>j. accept C (rs ! (j - i)) = None) [i..<i + length rs]"
proof (induction rs arbitrary: i)
  case (Cons r rs)
  have shift: "filter (\<lambda>j. accept C ((r # rs) ! (j - i)) = None) [Suc i..<Suc (i + length rs)]
      = filter (\<lambda>j. accept C (rs ! (j - Suc i)) = None) [Suc i..<Suc (i + length rs)]"
    by (rule filter_cong) (auto simp: nth_Cons' Suc_diff_Suc)
  have split: "[i..<i + length (r # rs)] = i # [Suc i..<Suc (i + length rs)]"
    by (simp add: upt_rec)
  show ?case
  proof (cases "parse_record C (i, r)")
    case (Inl w)
    with parse_record_accept(2) [OF Inl] Cons [of "Suc i"] show ?thesis
      unfolding split by (simp add: shift del: parse_record.simps upt_Suc)
  next
    case (Inr n)
    with parse_record_accept(1) [of C i r n] Cons [of "Suc i"] show ?thesis
      unfolding split by (simp add: shift del: parse_record.simps upt_Suc)
  qed
qed simp

lemma map_filter_append: "List.map_filter f (xs @ ys) = List.map_filter f xs @ List.map_filter f ys"
  by (simp add: List.map_filter_def)

lemma length_map_filter_le: "\<not> length xs < length (List.map_filter f xs)"
  by (simp add: List.map_filter_def not_less)

lemma parse_records_nodes: "fst (parse_records C rs) = List.map_filter (accept C) rs"
  by (simp add: parse_records_def Let_def oks_parse_record)

lemma parse_records_length:
  "length (fst (parse_records C rs)) + length (snd (parse_records C rs)) = length rs"
  by (simp add: parse_records_def Let_def length_oks_errs)

text \<open>
  C17. Parsing of a response: every record is either returned or reported, never both and never lost.
  The nodes are exactly the acceptable records in source order; the warnings name, in ascending
  order, exactly the indices of the records that were skipped.
\<close>

theorem parse_records_partition:
  "fst (parse_records C rs) = List.map_filter (accept C) rs \<and>
   map warning_index (snd (parse_records C rs)) =
     filter (\<lambda>i. accept C (rs ! i) = None) [0..<length rs] \<and>
   length (fst (parse_records C rs)) + length (snd (parse_records C rs)) = length rs"
  using errs_parse_record [of C 0 rs] parse_records_nodes [of C rs] parse_records_length [of C rs]
  by (simp add: parse_records_def Let_def)

text \<open>
  One bad record does not block the rest: replacing a record in the middle of a response changes
  only its own contribution to the result, which is one node or none.
\<close>

theorem parse_records_isolation:
  "fst (parse_records C (xs @ r # ys)) =
     fst (parse_records C xs) @ (case accept C r of None \<Rightarrow> [] | Some n \<Rightarrow> [n])
       @ fst (parse_records C ys)"
  by (simp add: parse_records_nodes map_filter_append split: option.splits)

section \<open>The client\<close>

lemma decode_response_cases:
  "decode_response C from_slice sent = Returned
     (and_then (map_err Request sent) (\<lambda>response.
      if \<not> is_success (status response) then Err (Status (status response))
      else and_then (map_err Request (body response)) (\<lambda>bytes.
           and_then (map_err Decode (from_slice bytes)) (\<lambda>records.
             Ok (List.map_filter (accept C) records)))))"
  by (auto simp: decode_response_def Let_def parse_records_nodes length_map_filter_le
      split: sum.splits)

text \<open>
  C19. Fetching the ranking returns in every case and never panics; in particular the count of skipped
  records does not underflow. A transport failure, while sending or while reading the body, is
  \<open>Request\<close>; a status outside 200 to 299 is \<open>Status\<close> and is looked at before the body; a body that is
  no JSON array is \<open>Decode\<close>; otherwise the result is the acceptable records in source order.
\<close>

theorem fetch_nodes_total:
  "fetch_nodes C R from_slice client w =
     (Returned
       (and_then (map_err Request (fst (send R (http client) (url client) w))) (\<lambda>response.
        if \<not> is_success (status response) then Err (Status (status response))
        else and_then (map_err Request (body response)) (\<lambda>bytes.
             and_then (map_err Decode (from_slice bytes)) (\<lambda>records.
               Ok (List.map_filter (accept C) records))))),
      snd (send R (http client) (url client) w))"
  by (simp add: fetch_nodes_def decode_response_cases split: prod.splits)

section \<open>The NodeSource contract\<close>

text \<open>A source in a state that satisfies \<open>src_inv\<close> delivers, when it succeeds, nodes that satisfy \<open>good\<close>,
  and stays in such a state.\<close>

locale node_source =
  fixes fetch :: "'s \<Rightarrow> (source_error + 'dt node list) outcome \<times> 's"
    and good :: "'dt node \<Rightarrow> bool"
    and src_inv :: "'s \<Rightarrow> bool"
  assumes fetch_wf: "src_inv s \<Longrightarrow> fetch s = (Returned (Ok ns), s') \<Longrightarrow> n \<in> set ns \<Longrightarrow> good n"
    and fetch_inv: "src_inv s \<Longrightarrow> fetch s = (x, s') \<Longrightarrow> src_inv s'"

context chrono_api
begin

lemma accept_valid: "accept C r = Some n \<Longrightarrow> valid_node C n"
  using node_try_from_Ok represents_valid by (fastforce simp: accept_def split: sum.splits)

lemma fetch_nodes_valid:
  "fetch_nodes C R from_slice client w = (Returned (Ok ns), w') \<Longrightarrow> n \<in> set ns \<Longrightarrow> valid_node C n"
  by (auto simp: fetch_nodes_def decode_response_cases result_simps List.map_filter_def
      split: prod.splits if_splits) (erule accept_valid)

end

sublocale chrono_api \<subseteq> mempool: node_source "fetch_nodes C R from_slice client" "valid_node C" "\<lambda>_. True"
  for R :: "('client, 'url, 'w) reqwest" and from_slice client
  by unfold_locales (simp_all add: fetch_nodes_valid)

end
