(* ===== verification/Test_Support.thy ===== *)
theory Test_Support
  imports Source Storage
begin

text \<open>
  The in-memory doubles of \<^verbatim>\<open>src/src/test_support.rs\<close>: a source that replays a script and a repository
  backed by a list, with switches for failures. They provide second interpretations of the two
  contracts, \<open>node_source\<close> and \<open>strict_repository\<close>, beside the mempool client and the Postgres
  repository, and small executable instances for the witnesses of the theories above.
\<close>

section \<open>Nodes\<close>

definition test_node :: "'dt chrono \<Rightarrow> string \<Rightarrow> string \<Rightarrow> u64 \<Rightarrow> i64 \<Rightarrow> 'dt node outcome" where
  "test_node C pk al capacity seen =
     (case timestamp_from_unix C seen of
        Inl e \<Rightarrow> Panic ''called `Result::unwrap()` on an `Err` value''
      | Inr t \<Rightarrow> Returned \<lparr>public_key = pk, node_alias = al, capacity_sats = capacity, first_seen = t\<rparr>)"

text \<open>The nodes of the challenge's example; \<open>node\<close> panics on a timestamp out of range, so the list is an
  outcome.\<close>

fun collect_outcome :: "'a outcome list \<Rightarrow> 'a list outcome" where
  "collect_outcome [] = Returned []"
| "collect_outcome (Panic m # _) = Panic m"
| "collect_outcome (Returned x # rs) =
     (case collect_outcome rs of Panic m \<Rightarrow> Panic m | Returned xs \<Rightarrow> Returned (x # xs))"

definition challenge_nodes :: "'dt chrono \<Rightarrow> 'dt node list outcome" where
  "challenge_nodes C = collect_outcome
     [test_node C ''03864ef025fde8fb587d989186ce6a4a186895ee44a926bfc370e2c366597a3f8f'' ''ACINQ''
        36010516297 1522941222,
      test_node C ''035e4ff418fc8b5554c5d9eea66396c227bd429a3251c8cbc711002ba215bfc226''
        ''WalletOfSatoshi.com'' 15464503162 1601429940]"

definition challenge_list :: "int node list" where
  "challenge_list =
     [\<lparr>public_key = ACINQ_KEY, node_alias = ''ACINQ'', capacity_sats = 36010516297, first_seen = 1522941222\<rparr>,
      \<lparr>public_key = WOS_KEY, node_alias = ''WalletOfSatoshi.com'', capacity_sats = 15464503162,
       first_seen = 1601429940\<rparr>]"

lemma challenge_nodes_utc: "challenge_nodes utc_chrono = Returned challenge_list"
  by (simp add: challenge_nodes_def challenge_list_def test_node_def timestamp_from_unix_def utc_chrono_def
      chrono_bounds ACINQ_KEY_def WOS_KEY_def)

lemma challenge_example_accepted:
  "List.map_filter (accept utc_chrono) challenge_example = challenge_list"
  by (simp add: challenge_example_def challenge_list_def accept_def i64_max_def node_try_from_def
      u64_try_from_i64_def timestamp_from_unix_def utc_chrono_def chrono_bounds ACINQ_KEY_def WOS_KEY_def)

section \<open>The scripted source\<close>

datatype 'dt step = Nodes "'dt node list" | Fail u16 | PanicStep

record 'dt fake_source =
  script :: "'dt step list"
  source_calls :: usize

definition fake_source_new :: "'dt step list \<Rightarrow> 'dt fake_source" where
  "fake_source_new steps = \<lparr>script = steps, source_calls = 0\<rparr>"

definition fake_fetch_nodes ::
  "'dt fake_source \<Rightarrow> (source_error + 'dt node list) outcome \<times> 'dt fake_source" where
  "fake_fetch_nodes s =
     (let s' = \<lparr>script = tl (script s), source_calls = source_calls s + 1\<rparr>
      in case script s of
           Nodes nodes # _ \<Rightarrow> (Returned (Ok nodes), s')
         | Fail st # _ \<Rightarrow> (Returned (Err (Status st)), s')
         | PanicStep # _ \<Rightarrow> (Panic ''scripted panic in FakeSource'', s')
         | [] \<Rightarrow> (Returned (Err (Status 503)), s'))"

section \<open>The in-memory repository\<close>

record 'dt fake_repository =
  fake_nodes :: "'dt node list"
  replace_calls :: "'dt node list list"
  fail :: bool
  panic_on_list :: bool

definition fake_default :: "'dt fake_repository" where
  "fake_default = \<lparr>fake_nodes = [], replace_calls = [], fail = False, panic_on_list = False\<rparr>"

definition with_nodes :: "'dt node list \<Rightarrow> 'dt fake_repository" where
  "with_nodes nodes = fake_default\<lparr>fake_nodes := nodes\<rparr>"

definition set_failing :: "bool \<Rightarrow> 'dt fake_repository \<Rightarrow> 'dt fake_repository" where
  "set_failing b r = r\<lparr>fail := b\<rparr>"

definition set_panic_on_list :: "bool \<Rightarrow> 'dt fake_repository \<Rightarrow> 'dt fake_repository" where
  "set_panic_on_list b r = r\<lparr>panic_on_list := b\<rparr>"

definition fake_replace_all ::
  "'dt node list \<Rightarrow> 'dt fake_repository \<Rightarrow> (storage_error + nat) outcome \<times> 'dt fake_repository" where
  "fake_replace_all nodes r =
     (let r' = r\<lparr>replace_calls := replace_calls r @ [nodes]\<rparr>
      in if fail r then (Returned (Err (Database PoolTimedOut)), r')
         else (Returned (Ok (length nodes)), r'\<lparr>fake_nodes := nodes\<rparr>))"

definition fake_list_nodes :: "'dt fake_repository \<Rightarrow> (storage_error + 'dt node list) outcome" where
  "fake_list_nodes r =
     (if panic_on_list r then Panic ''scripted panic in FakeRepository''
      else if fail r then Returned (Err (Database PoolTimedOut))
      else Returned (Ok (fake_nodes r)))"

section \<open>Both contracts hold\<close>

definition script_wf :: "('dt node \<Rightarrow> bool) \<Rightarrow> 'dt fake_source \<Rightarrow> bool" where
  "script_wf good s \<longleftrightarrow> (\<forall>ns. Nodes ns \<in> set (script s) \<longrightarrow> (\<forall>n \<in> set ns. good n))"

interpretation fake_src: node_source fake_fetch_nodes good "script_wf good" for good
  by unfold_locales
    (auto simp: fake_fetch_nodes_def script_wf_def Let_def split: list.splits step.splits)

interpretation fake_repo: strict_repository fake_replace_all fake_list_nodes fake_nodes id "\<lambda>_. True"
  by unfold_locales
    (auto simp: fake_replace_all_def fake_list_nodes_def Let_def split: if_splits)

end
