(* ===== verification/Importer.thy ===== *)
theory Importer
  imports Test_Support
begin

text \<open>
  The background import (\<^verbatim>\<open>src/src/importer.rs\<close>): \<open>run_once\<close>, the loop of \<open>run\<close> with its biased
  \<open>select!\<close>, its interval ticks, the task per iteration that contains panics, and \<open>log_result\<close>.

  The importer is generic in its source and repository: the definitions take the two trait methods
  as functions that pass their state along and may panic; the lemmas use them through the contracts
  \<open>node_source\<close> and \<open>node_repository\<close> only. Time is a clock in nanoseconds, a natural number: an instant
  or a due time beyond the range of Rust's \<open>Instant\<close> is outside the model. The record \<open>run_env\<close>
  holds what the loop observes of its surroundings: when the token is cancelled, how late the task is
  polled after it was woken for its i-th iteration, how long the i-th import takes (\<open>None\<close> when it never
  finishes), the text of a join error, and tokio's rule for the tick after the current one, whose
  documented behaviour for each \<open>MissedTickBehavior\<close> is the locale \<open>tokio_interval\<close>.

  \<open>run\<close> may go on for ever, so its loop is a \<open>partial_function\<close> in the option type: \<open>None\<close> means that
  it does not return. The states at the head of the loop are the inductive predicate \<open>run_reaches\<close>.
\<close>

section \<open>One import\<close>

record ('s, 'r) importer =
  source :: 's
  repo :: 'r

definition importer_new :: "'s \<Rightarrow> 'r \<Rightarrow> ('s, 'r) importer" where
  "importer_new s r = \<lparr>source = s, repo = r\<rparr>"

record import_outcome =
  imported :: nat

datatype import_error =
    SourceFailed source_error
  | StorageFailed storage_error
  | EmptySource
  | Panicked string

definition run_once ::
  "('s \<Rightarrow> (source_error + 'dt node list) outcome \<times> 's)
     \<Rightarrow> ('dt node list \<Rightarrow> 'r \<Rightarrow> (storage_error + nat) outcome \<times> 'r)
     \<Rightarrow> ('s, 'r) importer \<Rightarrow> (import_error + import_outcome) outcome \<times> ('s, 'r) importer" where
  "run_once fetch replace self =
     (case fetch (source self) of
        (Panic m, s') \<Rightarrow> (Panic m, self\<lparr>source := s'\<rparr>)
      | (Returned (Inl e), s') \<Rightarrow> (Returned (Err (SourceFailed e)), self\<lparr>source := s'\<rparr>)
      | (Returned (Inr nodes), s') \<Rightarrow>
          if nodes = [] then (Returned (Err EmptySource), self\<lparr>source := s'\<rparr>)
          else
            (case replace nodes (repo self) of
               (Panic m, r') \<Rightarrow> (Panic m, \<lparr>source = s', repo = r'\<rparr>)
             | (Returned (Inl e), r') \<Rightarrow> (Returned (Err (StorageFailed e)), \<lparr>source = s', repo = r'\<rparr>)
             | (Returned (Inr k), r') \<Rightarrow> (Returned (Ok \<lparr>imported = k\<rparr>), \<lparr>source = s', repo = r'\<rparr>)))"

section \<open>The loop\<close>

datatype level = Info | Warn | Error

datatype importer_event =
    Started nanos
  | Succeeded nat nanos
  | Failed level import_error nanos
  | Stopped

fun log_result :: "import_error + import_outcome \<Rightarrow> nanos \<Rightarrow> importer_event" where
  "log_result (Inr out) elapsed = Succeeded (imported out) elapsed"
| "log_result (Inl (SourceFailed e)) elapsed = Failed Warn (SourceFailed e) elapsed"
| "log_result (Inl EmptySource) elapsed = Failed Warn EmptySource elapsed"
| "log_result (Inl (StorageFailed e)) elapsed = Failed Error (StorageFailed e) elapsed"
| "log_result (Inl (Panicked m)) elapsed = Failed Error (Panicked m) elapsed"

datatype missed_tick_behavior = Burst | Delay | Skip

record run_env =
  next_tick :: "missed_tick_behavior \<Rightarrow> nanos \<Rightarrow> nanos \<Rightarrow> nanos \<Rightarrow> nanos"
  join_error :: "string \<Rightarrow> string"
  cancelled_at :: "nanos option"
  lag :: "nat \<Rightarrow> nanos"
  took :: "nat \<Rightarrow> nanos option"

text \<open>Besides the ticker (\<open>deadline\<close> and \<open>missed_tick\<close>) and the importer, a state of the loop records the
  moment it has reached, the starts and durations of the imports so far, and what was logged.\<close>

record ('s, 'r) run_state =
  importer :: "('s, 'r) importer"
  clock :: nanos
  deadline :: nanos
  missed_tick :: missed_tick_behavior
  iteration :: nat
  import_times :: "(nanos \<times> nanos) list"
  events :: "importer_event list"

text \<open>The \<open>select!\<close> wakes at the cancellation or at the tick, whichever comes first, and is polled a little
  later; being biased, it then looks at the token first. A token that is not cancelled by then leaves
  the tick as the reason of the wake-up.\<close>

definition select_time :: "run_env \<Rightarrow> ('s, 'r) run_state \<Rightarrow> nanos" where
  "select_time E st =
     max (clock st) (case cancelled_at E of None \<Rightarrow> deadline st | Some c \<Rightarrow> min c (deadline st))
       + lag E (iteration st)"

definition select_cancelled :: "run_env \<Rightarrow> ('s, 'r) run_state \<Rightarrow> bool" where
  "select_cancelled E st \<longleftrightarrow> (case cancelled_at E of None \<Rightarrow> False | Some c \<Rightarrow> c \<le> select_time E st)"

text \<open>Awaiting the spawned task: its result, or a join error when it panicked.\<close>

fun join_result :: "run_env \<Rightarrow> (import_error + import_outcome) outcome \<Rightarrow> import_error + import_outcome" where
  "join_result E (Returned result) = result"
| "join_result E (Panic m) = Err (Panicked (join_error E m))"

text \<open>One turn of the loop: it breaks, it hangs in an import that never finishes, or it goes on.\<close>

datatype ('s, 'r) turn = Break "('s, 'r) run_state" | Hung | Next "('s, 'r) run_state"

definition loop_step ::
  "run_env \<Rightarrow> ('s \<Rightarrow> (source_error + 'dt node list) outcome \<times> 's)
     \<Rightarrow> ('dt node list \<Rightarrow> 'r \<Rightarrow> (storage_error + nat) outcome \<times> 'r)
     \<Rightarrow> nanos \<Rightarrow> ('s, 'r) run_state \<Rightarrow> ('s, 'r) turn" where
  "loop_step E fetch replace interval st =
     (if select_cancelled E st then Break (st\<lparr>clock := select_time E st\<rparr>)
      else
        (let started = select_time E st
         in case took E (iteration st) of
              None \<Rightarrow> Hung
            | Some elapsed \<Rightarrow>
                (case run_once fetch replace (importer st) of
                   (x, importer') \<Rightarrow> Next
                     \<lparr>importer = importer', clock = started + elapsed,
                      deadline = next_tick E (missed_tick st) (deadline st) started interval,
                      missed_tick = missed_tick st, iteration = Suc (iteration st),
                      import_times = import_times st @ [(started, elapsed)],
                      events = events st @ [log_result (join_result E x) elapsed]\<rparr>)))"

partial_function (option) run_loop ::
  "run_env \<Rightarrow> ('s \<Rightarrow> (source_error + 'dt node list) outcome \<times> 's)
     \<Rightarrow> ('dt node list \<Rightarrow> 'r \<Rightarrow> (storage_error + nat) outcome \<times> 'r)
     \<Rightarrow> nanos \<Rightarrow> ('s, 'r) run_state \<Rightarrow> ('s, 'r) run_state option" where
  "run_loop E fetch replace interval st =
     (case loop_step E fetch replace interval st of
        Break st' \<Rightarrow> Some st'
      | Hung \<Rightarrow> None
      | Next st' \<Rightarrow> run_loop E fetch replace interval st')"

text \<open>The first tick of an interval is due at once, and ticks that are missed delay the following ones; an
  interval of zero panics.\<close>

definition run_start :: "('s, 'r) importer \<Rightarrow> nanos \<Rightarrow> nanos \<Rightarrow> ('s, 'r) run_state" where
  "run_start self interval t =
     \<lparr>importer = self, clock = t, deadline = t, missed_tick = Delay, iteration = 0, import_times = [],
      events = [Started interval]\<rparr>"

definition importer_run ::
  "run_env \<Rightarrow> ('s \<Rightarrow> (source_error + 'dt node list) outcome \<times> 's)
     \<Rightarrow> ('dt node list \<Rightarrow> 'r \<Rightarrow> (storage_error + nat) outcome \<times> 'r)
     \<Rightarrow> ('s, 'r) importer \<Rightarrow> nanos \<Rightarrow> nanos \<Rightarrow> ('s, 'r) run_state outcome option" where
  "importer_run E fetch replace self interval t =
     (if interval = 0 then Some (Panic ''`period` must be non-zero.'')
      else map_option (\<lambda>st. Returned (st\<lparr>events := events st @ [Stopped]\<rparr>))
             (run_loop E fetch replace interval (run_start self interval t)))"

section \<open>The states at the head of the loop\<close>

inductive run_reaches ::
  "run_env \<Rightarrow> ('s \<Rightarrow> (source_error + 'dt node list) outcome \<times> 's)
     \<Rightarrow> ('dt node list \<Rightarrow> 'r \<Rightarrow> (storage_error + nat) outcome \<times> 'r)
     \<Rightarrow> nanos \<Rightarrow> ('s, 'r) run_state \<Rightarrow> ('s, 'r) run_state \<Rightarrow> bool"
  for E fetch replace interval st0 where
  here: "run_reaches E fetch replace interval st0 st0"
| turn: "run_reaches E fetch replace interval st0 st
     \<Longrightarrow> loop_step E fetch replace interval st = Next st'
     \<Longrightarrow> run_reaches E fetch replace interval st0 st'"

lemma run_reaches_trans:
  assumes "run_reaches E fetch replace interval st1 st2" and "run_reaches E fetch replace interval st0 st1"
  shows "run_reaches E fetch replace interval st0 st2"
  using assms by (induction rule: run_reaches.induct) (auto intro: run_reaches.intros)

lemma run_reaches_first:
  "loop_step E fetch replace interval st0 = Next st1 \<Longrightarrow> run_reaches E fetch replace interval st1 st
     \<Longrightarrow> run_reaches E fetch replace interval st0 st"
  by (meson run_reaches.intros run_reaches_trans)

lemma run_loop_final:
  assumes "run_loop E fetch replace interval st0 = Some st"
  shows "\<exists>st'. run_reaches E fetch replace interval st0 st' \<and> loop_step E fetch replace interval st' = Break st"
proof (rule run_loop.raw_induct [OF _ assms], goal_cases)
  case (1 loop E fetch replace interval st0 st)
  show ?case
  proof (cases "loop_step E fetch replace interval st0")
    case (Break st')
    with 1(2) show ?thesis by (auto intro: run_reaches.here)
  next
    case Hung
    with 1(2) show ?thesis by simp
  next
    case (Next st1)
    with 1(2) have "loop E fetch replace interval st1 = Some st" by simp
    from 1(1) [OF this] Next show ?thesis by (auto intro: run_reaches_first)
  qed
qed

section \<open>The tick rule of tokio\<close>

text \<open>The documented rule for the tick after one that was due at \<open>t\<close> and served at \<open>served\<close>: served at most
  \<open>slack\<close> late it is on time, and the next tick is due a period after it; a missed tick is followed by
  one that is due a period after the due time (\<open>Burst\<close>), a period after the moment of service (\<open>Delay\<close>), or
  at the next multiple of the period (\<open>Skip\<close>).\<close>

locale tokio_interval =
  fixes next_tick :: "missed_tick_behavior \<Rightarrow> nanos \<Rightarrow> nanos \<Rightarrow> nanos \<Rightarrow> nanos" and slack :: nanos
  assumes on_time: "t \<le> served \<Longrightarrow> served \<le> t + slack \<Longrightarrow> next_tick b t served p = t + p"
    and missed_burst: "t + slack < served \<Longrightarrow> next_tick Burst t served p = t + p"
    and missed_delay: "t + slack < served \<Longrightarrow> next_tick Delay t served p = served + p"
    and missed_skip: "t + slack < served \<Longrightarrow> next_tick Skip t served p = served + p - (served - t) mod p"
begin

lemma not_early:
  assumes "t \<le> served"
  shows "t + p \<le> next_tick b t served p"
proof (cases "served \<le> t + slack")
  case False
  have "t + p + (served - t) mod p \<le> served + p" using mod_less_eq_dividend [of "served - t" p] assms by linarith
  then have "t + p \<le> served + p - (served - t) mod p" by linarith
  with False show ?thesis using missed_burst [of t served p] missed_delay [of t served p] missed_skip [of t served p]
    by (cases b) auto
qed (use on_time [OF assms] in simp)

lemma delay_bounds:
  assumes "t \<le> served"
  shows "served + p \<le> next_tick Delay t served p + slack" and "next_tick Delay t served p \<le> served + p"
  using on_time [OF assms, of Delay p] missed_delay [of t served p] assms by (cases "served \<le> t + slack"; simp)+

end

definition tokio_next :: "missed_tick_behavior \<Rightarrow> nanos \<Rightarrow> nanos \<Rightarrow> nanos \<Rightarrow> nanos" where
  "tokio_next b t served p =
     (if t + 5000000 < served then
        (case b of Burst \<Rightarrow> t + p | Delay \<Rightarrow> served + p | Skip \<Rightarrow> served + p - (served - t) mod p)
      else t + p)"

interpretation tokio: tokio_interval tokio_next 5000000
  by unfold_locales (auto simp: tokio_next_def)

section \<open>The ways an import ends\<close>

fun storing_result :: "(storage_error + nat) outcome \<Rightarrow> (import_error + import_outcome) outcome" where
  "storing_result (Panic m) = Panic m"
| "storing_result (Returned (Inl e)) = Returned (Err (StorageFailed e))"
| "storing_result (Returned (Inr k)) = Returned (Ok \<lparr>imported = k\<rparr>)"

lemma storing_result_Ok [simp]:
  "storing_result y = Returned (Ok out) \<longleftrightarrow> y = Returned (Ok (imported out))"
  by (cases y rule: storing_result.cases) auto

lemma run_once_cases:
  assumes "run_once fetch replace self = (x, self')"
  obtains
    (fetch_only) y where "fetch (source self) = (y, source self')" and "\<nexists>n ns. y = Returned (Ok (n # ns))"
      and "repo self' = repo self" and "\<nexists>out. x = Returned (Ok out)"
  | (replaced) ns y where "fetch (source self) = (Returned (Ok ns), source self')" and "ns \<noteq> []"
      and "replace ns (repo self) = (y, repo self')" and "x = storing_result y"
proof (cases "fetch (source self)")
  case (Pair f s')
  show thesis
  proof (cases "\<exists>n ns. f = Returned (Ok (n # ns))")
    case True
    then obtain ns where f: "f = Returned (Ok ns)" "ns \<noteq> []" by blast
    obtain y r' where r: "replace ns (repo self) = (y, r')" by fastforce
    with assms Pair f show thesis
      by (intro replaced [of ns y]) (cases y rule: storing_result.cases; auto simp: run_once_def)+
  next
    case False
    with assms Pair show thesis
      by (intro fetch_only [of f])
        (auto simp: run_once_def neq_Nil_conv split: outcome.splits sum.splits if_splits)
  qed
qed

section \<open>Importing between the two contracts\<close>

locale import_pair =
  node_source fetch good src_inv + node_repository replace list_all content keep inv
  for fetch :: "'s \<Rightarrow> (source_error + 'dt node list) outcome \<times> 's" and good src_inv
    and replace :: "'dt node list \<Rightarrow> 'r \<Rightarrow> (storage_error + nat) outcome \<times> 'r"
    and list_all content keep inv
begin

definition sound :: "('s, 'r) importer \<Rightarrow> bool" where
  "sound self \<longleftrightarrow> src_inv (source self) \<and> inv (repo self)"

text \<open>What one import may do to the snapshot, whatever it reports.\<close>

lemma run_once_effect:
  assumes "sound self" and "run_once fetch replace self = (x, self')"
  shows "sound self' \<and> (content (repo self') = content (repo self) \<or>
      (\<exists>ns s'. fetch (source self) = (Returned (Ok ns), s') \<and> ns \<noteq> [] \<and> (\<forall>n \<in> set ns. good n)
         \<and> content (repo self') = map keep ns))"
  using assms(2)
proof (cases rule: run_once_cases)
  case (fetch_only y)
  with assms(1) fetch_inv show ?thesis by (auto simp: sound_def)
next
  case (replaced ns y)
  with assms(1) fetch_inv fetch_wf [OF _ replaced(1)] replace_inv replace_all_or_nothing [OF _ replaced(3)]
  show ?thesis by (auto simp: sound_def)
qed

lemma run_once_success:
  assumes "sound self" and "run_once fetch replace self = (Returned (Ok out), self')"
  shows "\<exists>ns s'. fetch (source self) = (Returned (Ok ns), s') \<and> ns \<noteq> [] \<and> (\<forall>n \<in> set ns. good n)
     \<and> imported out = length ns \<and> content (repo self') = map keep ns"
  using assms(2)
proof (cases rule: run_once_cases)
  case (replaced ns y)
  then have "y = Returned (Ok (imported out))" by (metis storing_result_Ok)
  with replaced assms(1) fetch_wf [OF _ replaced(1)] replace_ok show ?thesis by (auto simp: sound_def)
qed auto

text \<open>Without a success the snapshot stays, unless the repository was called and failed or panicked; then it
  may hold the complete new list.\<close>

lemma run_once_failure:
  assumes "sound self" and "run_once fetch replace self = (x, self')" and no: "\<nexists>out. x = Returned (Ok out)"
  shows "content (repo self') = content (repo self) \<or>
    ((\<exists>e. x = Returned (Err (StorageFailed e))) \<or> (\<exists>m. x = Panic m)) \<and>
    (\<exists>ns s'. fetch (source self) = (Returned (Ok ns), s') \<and> ns \<noteq> [] \<and> (\<forall>n \<in> set ns. good n)
       \<and> content (repo self') = map keep ns)"
  using assms(2)
proof (cases rule: run_once_cases)
  case (replaced ns y)
  with no have "(\<exists>e. x = Returned (Err (StorageFailed e))) \<or> (\<exists>m. x = Panic m)"
    by (cases y rule: storing_result.cases) auto
  with run_once_effect [OF assms(1,2)] show ?thesis by blast
qed simp

lemma loop_step_sound:
  assumes "sound (importer st)" and "loop_step E fetch replace interval st = Next st'"
  shows "sound (importer st')"
  using assms run_once_effect [OF assms(1)]
  by (auto simp: loop_step_def Let_def split: if_splits prod.splits option.splits)

lemma reach_sound:
  assumes "run_reaches E fetch replace interval st0 st" and "sound (importer st0)"
  shows "sound (importer st)"
  using assms by (induction rule: run_reaches.induct) (auto intro: loop_step_sound)

end

locale strict_import_pair =
  import_pair fetch good src_inv replace list_all content keep inv +
  strict_repository replace list_all content keep inv
  for fetch :: "'s \<Rightarrow> (source_error + 'dt node list) outcome \<times> 's" and good src_inv
    and replace :: "'dt node list \<Rightarrow> 'r \<Rightarrow> (storage_error + nat) outcome \<times> 'r"
    and list_all content keep inv
begin

lemma run_once_not_ok:
  assumes "sound self" and "run_once fetch replace self = (x, self')" and no: "\<nexists>out. x = Returned (Ok out)"
  shows "content (repo self') = content (repo self)"
  using assms(2)
proof (cases rule: run_once_cases)
  case (replaced ns y)
  with no have "\<nexists>k. y = Returned (Ok k)" by (auto simp del: storing_result_Ok)
  with replaced assms(1) replace_not_ok show ?thesis by (auto simp: sound_def)
qed simp

end

interpretation fake_import: strict_import_pair fake_fetch_nodes good "script_wf good"
  fake_replace_all fake_list_nodes fake_nodes id "\<lambda>_. True" for good
  by unfold_locales

sublocale chrono_api \<subseteq> mempool_pg: import_pair
  "fetch_nodes C R from_slice client" "valid_node C" "\<lambda>_. True" "pg_replace P E" "pg_list fault"
  snapshot "stored P" pg_inv
  for R :: "('client, 'url, 'w) reqwest" and from_slice client P E fault
  by unfold_locales

sublocale chrono_api \<subseteq> mempool_pg_strict: strict_import_pair
  "fetch_nodes C R from_slice client" "valid_node C" "\<lambda>_. True"
  "pg_replace P (\<lambda>db. acknowledged (E db))" "pg_list fault" snapshot "stored P" pg_inv
  for R :: "('client, 'url, 'w) reqwest" and from_slice client P E fault
  by unfold_locales

section \<open>One turn of the loop\<close>

text \<open>When the import of the coming turn starts, unless the token is cancelled before.\<close>

definition tick_time :: "run_env \<Rightarrow> ('s, 'r) run_state \<Rightarrow> nanos" where
  "tick_time E st = max (clock st) (deadline st) + lag E (iteration st)"

lemma select_time_tick: "\<not> select_cancelled E st \<Longrightarrow> select_time E st = tick_time E st"
  by (auto simp: select_cancelled_def select_time_def tick_time_def split: option.splits)

lemma tick_time_before: "\<not> select_cancelled E st \<Longrightarrow> cancelled_at E = Some c \<Longrightarrow> tick_time E st < c"
  using select_time_tick [of E st] by (simp add: select_cancelled_def)

lemma loop_step_Next:
  assumes "loop_step E fetch replace interval st = Next st'"
  obtains x d where "run_once fetch replace (importer st) = (x, importer st')"
    and "\<not> select_cancelled E st" and "took E (iteration st) = Some d"
    and "clock st' = tick_time E st + d"
    and "deadline st' = next_tick E (missed_tick st) (deadline st) (tick_time E st) interval"
    and "missed_tick st' = missed_tick st" and "iteration st' = Suc (iteration st)"
    and "import_times st' = import_times st @ [(tick_time E st, d)]"
    and "events st' = events st @ [log_result (join_result E x) d]"
  using assms
  by (auto simp: loop_step_def Let_def select_time_tick split: if_splits prod.splits option.splits)

lemma loop_step_Break:
  "loop_step E fetch replace interval st = Break st' \<longleftrightarrow>
     select_cancelled E st \<and> st' = st\<lparr>clock := select_time E st\<rparr>"
  by (auto simp: loop_step_def Let_def split: prod.splits option.splits)

lemma loop_step_Hung:
  "loop_step E fetch replace interval st = Hung \<longleftrightarrow> \<not> select_cancelled E st \<and> took E (iteration st) = None"
  by (auto simp: loop_step_def Let_def split: prod.splits option.splits)

lemma loop_step_next:
  assumes "\<not> select_cancelled E st" and "took E (iteration st) = Some d"
  shows "\<exists>st'. loop_step E fetch replace interval st = Next st'"
  using assms by (auto simp: loop_step_def Let_def split: prod.splits)

lemma deadline_le_tick_time: "deadline st \<le> tick_time E st"
  by (simp add: tick_time_def max.coboundedI2 trans_le_add1)

fun is_success_event :: "importer_event \<Rightarrow> bool" where
  "is_success_event (Succeeded _ _) = True"
| "is_success_event _ = False"

lemma is_success_log_result:
  "is_success_event (log_result (join_result E x) d) \<longleftrightarrow> (\<exists>out. x = Returned (Ok out))"
  by (cases x; cases "join_result E x"; cases "projl (join_result E x)") (auto split: sum.splits)

text \<open>The events after which it is open whether the repository has stored the nodes.\<close>

fun is_open_event :: "importer_event \<Rightarrow> bool" where
  "is_open_event (Failed _ (StorageFailed _) _) = True"
| "is_open_event (Failed _ (Panicked _) _) = True"
| "is_open_event _ = False"

lemma is_open_log_result [simp]:
  "is_open_event (log_result (join_result E (Returned (Err (StorageFailed e)))) d)"
  "is_open_event (log_result (join_result E (Panic m)) d)"
  by simp_all

context import_pair
begin

text \<open>Where the snapshot comes from, also when a failed import may have stored its nodes: it is the one the
  loop started with, or a complete list that the source delivered.\<close>

definition delivered :: "'dt node list \<Rightarrow> bool" where
  "delivered ns \<longleftrightarrow> ns \<noteq> [] \<and> (\<forall>n \<in> set ns. good n) \<and> (\<exists>s s'. fetch s = (Returned (Ok ns), s'))"

lemma reach_origin:
  assumes "run_reaches E fetch replace interval st0 st" and "sound (importer st0)"
  shows "content (repo (importer st)) = content (repo (importer st0)) \<or>
    (\<exists>ns. delivered ns \<and> content (repo (importer st)) = map keep ns)"
  using assms(1)
proof (induction rule: run_reaches.induct)
  case (turn st st')
  obtain x where "run_once fetch replace (importer st) = (x, importer st')"
    using turn.hyps(2) by (rule loop_step_Next)
  from run_once_effect [OF reach_sound [OF turn.hyps(1) assms(2)] this] turn.IH
  show ?case unfolding delivered_def by metis
qed simp

end

context import_pair
begin

text \<open>The snapshot changes only in a turn that logs a success, and then to what the source delivered, or in
  one that logs a failure of the repository or a panic.\<close>

lemma loop_step_content:
  assumes "sound (importer st)" and "loop_step E fetch replace interval st = Next st'"
  shows "\<exists>e. events st' = events st @ [e] \<and>
    (if is_success_event e
     then \<exists>ns s'. fetch (source (importer st)) = (Returned (Ok ns), s') \<and> ns \<noteq> [] \<and> (\<forall>n \<in> set ns. good n)
       \<and> content (repo (importer st')) = map keep ns
     else content (repo (importer st')) = content (repo (importer st)) \<or> is_open_event e \<and>
       (\<exists>ns s'. fetch (source (importer st)) = (Returned (Ok ns), s') \<and> ns \<noteq> [] \<and> (\<forall>n \<in> set ns. good n)
         \<and> content (repo (importer st')) = map keep ns))"
proof -
  obtain x d where x: "run_once fetch replace (importer st) = (x, importer st')"
    and ev: "events st' = events st @ [log_result (join_result E x) d]"
    by (rule loop_step_Next [OF assms(2)])
  show ?thesis
  proof (cases "\<exists>out. x = Returned (Ok out)")
    case True
    then obtain out where "x = Returned (Ok out)" by blast
    with run_once_success [OF assms(1), of out] x show ?thesis
      by (auto simp: ev)
  next
    case False
    with run_once_failure [OF assms(1) x] show ?thesis
      by (auto simp: ev is_success_log_result simp del: log_result.simps join_result.simps)
  qed
qed

text \<open>Between such turns nothing changes.\<close>

lemma reach_content:
  assumes "run_reaches E fetch replace interval st0 st" and "sound (importer st0)"
  shows "\<exists>evs. events st = events st0 @ evs \<and> ((\<forall>e \<in> set evs. \<not> is_success_event e \<and> \<not> is_open_event e) \<longrightarrow>
    content (repo (importer st)) = content (repo (importer st0)))"
  using assms(1)
proof (induction rule: run_reaches.induct)
  case (turn st st')
  obtain e where "events st' = events st @ [e]"
    "is_success_event e \<or> is_open_event e \<or> content (repo (importer st')) = content (repo (importer st))"
    using loop_step_content [OF reach_sound [OF turn.hyps(1) assms(2)] turn.hyps(2)] by (auto split: if_splits)
  moreover obtain evs where "events st = events st0 @ evs"
    and "(\<forall>e \<in> set evs. \<not> is_success_event e \<and> \<not> is_open_event e) \<longrightarrow>
      content (repo (importer st)) = content (repo (importer st0))"
    using turn.IH by blast
  ultimately show ?case by (intro exI [of _ "evs @ [e]"]) auto
qed simp

end

context strict_import_pair
begin

text \<open>With a repository whose errors keep the snapshot, only a success changes it.\<close>

lemma loop_step_unchanged:
  assumes "sound (importer st)" and "loop_step E fetch replace interval st = Next st'"
    and "events st' = events st @ [e]" and "\<not> is_success_event e"
  shows "content (repo (importer st')) = content (repo (importer st))"
proof -
  obtain x d where x: "run_once fetch replace (importer st) = (x, importer st')"
    and "events st' = events st @ [log_result (join_result E x) d]"
    by (rule loop_step_Next [OF assms(2)])
  with assms(3,4) have "\<nexists>out. x = Returned (Ok out)" using is_success_log_result [of E x d] by auto
  then show ?thesis by (rule run_once_not_ok [OF assms(1) x])
qed

lemma reach_unchanged:
  assumes "run_reaches E fetch replace interval st0 st" and "sound (importer st0)"
    and "events st = events st0 @ evs" and "\<forall>e \<in> set evs. \<not> is_success_event e"
  shows "content (repo (importer st)) = content (repo (importer st0))"
  using assms
proof (induction arbitrary: evs rule: run_reaches.induct)
  case (turn st st')
  obtain e where e: "events st' = events st @ [e]" using turn.hyps(2) by (rule loop_step_Next) blast
  obtain evs' where "events st = events st0 @ evs'" using reach_content [OF turn.hyps(1) turn.prems(1)] by blast
  with e turn.prems(2) have "evs = evs' @ [e]" by simp
  with turn.prems(1,3) turn.IH [OF _ \<open>events st = events st0 @ evs'\<close>]
    loop_step_unchanged [OF reach_sound [OF turn.hyps(1) turn.prems(1)] turn.hyps(2) e]
  show ?case by simp
qed simp

end

section \<open>When the loop stops\<close>

lemma run_loop_stop:
  "select_cancelled E st \<Longrightarrow> run_loop E fetch replace interval st = Some (st\<lparr>clock := select_time E st\<rparr>)"
  by (simp add: run_loop.simps loop_step_def)

lemma run_loop_turn:
  "loop_step E fetch replace interval st = Next st'
     \<Longrightarrow> run_loop E fetch replace interval st = run_loop E fetch replace interval st'"
  by (simp add: run_loop.simps)

lemma run_loop_hung:
  assumes "run_reaches E fetch replace interval st0 st" and "loop_step E fetch replace interval st = Hung"
  shows "run_loop E fetch replace interval st0 = None"
proof -
  have "run_loop E fetch replace interval st0 = run_loop E fetch replace interval st"
    using assms(1) by (induction rule: run_reaches.induct) (simp_all add: run_loop_turn)
  then show ?thesis using assms(2) by (simp add: run_loop.simps [of _ _ _ _ st])
qed

lemma deadline_advances:
  assumes "tokio_interval (next_tick E) slack" and "loop_step E fetch replace interval st = Next st'"
  shows "deadline st + interval \<le> deadline st'"
  using tokio_interval.not_early [OF assms(1) deadline_le_tick_time [of st E]]
  by (auto intro: loop_step_Next [OF assms(2)])

text \<open>A cancelled loop returns, unless an import that it started never finishes.\<close>

lemma run_loop_returns_or_hangs:
  assumes "tokio_interval (next_tick E) slack" and "cancelled_at E = Some c" and "0 < interval"
  shows "(\<exists>st. run_loop E fetch replace interval st0 = Some st) \<or>
    (\<exists>st. run_reaches E fetch replace interval st0 st \<and> loop_step E fetch replace interval st = Hung)"
proof (induction "c - deadline st0" arbitrary: st0 rule: less_induct)
  case less
  show ?case
  proof (cases "loop_step E fetch replace interval st0")
    case (Break st)
    then show ?thesis by (auto simp: run_loop.simps)
  next
    case Hung
    then show ?thesis by (auto intro: run_reaches.here)
  next
    case (Next st1)
    then have "\<not> select_cancelled E st0" by (auto elim: loop_step_Next)
    with tick_time_before [OF _ assms(2)] deadline_le_tick_time [of st0 E] have "deadline st0 < c"
      by (metis le_less_trans)
    with deadline_advances [OF assms(1) Next] assms(3) have "c - deadline st1 < c - deadline st0" by simp
    from less [OF this] show ?thesis using run_loop_turn [OF Next] run_reaches_first [OF Next] by auto
  qed
qed

lemma run_loop_returns:
  assumes "tokio_interval (next_tick E) slack" and "cancelled_at E = Some c" and "0 < interval"
    and "\<forall>i. took E i \<noteq> None"
  shows "\<exists>st. run_loop E fetch replace interval st0 = Some st"
  using run_loop_returns_or_hangs [OF assms(1-3), of fetch replace st0] assms(4) by (simp add: loop_step_Hung)

lemma reach_deadline:
  assumes "run_reaches E fetch replace interval st0 st" and "tokio_interval (next_tick E) slack"
    and "iteration st0 = 0"
  shows "deadline st0 + iteration st * interval \<le> deadline st"
  using assms
proof (induction rule: run_reaches.induct)
  case (turn st st')
  from deadline_advances [OF turn.prems(1) turn.hyps(2)] turn.IH [OF turn.prems]
  show ?case using turn.hyps(2) by (auto elim!: loop_step_Next)
qed simp

lemma reach_last_turn:
  assumes "run_reaches E fetch replace interval st0 st" and "iteration st0 = 0"
  shows "iteration st = 0 \<or> (\<exists>st'. run_reaches E fetch replace interval st0 st'
    \<and> iteration st = Suc (iteration st') \<and> \<not> select_cancelled E st')"
  using assms by cases (auto elim: loop_step_Next)

lemma reach_count:
  assumes "run_reaches E fetch replace interval st0 st" and "tokio_interval (next_tick E) slack"
    and "iteration st0 = 0" and "cancelled_at E = Some c"
  shows "iteration st = 0 \<or> deadline st0 + (iteration st - 1) * interval < c"
  using reach_last_turn [OF assms(1,3)]
proof
  assume "\<exists>st'. run_reaches E fetch replace interval st0 st' \<and> iteration st = Suc (iteration st')
    \<and> \<not> select_cancelled E st'"
  then obtain st' where r: "run_reaches E fetch replace interval st0 st'"
    and n: "iteration st = Suc (iteration st')" and "\<not> select_cancelled E st'" by blast
  with tick_time_before [OF _ assms(4)] reach_deadline [OF r assms(2,3)] deadline_le_tick_time [of st' E]
  show ?thesis by fastforce
qed simp

text \<open>The imports of a run: as many as turns, each started before the cancellation, and the clock at the
  head of the loop is the start of the run or the end of one of them.\<close>

lemma reach_imports:
  assumes "run_reaches E fetch replace interval st0 st" and "import_times st0 = []" and "iteration st0 = 0"
  shows "length (import_times st) = iteration st \<and>
    (\<forall>(s, d) \<in> set (import_times st). \<forall>c. cancelled_at E = Some c \<longrightarrow> s < c) \<and>
    (clock st = clock st0 \<or> (\<exists>(s, d) \<in> set (import_times st). clock st = s + d))"
  using assms
proof (induction rule: run_reaches.induct)
  case (turn st st')
  from turn.hyps(2) show ?case
    by (rule loop_step_Next) (use turn.IH [OF turn.prems] tick_time_before in auto)
qed simp

lemma reach_every:
  assumes "cancelled_at E = None" and "iteration st0 = 0" and "\<forall>i < n. took E i \<noteq> None"
  shows "\<exists>st. run_reaches E fetch replace interval st0 st \<and> iteration st = n"
  using assms(3)
proof (induction n)
  case 0
  with assms(2) show ?case by (auto intro: run_reaches.here)
next
  case (Suc n)
  then obtain st where st: "run_reaches E fetch replace interval st0 st" "iteration st = n" by auto
  moreover obtain d where "took E (iteration st) = Some d" using Suc.prems st(2) by auto
  then obtain st' where "loop_step E fetch replace interval st = Next st'"
    using loop_step_next [of E st d fetch replace interval] assms(1) by (auto simp: select_cancelled_def)
  moreover from this have "iteration st' = Suc (iteration st)" by (auto elim: loop_step_Next)
  ultimately show ?case by (auto intro: run_reaches.turn)
qed

lemma run_start_simps [simp]:
  "importer (run_start self interval t) = self" "clock (run_start self interval t) = t"
  "deadline (run_start self interval t) = t" "iteration (run_start self interval t) = 0"
  "missed_tick (run_start self interval t) = Delay" "import_times (run_start self interval t) = []"
  "events (run_start self interval t) = [Started interval]"
  by (simp_all add: run_start_def)

section \<open>When import_times start\<close>

lemma reach_missed_tick:
  "run_reaches E fetch replace interval st0 st \<Longrightarrow> missed_tick st = missed_tick st0"
  by (induction rule: run_reaches.induct) (auto elim: loop_step_Next)

lemma tick_time_bounds:
  assumes "tokio_interval (next_tick E) slack" and "loop_step E fetch replace interval st = Next st'"
    and "missed_tick st = Delay" and "took E (iteration st) = Some d"
  shows "tick_time E st + interval \<le> tick_time E st' + slack"
    and "tick_time E st + d \<le> tick_time E st'"
    and "tick_time E st' \<le> tick_time E st + max interval d + lag E (iteration st')"
proof -
  note bounds = tokio_interval.delay_bounds [OF assms(1) deadline_le_tick_time [of st E], of interval]
  obtain "clock st' = tick_time E st + d"
    "deadline st' = next_tick E Delay (deadline st) (tick_time E st) interval"
    using assms(2) by (rule loop_step_Next) (simp add: assms(3,4))
  with bounds show "tick_time E st + interval \<le> tick_time E st' + slack"
    "tick_time E st + d \<le> tick_time E st'"
    "tick_time E st' \<le> tick_time E st + max interval d + lag E (iteration st')"
    unfolding tick_time_def [of E st'] by (simp_all add: max_def)
qed

text \<open>After an overrun the missed tick is served at once, and a full interval passes before the next one.\<close>

lemma tick_time_overrun:
  assumes "tokio_interval (next_tick E) slack" and "loop_step E fetch replace interval st = Next st'"
    and "missed_tick st = Delay" and "took E (iteration st) = Some d" and "interval + slack < d"
  shows "tick_time E st' = tick_time E st + d + lag E (iteration st')"
    and "loop_step E fetch replace interval st' = Next st'' \<Longrightarrow> tick_time E st' + interval \<le> tick_time E st''"
proof -
  have late: "next_tick E Delay (deadline st) (tick_time E st) interval \<le> tick_time E st + interval"
    by (rule tokio_interval.delay_bounds(2) [OF assms(1) deadline_le_tick_time])
  obtain st': "clock st' = tick_time E st + d" "missed_tick st' = Delay"
    "deadline st' = next_tick E Delay (deadline st) (tick_time E st) interval"
    using assms(2) by (rule loop_step_Next) (simp add: assms(3,4))
  with late assms(5) show tick: "tick_time E st' = tick_time E st + d + lag E (iteration st')"
    by (simp add: tick_time_def [of E st'] max_def)
  have "deadline st' + slack < tick_time E st'" using tick st'(3) late assms(5) by simp
  note missed = tokio_interval.missed_delay [OF assms(1) this, of interval]
  show "tick_time E st' + interval \<le> tick_time E st''" if "loop_step E fetch replace interval st' = Next st''"
    using that by (rule loop_step_Next) (simp add: st'(2) missed tick_time_def [of E st''])
qed

lemma reach_schedule:
  assumes "run_reaches E fetch replace interval st0 st" and "tokio_interval (next_tick E) slack"
    and "\<And>i. lag E i = 0" and "\<And>i d. took E i = Some d \<Longrightarrow> d \<le> interval"
    and "iteration st0 = 0" and "clock st0 = deadline st0"
  shows "deadline st = deadline st0 + iteration st * interval \<and> clock st \<le> deadline st"
  using assms(1)
proof (induction rule: run_reaches.induct)
  case (turn st st')
  then have tick: "tick_time E st = deadline st" by (simp add: tick_time_def assms(3))
  from turn.hyps(2) obtain d where "took E (iteration st) = Some d" "clock st' = deadline st + d"
    "deadline st' = deadline st + interval" "iteration st' = Suc (iteration st)"
    by (rule loop_step_Next) (simp add: tick tokio_interval.on_time [OF assms(2)])
  with turn.IH assms(4) show ?case by fastforce
qed (simp add: assms(5,6))

section \<open>Properties of the importer\<close>

text \<open>The concrete surroundings of the witnesses: the fake source and repository, imports that take two
  seconds, tokio's tick rule, and a token cancelled after three minutes.\<close>

definition test_env :: run_env where
  "test_env = \<lparr>next_tick = tokio_next, join_error = (\<lambda>m. ''task panicked: '' @ m),
     cancelled_at = Some 180000000000, lag = (\<lambda>_. 0), took = (\<lambda>_. Some 2000000000)\<rparr>"

definition old_node :: "int node" where
  "old_node = \<lparr>public_key = ''old'', node_alias = ''Old'', capacity_sats = 1, first_seen = 0\<rparr>"

definition new_node :: "int node" where
  "new_node = \<lparr>public_key = ''a'', node_alias = ''A'', capacity_sats = 1, first_seen = 0\<rparr>"

definition test_importer :: "int step list \<Rightarrow> (int fake_source, int fake_repository) importer" where
  "test_importer steps = importer_new (fake_source_new steps) (with_nodes [old_node])"

lemma fake_pair: "import_pair fake_fetch_nodes (\<lambda>_. True) (script_wf (\<lambda>_. True))
    fake_replace_all fake_list_nodes fake_nodes id (\<lambda>_. True)"
  by (rule fake_import.import_pair_axioms)

lemma fake_strict: "strict_import_pair fake_fetch_nodes (\<lambda>_. True) (script_wf (\<lambda>_. True))
    fake_replace_all fake_list_nodes fake_nodes id (\<lambda>_. True)"
  by (rule fake_import.strict_import_pair_axioms)

text \<open>
  C7. One import, with any source and any repository that keep their contracts, where an error of the
  repository may come after it has stored the nodes: if the import succeeds, the source delivered a
  non-empty list of valid nodes, the stored snapshot is exactly that list, and the reported count is its
  length. Otherwise the snapshot is the previous one, or, only when the repository was called and failed
  or panicked, the complete delivered list; if the errors of the repository keep the snapshot, it is the
  previous one. Unless the source delivered at least one node the repository is not even called.
\<close>

theorem run_once_correct:
  assumes "import_pair fetch good src_inv replace list_nodes_op content keep repo_inv"
    and "src_inv (source self)" and "repo_inv (repo self)"
    and "run_once fetch replace self = (x, self')"
  shows "(if \<exists>out. x = Returned (Ok out)
     then \<exists>ns s'. fetch (source self) = (Returned (Ok ns), s') \<and> ns \<noteq> [] \<and> (\<forall>n \<in> set ns. good n)
       \<and> x = Returned (Ok \<lparr>imported = length ns\<rparr>) \<and> content (repo self') = map keep ns
     else content (repo self') = content (repo self) \<or>
       ((\<exists>e. x = Returned (Err (StorageFailed e))) \<or> (\<exists>m. x = Panic m)) \<and>
       (\<exists>ns s'. fetch (source self) = (Returned (Ok ns), s') \<and> ns \<noteq> [] \<and> (\<forall>n \<in> set ns. good n)
         \<and> content (repo self') = map keep ns)) \<and>
    (strict_repository replace list_nodes_op content keep repo_inv \<and> (\<nexists>out. x = Returned (Ok out)) \<longrightarrow>
       content (repo self') = content (repo self)) \<and>
    ((\<nexists>n ns. fst (fetch (source self)) = Returned (Ok (n # ns))) \<longrightarrow> repo self' = repo self)"
proof (intro conjI impI)
  from assms(1-3) have sound: "import_pair.sound src_inv repo_inv self"
    by (simp add: import_pair.sound_def)
  show "if \<exists>out. x = Returned (Ok out)
     then \<exists>ns s'. fetch (source self) = (Returned (Ok ns), s') \<and> ns \<noteq> [] \<and> (\<forall>n \<in> set ns. good n)
       \<and> x = Returned (Ok \<lparr>imported = length ns\<rparr>) \<and> content (repo self') = map keep ns
     else content (repo self') = content (repo self) \<or>
       ((\<exists>e. x = Returned (Err (StorageFailed e))) \<or> (\<exists>m. x = Panic m)) \<and>
       (\<exists>ns s'. fetch (source self) = (Returned (Ok ns), s') \<and> ns \<noteq> [] \<and> (\<forall>n \<in> set ns. good n)
         \<and> content (repo self') = map keep ns)"
    using import_pair.run_once_success [OF assms(1) sound] assms(4)
      import_pair.run_once_failure [OF assms(1) sound assms(4)] by fastforce
  show "content (repo self') = content (repo self)"
    if "strict_repository replace list_nodes_op content keep repo_inv \<and> (\<nexists>out. x = Returned (Ok out))"
    using strict_import_pair.run_once_not_ok [OF strict_import_pair.intro [OF assms(1)] sound assms(4)] that
    by blast
  show "repo self' = repo self" if "\<nexists>n ns. fst (fetch (source self)) = Returned (Ok (n # ns))"
    using assms(4) that by (cases rule: run_once_cases) (auto simp: neq_Nil_conv)
qed

lemma run_once_correct_witness:
  "fake_nodes (repo (snd (run_once fake_fetch_nodes fake_replace_all (test_importer [Nodes [new_node]]))))
     = [new_node]"
proof -
  let ?self = "test_importer [Nodes [new_node]]"
  let ?r = "run_once fake_fetch_nodes fake_replace_all ?self"
  have r: "?r = (Returned (Ok \<lparr>imported = 1\<rparr>), snd ?r)"
    by (simp add: run_once_def fake_fetch_nodes_def fake_replace_all_def test_importer_def importer_new_def
        fake_source_new_def with_nodes_def fake_default_def)
  have "fst (fake_fetch_nodes (source ?self)) = Returned (Ok [new_node])"
    by (simp add: fake_fetch_nodes_def test_importer_def importer_new_def fake_source_new_def)
  moreover have "script_wf (\<lambda>_. True) (source ?self)" by (simp add: script_wf_def)
  ultimately show ?thesis
    using run_once_correct [OF fake_pair _ TrueI r] by (auto simp del: split_paired_Ex)
qed

text \<open>
  C8. No failure stops the loop and none loses data, with any source and repository that keep their
  contracts: an uncancelled loop whose import finishes performs its turn whatever that import does, a
  panic included. A turn that logs a success has installed what the source delivered; one that logs a
  failure of the repository or a panic has left the snapshot or installed all that the source
  delivered; any other leaves the snapshot. So whenever no success, repository failure or panic has
  been logged since an earlier turn, the snapshot is the one of that turn. If the errors of the
  repository keep the snapshot, it is at any time that of the last import logged as a success.
\<close>

theorem importer_keeps_last_success:
  assumes "import_pair fetch good src_inv replace list_nodes_op content keep repo_inv"
    and "src_inv (source (importer st0))" and "repo_inv (repo (importer st0))"
    and "run_reaches E fetch replace interval st0 st" and "\<not> select_cancelled E st"
    and "took E (iteration st) = Some d"
  shows "(\<exists>evs. events st = events st0 @ evs \<and>
      ((\<forall>e \<in> set evs. \<not> is_success_event e \<and> \<not> is_open_event e) \<longrightarrow>
         content (repo (importer st)) = content (repo (importer st0))) \<and>
      (strict_repository replace list_nodes_op content keep repo_inv \<and> (\<forall>e \<in> set evs. \<not> is_success_event e) \<longrightarrow>
         content (repo (importer st)) = content (repo (importer st0)))) \<and>
    (\<exists>st' e. loop_step E fetch replace interval st = Next st' \<and> events st' = events st @ [e] \<and>
      (if is_success_event e
       then \<exists>ns s'. fetch (source (importer st)) = (Returned (Ok ns), s') \<and> ns \<noteq> []
         \<and> (\<forall>n \<in> set ns. good n) \<and> content (repo (importer st')) = map keep ns
       else content (repo (importer st')) = content (repo (importer st)) \<or> is_open_event e \<and>
         (\<exists>ns s'. fetch (source (importer st)) = (Returned (Ok ns), s') \<and> ns \<noteq> [] \<and> (\<forall>n \<in> set ns. good n)
           \<and> content (repo (importer st')) = map keep ns)))"
proof (rule conjI)
  from assms(1-3) have sound: "import_pair.sound src_inv repo_inv (importer st0)"
    by (simp add: import_pair.sound_def)
  from import_pair.reach_content [OF assms(1,4) sound]
  show "\<exists>evs. events st = events st0 @ evs \<and>
      ((\<forall>e \<in> set evs. \<not> is_success_event e \<and> \<not> is_open_event e) \<longrightarrow>
         content (repo (importer st)) = content (repo (importer st0))) \<and>
      (strict_repository replace list_nodes_op content keep repo_inv \<and> (\<forall>e \<in> set evs. \<not> is_success_event e) \<longrightarrow>
         content (repo (importer st)) = content (repo (importer st0)))"
    using strict_import_pair.reach_unchanged [OF strict_import_pair.intro [OF assms(1)] assms(4) sound] by meson
  obtain st' where st': "loop_step E fetch replace interval st = Next st'"
    using loop_step_next [OF assms(5,6)] by blast
  from import_pair.loop_step_content [OF assms(1) import_pair.reach_sound [OF assms(1,4) sound] st'] st'
  show "\<exists>st' e. loop_step E fetch replace interval st = Next st' \<and> events st' = events st @ [e] \<and>
      (if is_success_event e
       then \<exists>ns s'. fetch (source (importer st)) = (Returned (Ok ns), s') \<and> ns \<noteq> []
         \<and> (\<forall>n \<in> set ns. good n) \<and> content (repo (importer st')) = map keep ns
       else content (repo (importer st')) = content (repo (importer st)) \<or> is_open_event e \<and>
         (\<exists>ns s'. fetch (source (importer st)) = (Returned (Ok ns), s') \<and> ns \<noteq> [] \<and> (\<forall>n \<in> set ns. good n)
           \<and> content (repo (importer st')) = map keep ns))"
    by blast
qed

lemma importer_keeps_last_success_witness:
  "\<exists>st. loop_step test_env fake_fetch_nodes fake_replace_all 60000000000
       (run_start (test_importer [PanicStep]) 60000000000 0) = Next st \<and>
     fake_nodes (repo (importer st)) = [old_node]"
proof -
  let ?st0 = "run_start (test_importer [PanicStep]) 60000000000 0"
  have "\<not> select_cancelled test_env ?st0"
    by (simp add: select_cancelled_def test_env_def select_time_def)
  moreover have "script_wf (\<lambda>_. True) (source (importer ?st0))" by (simp add: script_wf_def)
  moreover have "took test_env (iteration ?st0) = Some 2000000000" by (simp add: test_env_def)
  moreover have "fst (fake_fetch_nodes (source (importer ?st0))) = Panic ''scripted panic in FakeSource''"
    by (simp add: fake_fetch_nodes_def test_importer_def importer_new_def fake_source_new_def)
  then have "fake_fetch_nodes (source (importer ?st0)) \<noteq> (Returned (Ok ns), s')" for ns s' by auto
  ultimately obtain st' where
    "loop_step test_env fake_fetch_nodes fake_replace_all 60000000000 ?st0 = Next st'"
    and "fake_nodes (repo (importer st')) = fake_nodes (repo (importer ?st0))"
    using importer_keeps_last_success [OF fake_pair _ TrueI run_reaches.here, of ?st0 test_env 2000000000 60000000000]
    by (auto split: if_splits)
  then show ?thesis by (simp add: test_importer_def importer_new_def with_nodes_def)
qed

text \<open>
  C22. Shutdown: a loop with a positive interval whose token is cancelled at time \<open>c\<close>, and whose imports
  finish, returns. Every import it has performed was started strictly before \<open>c\<close>, so that shutdown wins
  over a tick that is ready, and at most one import per interval fits before \<open>c\<close>. It returns after \<open>c\<close> and
  promptly: no later than the cancellation and the end of an import under way, whichever is later, plus
  the delay of the scheduler, and so without waiting for the next tick. With a token cancelled at the
  start there is no import.
\<close>

theorem importer_run_stops:
  assumes "tokio_interval (next_tick E) slack" and "0 < interval" and "cancelled_at E = Some c"
    and "\<forall>i. took E i \<noteq> None"
  shows "\<exists>st. importer_run E fetch replace self interval t = Some (Returned st)
    \<and> last (events st) = Stopped \<and> length (import_times st) = iteration st
    \<and> (\<forall>(s, d) \<in> set (import_times st). s < c)
    \<and> (iteration st = 0 \<or> t + (iteration st - 1) * interval < c)
    \<and> c \<le> clock st
    \<and> (\<forall>b. t \<le> b \<and> c \<le> b \<and> (\<forall>(s, d) \<in> set (import_times st). s + d \<le> b) \<longrightarrow> clock st \<le> b + lag E (iteration st))
    \<and> (c \<le> t \<longrightarrow> iteration st = 0 \<and> importer st = self)"
proof -
  let ?st0 = "run_start self interval t"
  obtain st where st: "run_loop E fetch replace interval ?st0 = Some st"
    using run_loop_returns [OF assms(1,3,2,4), of fetch replace ?st0] by blast
  then obtain st' where r: "run_reaches E fetch replace interval ?st0 st'"
    and "loop_step E fetch replace interval st' = Break st" by (blast dest: run_loop_final)
  then have b: "select_cancelled E st'" "st = st'\<lparr>clock := select_time E st'\<rparr>" by (simp_all add: loop_step_Break)
  have "c \<le> clock st" using b assms(3) by (simp add: select_cancelled_def)
  moreover have "clock st \<le> b + lag E (iteration st)"
    if "t \<le> b" "c \<le> b" "\<forall>(s, d) \<in> set (import_times st). s + d \<le> b" for b
    using reach_imports [OF r] that by (auto simp: b(2) select_time_def assms(3))
  moreover have "iteration st = 0 \<and> importer st = self" if "c \<le> t"
  proof -
    have "select_cancelled E ?st0"
      using that assms(3) by (simp add: select_cancelled_def select_time_def)
    from run_loop_stop [OF this, of fetch replace interval] st show ?thesis by auto
  qed
  ultimately show ?thesis
    using reach_imports [OF r] reach_count [OF r assms(1) _ assms(3)] assms(2,3) st
    by (intro exI [of _ "st\<lparr>events := events st @ [Stopped]\<rparr>"]) (auto simp: importer_run_def b(2))
qed

lemma importer_run_stops_witness:
  "\<exists>st. importer_run (test_env\<lparr>took := \<lambda>_. Some 90000000000, cancelled_at := Some 80000000000\<rparr>)
       fake_fetch_nodes fake_replace_all (test_importer []) 60000000000 0 = Some (Returned st)
     \<and> (\<forall>(s, d) \<in> set (import_times st). s < 80000000000)"
  using importer_run_stops [of "test_env\<lparr>took := \<lambda>_. Some 90000000000, cancelled_at := Some 80000000000\<rparr>"
      5000000 60000000000 80000000000 fake_fetch_nodes fake_replace_all "test_importer []" 0]
    tokio.tokio_interval_axioms
  by (auto simp: test_env_def)



text \<open>
  C23. Without a cancellation the loop never returns, and it performs every import: for each \<open>n\<close>, when the
  imports before finish, it reaches the state after the n-th one, whatever they did.
\<close>

theorem importer_run_forever:
  assumes "cancelled_at E = None" and "0 < interval"
  shows "importer_run E fetch replace self interval t = None \<and>
    ((\<forall>i < n. took E i \<noteq> None) \<longrightarrow>
      (\<exists>st. run_reaches E fetch replace interval (run_start self interval t) st \<and> iteration st = n))"
proof (rule conjI)
  have "run_loop E fetch replace interval (run_start self interval t) \<noteq> Some st" for st
    using run_loop_final [of E fetch replace interval _ st] assms(1)
    by (auto simp: loop_step_Break select_cancelled_def)
  then show "importer_run E fetch replace self interval t = None"
    using assms(2) by (auto simp: importer_run_def)
qed (simp add: reach_every assms)

lemma importer_run_forever_witness:
  "importer_run (test_env\<lparr>cancelled_at := None\<rparr>) fake_fetch_nodes fake_replace_all
     (test_importer [PanicStep]) 60000000000 0 = None"
  by (rule importer_run_forever [THEN conjunct1]) simp_all

text \<open>
  C24. The rhythm of the imports of a run: two imports in a row start at least an interval apart, up to
  the tolerance of the timer, even when the first one overran its interval, and do not overlap; the next
  one starts no later than the interval, or the duration of the import if that is longer, plus the
  delay of the scheduler. After an import that overran its interval by more than the tolerance the next
  one starts at once, and it is the one after that which waits a full interval: missed ticks are
  neither made up for in a burst nor skipped.
\<close>

theorem importer_spacing:
  assumes "tokio_interval (next_tick E) slack"
    and "run_reaches E fetch replace interval (run_start self interval t) st"
    and "loop_step E fetch replace interval st = Next st'" and "took E (iteration st) = Some d"
  shows "tick_time E st + interval \<le> tick_time E st' + slack \<and>
    tick_time E st + d \<le> tick_time E st' \<and>
    tick_time E st' \<le> tick_time E st + max interval d + lag E (iteration st') \<and>
    (interval + slack < d \<longrightarrow> tick_time E st' = tick_time E st + d + lag E (iteration st') \<and>
      (\<forall>st''. loop_step E fetch replace interval st' = Next st'' \<longrightarrow>
         tick_time E st' + interval \<le> tick_time E st''))"
proof -
  have "missed_tick st = Delay" using reach_missed_tick [OF assms(2)] by simp
  with tick_time_bounds [OF assms(1,3) _ assms(4)] tick_time_overrun [OF assms(1,3) _ assms(4)]
  show ?thesis by blast
qed

lemma importer_spacing_witness:
  "\<exists>st. loop_step (test_env\<lparr>took := \<lambda>_. Some 90000000000\<rparr>) fake_fetch_nodes fake_replace_all 60000000000
       (run_start (test_importer []) 60000000000 0) = Next st \<and>
     tick_time (test_env\<lparr>took := \<lambda>_. Some 90000000000\<rparr>) st = 90000000000"
proof -
  let ?E = "test_env\<lparr>took := \<lambda>_. Some 90000000000\<rparr>"
  let ?st0 = "run_start (test_importer []) 60000000000 0"
  have d: "took ?E (iteration ?st0) = Some 90000000000" by simp
  have "\<not> select_cancelled ?E ?st0" by (simp add: select_cancelled_def test_env_def select_time_def)
  then obtain st where st: "loop_step ?E fake_fetch_nodes fake_replace_all 60000000000 ?st0 = Next st"
    using loop_step_next [OF _ d] by blast
  have "tokio_interval (next_tick ?E) 5000000"
    using tokio.tokio_interval_axioms by (simp add: test_env_def)
  from importer_spacing [OF this run_reaches.here st d] st show ?thesis
    by (auto simp: test_env_def tick_time_def)
qed

text \<open>
  C25. The first import starts at once, and as long as imports take no more than an interval and wake-ups
  are punctual, the i-th one starts exactly \<open>i\<close> intervals after the start: no drift.
\<close>

theorem importer_schedule:
  assumes "run_reaches E fetch replace interval (run_start self interval t) st"
    and "tokio_interval (next_tick E) slack"
    and "\<forall>i. lag E i = 0 \<and> (\<forall>d. took E i = Some d \<longrightarrow> d \<le> interval)"
  shows "tick_time E st = t + iteration st * interval"
  using reach_schedule [OF assms(1,2)] assms(3) by (simp add: tick_time_def)

lemma importer_schedule_witness:
  "tick_time test_env (run_start (test_importer []) 60000000000 7) = 7"
  using importer_schedule [OF run_reaches.here, of test_env 5000000 60000000000 "test_importer []" 7]
    tokio.tokio_interval_axioms
  by (simp add: test_env_def)

end
