(* ===== verification/Http.thy ===== *)
theory Http
  imports Test_Support
begin

text \<open>
  The crate's \<^verbatim>\<open>http\<close> module (\<^verbatim>\<open>src/src/http/\<close>): the JSON shapes (\<^verbatim>\<open>response.rs\<close>), the error mapping
  (\<^verbatim>\<open>error.rs\<close>), the three handlers (\<^verbatim>\<open>handlers.rs\<close>) and the router with its layers (\<^verbatim>\<open>mod.rs\<close>).

  A handler takes the application state and yields a reply and the events it logs, or panics. A reply
  holds its status, content type and JSON body. The router is the data that the builder calls of
  \<open>router\<close> put together: routes, fallback and the layers from the innermost to the outermost. What
  axum and tower-http make of such data is not the crate's code: it is the function \<open>respond\<close> of the
  locale \<open>web_framework\<close>, whose laws are the documented meaning of routes, fallback, method routers
  and the three layers. The laws are interpreted on the reference dispatcher \<open>dispatch\<close>.
\<close>

section \<open>JSON shapes\<close>

record node_response =
  resp_public_key :: string
  resp_alias :: string
  resp_capacity :: string
  resp_first_seen :: string

definition node_response_from :: "'dt chrono \<Rightarrow> 'dt node \<Rightarrow> node_response" where
  "node_response_from C node =
     \<lparr>resp_public_key = public_key node, resp_alias = node_alias node,
      resp_capacity = format_btc (capacity_sats node),
      resp_first_seen = format_timestamp C (first_seen node)\<rparr>"

definition serialize_node_response :: "node_response \<Rightarrow> json" where
  "serialize_node_response r =
     JObject [(''public_key'', JString (resp_public_key r)), (''alias'', JString (resp_alias r)),
              (''capacity'', JString (resp_capacity r)), (''first_seen'', JString (resp_first_seen r))]"

definition error_body :: "string \<Rightarrow> json" where
  "error_body msg = JObject [(''error'', JString msg)]"

section \<open>Replies and errors\<close>

record reply =
  reply_status :: u16
  content_type :: "string option"
  reply_body :: "json option"

datatype http_event = RequestFailed storage_error | HandlerPanicked string

definition json_reply :: "u16 \<Rightarrow> json \<Rightarrow> reply" where
  "json_reply st v = \<lparr>reply_status = st, content_type = Some ''application/json'', reply_body = Some v\<rparr>"

definition empty_reply :: "u16 \<Rightarrow> reply" where
  "empty_reply st = \<lparr>reply_status = st, content_type = None, reply_body = None\<rparr>"

definition INTERNAL_ERROR :: string where
  "INTERNAL_ERROR = ''internal server error''"

datatype api_error = StorageApi storage_error

definition internal_error_response :: reply where
  "internal_error_response = json_reply 500 (error_body INTERNAL_ERROR)"

fun api_error_into_response :: "api_error \<Rightarrow> reply \<times> http_event list" where
  "api_error_into_response (StorageApi e) = (internal_error_response, [RequestFailed e])"

section \<open>Handlers\<close>

record 'r app_state =
  app_repo :: 'r

definition list_nodes_handler ::
  "'dt chrono \<Rightarrow> ('r \<Rightarrow> (storage_error + 'dt node list) outcome) \<Rightarrow> 'r app_state
     \<Rightarrow> (reply \<times> http_event list) outcome" where
  "list_nodes_handler C list_op state =
     (case list_op (app_repo state) of
        Panic m \<Rightarrow> Panic m
      | Returned (Inl e) \<Rightarrow> Returned (api_error_into_response (StorageApi e))
      | Returned (Inr nodes) \<Rightarrow>
          Returned (json_reply 200
            (JArray (map (\<lambda>n. serialize_node_response (node_response_from C n)) nodes)), []))"

definition health :: "'r app_state \<Rightarrow> (reply \<times> http_event list) outcome" where
  "health _ = Returned (json_reply 200 (JObject [(''status'', JString ''ok'')]), [])"

definition not_found :: "'r app_state \<Rightarrow> (reply \<times> http_event list) outcome" where
  "not_found _ = Returned (json_reply 404 (error_body ''not found''), [])"

section \<open>The router\<close>

datatype http_method = GET | HEAD | POST | PUT | DELETE | PATCH | OPTIONS | Extension string

text \<open>What a caught panic carries: an owned string, a literal, or something else.\<close>

datatype panic_payload = OwnedString string | StrSlice string | OpaquePayload

datatype layer =
    CatchPanicLayer "panic_payload \<Rightarrow> reply \<times> http_event list"
  | TimeoutLayer u16 nanos
  | TraceLayer

record 'r router =
  routes :: "(string \<times> (http_method \<times> ('r app_state \<Rightarrow> (reply \<times> http_event list) outcome)) list) list"
  fallback :: "'r app_state \<Rightarrow> (reply \<times> http_event list) outcome"
  state :: "'r app_state"
  layers :: "layer list"

definition REQUEST_TIMEOUT :: nanos where
  "REQUEST_TIMEOUT = duration_from_secs 10"

definition panic_response :: "panic_payload \<Rightarrow> reply \<times> http_event list" where
  "panic_response panic =
     (internal_error_response,
      [HandlerPanicked (case panic of OwnedString s \<Rightarrow> s | StrSlice s \<Rightarrow> s | OpaquePayload \<Rightarrow> ''unknown panic'')])"

definition mk_router ::
  "'dt chrono \<Rightarrow> ('r \<Rightarrow> (storage_error + 'dt node list) outcome) \<Rightarrow> 'r \<Rightarrow> 'r router" where
  "mk_router C list_op repo =
     \<lparr>routes = [(''/nodes'', [(GET, list_nodes_handler C list_op)]), (''/health'', [(GET, health)])],
      fallback = not_found,
      state = \<lparr>app_repo = repo\<rparr>,
      layers = [CatchPanicLayer panic_response, TimeoutLayer 408 REQUEST_TIMEOUT, TraceLayer]\<rparr>"

section \<open>What the framework promises\<close>

text \<open>A \<open>HEAD\<close> request is served by the \<open>GET\<close> handler, without the body.\<close>

definition strip_body :: "reply \<times> http_event list \<Rightarrow> reply \<times> http_event list" where
  "strip_body = (\<lambda>(rep, evs). (rep\<lparr>reply_body := None\<rparr>, evs))"

fun map_outcome :: "('a \<Rightarrow> 'b) \<Rightarrow> 'a outcome \<Rightarrow> 'b outcome" where
  "map_outcome f (Returned x) = Returned (f x)"
| "map_outcome f (Panic m) = Panic m"

text \<open>\<open>respond R d m p\<close> answers the request \<open>m p\<close> when the handler takes \<open>d\<close> nanoseconds.\<close>

locale web_framework =
  fixes respond :: "'r router \<Rightarrow> nanos \<Rightarrow> http_method \<Rightarrow> string \<Rightarrow> (reply \<times> http_event list) outcome"
  assumes no_route: "layers R = [] \<Longrightarrow> map_of (routes R) p = None \<Longrightarrow> m \<noteq> HEAD \<Longrightarrow>
      respond R d m p = fallback R (state R)"
    and no_route_head: "layers R = [] \<Longrightarrow> map_of (routes R) p = None \<Longrightarrow>
      respond R d HEAD p \<in> {fallback R (state R), map_outcome strip_body (fallback R (state R))}"
    and method_hit: "layers R = [] \<Longrightarrow> map_of (routes R) p = Some ms \<Longrightarrow> map_of ms m = Some h \<Longrightarrow>
      m \<noteq> HEAD \<Longrightarrow> respond R d m p = h (state R)"
    and head_hit: "layers R = [] \<Longrightarrow> map_of (routes R) p = Some ms \<Longrightarrow> map_of ms HEAD = None \<Longrightarrow>
      map_of ms GET = Some h \<Longrightarrow> respond R d HEAD p = map_outcome strip_body (h (state R))"
    and method_miss: "layers R = [] \<Longrightarrow> map_of (routes R) p = Some ms \<Longrightarrow> map_of ms m = None \<Longrightarrow>
      m \<noteq> HEAD \<Longrightarrow> respond R d m p = Returned (empty_reply 405, [])"
    and catch_return: "layers R = ls @ [CatchPanicLayer f] \<Longrightarrow>
      respond (R\<lparr>layers := ls\<rparr>) d m p = Returned x \<Longrightarrow> respond R d m p = Returned x"
    and catch_panic: "layers R = ls @ [CatchPanicLayer f] \<Longrightarrow>
      respond (R\<lparr>layers := ls\<rparr>) d m p = Panic msg \<Longrightarrow>
      respond R d m p \<in> {Returned (f (StrSlice msg)), Returned (f (OwnedString msg))}"
    and timeout_pass: "layers R = ls @ [TimeoutLayer st limit] \<Longrightarrow> d < limit \<Longrightarrow>
      respond R d m p = respond (R\<lparr>layers := ls\<rparr>) d m p"
    and timeout_hit: "layers R = ls @ [TimeoutLayer st limit] \<Longrightarrow> limit < d \<Longrightarrow>
      respond R d m p = Returned (empty_reply st, [])"
    and timeout_edge: "layers R = ls @ [TimeoutLayer st limit] \<Longrightarrow>
      respond R limit m p \<in> {respond (R\<lparr>layers := ls\<rparr>) limit m p, Returned (empty_reply st, [])}"
    and trace: "layers R = ls @ [TraceLayer] \<Longrightarrow> respond R d m p = respond (R\<lparr>layers := ls\<rparr>) d m p"

text \<open>The reference dispatcher.\<close>

fun apply_layer ::
  "nanos \<Rightarrow> layer \<Rightarrow> (reply \<times> http_event list) outcome \<Rightarrow> (reply \<times> http_event list) outcome" where
  "apply_layer d (CatchPanicLayer f) out =
     (case out of Returned x \<Rightarrow> Returned x | Panic msg \<Rightarrow> Returned (f (StrSlice msg)))"
| "apply_layer d (TimeoutLayer st limit) out =
     (if d < limit then out else Returned (empty_reply st, []))"
| "apply_layer d TraceLayer out = out"

definition dispatch ::
  "'r router \<Rightarrow> nanos \<Rightarrow> http_method \<Rightarrow> string \<Rightarrow> (reply \<times> http_event list) outcome" where
  "dispatch R d m p =
     fold (apply_layer d) (layers R)
       (case map_of (routes R) p of
          None \<Rightarrow> fallback R (state R)
        | Some ms \<Rightarrow>
            (case (map_of ms m, m, map_of ms GET) of
               (Some h, _, _) \<Rightarrow> h (state R)
             | (None, HEAD, Some h) \<Rightarrow> map_outcome strip_body (h (state R))
             | _ \<Rightarrow> Returned (empty_reply 405, [])))"

interpretation ref: web_framework dispatch
  by unfold_locales (auto simp: dispatch_def split: http_method.splits option.splits)

section \<open>What the service answers\<close>

context web_framework
begin

lemma edge_layers:
  "respond (mk_router C list_op repo) REQUEST_TIMEOUT m p \<in>
    {respond ((mk_router C list_op repo)\<lparr>layers := [CatchPanicLayer panic_response]\<rparr>) REQUEST_TIMEOUT m p,
     Returned (empty_reply 408, [])}"
proof -
  let ?R = "mk_router C list_op repo"
  let ?inner = "?R\<lparr>layers := [CatchPanicLayer panic_response, TimeoutLayer 408 REQUEST_TIMEOUT]\<rparr>"
  have "respond ?R REQUEST_TIMEOUT m p = respond ?inner REQUEST_TIMEOUT m p"
    by (rule trace) (simp add: mk_router_def)
  with timeout_edge [of ?inner "[CatchPanicLayer panic_response]" 408 REQUEST_TIMEOUT m p] show ?thesis by simp
qed

lemma peel_layers:
  assumes "d < REQUEST_TIMEOUT"
  shows "respond (mk_router C list_op repo) d m p =
    respond ((mk_router C list_op repo)\<lparr>layers := [CatchPanicLayer panic_response]\<rparr>) d m p"
proof -
  let ?R = "mk_router C list_op repo"
  have "respond ?R d m p =
      respond (?R\<lparr>layers := [CatchPanicLayer panic_response, TimeoutLayer 408 REQUEST_TIMEOUT]\<rparr>) d m p"
    by (rule trace) (simp add: mk_router_def)
  also have "\<dots> = respond ((?R\<lparr>layers := [CatchPanicLayer panic_response, TimeoutLayer 408 REQUEST_TIMEOUT]\<rparr>)
      \<lparr>layers := [CatchPanicLayer panic_response]\<rparr>) d m p"
    using assms by (intro timeout_pass) simp_all
  finally show ?thesis by simp
qed

lemma timed_out:
  assumes "REQUEST_TIMEOUT < d"
  shows "respond (mk_router C list_op repo) d m p = Returned (empty_reply 408, [])"
proof -
  let ?R = "mk_router C list_op repo"
  have "respond ?R d m p =
      respond (?R\<lparr>layers := [CatchPanicLayer panic_response, TimeoutLayer 408 REQUEST_TIMEOUT]\<rparr>) d m p"
    by (rule trace) (simp add: mk_router_def)
  also have "\<dots> = Returned (empty_reply 408, [])"
    by (rule timeout_hit [OF _ assms, of _ "[CatchPanicLayer panic_response]"]) simp
  finally show ?thesis .
qed

text \<open>The innermost layer turns every panic into a reply.\<close>

lemma caught_returned:
  "respond ((mk_router C list_op repo)\<lparr>layers := []\<rparr>) d m p = Returned x \<Longrightarrow>
     respond ((mk_router C list_op repo)\<lparr>layers := [CatchPanicLayer panic_response]\<rparr>) d m p = Returned x"
  by (rule catch_return [where ls = "[]"]) simp_all

lemma caught_panicked:
  "respond ((mk_router C list_op repo)\<lparr>layers := []\<rparr>) d m p = Panic msg \<Longrightarrow>
     respond ((mk_router C list_op repo)\<lparr>layers := [CatchPanicLayer panic_response]\<rparr>) d m p =
       Returned (internal_error_response, [HandlerPanicked msg])"
  using catch_panic [of "(mk_router C list_op repo)\<lparr>layers := [CatchPanicLayer panic_response]\<rparr>" "[]"]
  by (auto simp: panic_response_def)

text \<open>Every reply is what the bare routes give, the generic error, or the timeout.\<close>

lemma reply_cases:
  obtains x where "respond ((mk_router C list_op repo)\<lparr>layers := []\<rparr>) d m p = Returned x"
      and "respond (mk_router C list_op repo) d m p = Returned x"
  | msg where "respond (mk_router C list_op repo) d m p = Returned (internal_error_response, [HandlerPanicked msg])"
  | "respond (mk_router C list_op repo) d m p = Returned (empty_reply 408, [])"
proof -
  let ?caught = "respond ((mk_router C list_op repo)\<lparr>layers := [CatchPanicLayer panic_response]\<rparr>) d m p"
  have "respond (mk_router C list_op repo) d m p \<in> {?caught, Returned (empty_reply 408, [])}"
    using peel_layers [of d C list_op repo m p] timed_out [of d C list_op repo m p] edge_layers [of C list_op repo m p]
    by (cases d REQUEST_TIMEOUT rule: linorder_cases) auto
  then show thesis
    using that caught_returned [of C list_op repo d m p] caught_panicked [of C list_op repo d m p]
    by (cases "respond ((mk_router C list_op repo)\<lparr>layers := []\<rparr>) d m p") auto
qed

lemma served_returned:
  assumes "d < REQUEST_TIMEOUT" and "respond ((mk_router C list_op repo)\<lparr>layers := []\<rparr>) d m p = Returned x"
  shows "respond (mk_router C list_op repo) d m p = Returned x"
  unfolding peel_layers [OF assms(1)] by (rule caught_returned [OF assms(2)])

lemma served_panicked:
  assumes "d < REQUEST_TIMEOUT" and "respond ((mk_router C list_op repo)\<lparr>layers := []\<rparr>) d m p = Panic msg"
  shows "respond (mk_router C list_op repo) d m p = Returned (internal_error_response, [HandlerPanicked msg])"
  unfolding peel_layers [OF assms(1)] by (rule caught_panicked [OF assms(2)])

lemma bare_nodes: "respond ((mk_router C list_op repo)\<lparr>layers := []\<rparr>) d GET ''/nodes'' =
    list_nodes_handler C list_op \<lparr>app_repo = repo\<rparr>"
  by (subst method_hit [where ms = "[(GET, list_nodes_handler C list_op)]"]) (simp_all add: mk_router_def)

lemma bare_health: "respond ((mk_router C list_op repo)\<lparr>layers := []\<rparr>) d GET ''/health'' =
    Returned (json_reply 200 (JObject [(''status'', JString ''ok'')]), [])"
  by (subst method_hit [where ms = "[(GET, health)]" and h = health]) (simp_all add: mk_router_def health_def)

lemma bare_unknown: "p \<notin> {''/nodes'', ''/health''} \<Longrightarrow> m \<noteq> HEAD \<Longrightarrow>
    respond ((mk_router C list_op repo)\<lparr>layers := []\<rparr>) d m p =
    Returned (json_reply 404 (error_body ''not found''), [])"
  by (subst no_route) (simp_all add: mk_router_def not_found_def)

lemma bare_unknown_head: "p \<notin> {''/nodes'', ''/health''} \<Longrightarrow>
    \<exists>b. respond ((mk_router C list_op repo)\<lparr>layers := []\<rparr>) d HEAD p =
      Returned ((json_reply 404 (error_body ''not found''))\<lparr>reply_body := b\<rparr>, [])
      \<and> b \<in> {None, Some (error_body ''not found'')}"
  using no_route_head [of "(mk_router C list_op repo)\<lparr>layers := []\<rparr>" p d]
  by (auto simp: mk_router_def not_found_def strip_body_def json_reply_def)

lemma bare_method: "p \<in> {''/nodes'', ''/health''} \<Longrightarrow> m \<notin> {GET, HEAD} \<Longrightarrow>
    respond ((mk_router C list_op repo)\<lparr>layers := []\<rparr>) d m p = Returned (empty_reply 405, [])"
  by (subst method_miss [where ms = "the (map_of (routes (mk_router C list_op repo)) p)"])
    (auto simp: mk_router_def)

end

text \<open>A client that reads an element of the response: it must be an object with exactly the four public
  fields, the capacity a BTC amount; the timestamp is left as a text.\<close>

fun read_fields :: "json \<Rightarrow> (string \<times> string \<times> nat \<times> string) option" where
  "read_fields (JObject [(k1, JString pk), (k2, JString al), (k3, JString cap), (k4, JString seen)]) =
     (if [k1, k2, k3, k4] = [''public_key'', ''alias'', ''capacity'', ''first_seen'']
      then map_option (\<lambda>sats. (pk, al, sats, seen)) (parse_btc cap)
      else None)"
| "read_fields _ = None"

text \<open>A client that also reads the timestamp, as an RFC 3339 text of the years 0 to 9999. Such a node is
  \<open>printable\<close>; chrono accepts years far beyond and prints them in an extended form.\<close>

definition read_node :: "json \<Rightarrow> (string \<times> string \<times> nat \<times> int) option" where
  "read_node v = Option.bind (read_fields v)
     (\<lambda>(pk, al, sats, seen). map_option (\<lambda>t. (pk, al, sats, t)) (unix_of_rfc3339 seen))"

definition printable :: "'dt chrono \<Rightarrow> 'dt node \<Rightarrow> bool" where
  "printable C n \<longleftrightarrow> (\<exists>secs. timestamp_from_unix C secs = Ok (first_seen n)
     \<and> rfc3339_first \<le> sint secs \<and> sint secs \<le> rfc3339_last)"

lemma read_fields_response:
  "read_fields (serialize_node_response (node_response_from C n)) =
     Some (public_key n, node_alias n, unat (capacity_sats n), format_timestamp C (first_seen n))"
  by (simp add: serialize_node_response_def node_response_from_def parse_btc_format_btc)

context chrono_api
begin

lemma read_node_response:
  assumes "printable C n"
  shows "read_node (serialize_node_response (node_response_from C n)) =
    Some (public_key n, node_alias n, unat (capacity_sats n), timestamp C (first_seen n))"
proof -
  obtain secs where secs: "timestamp_from_unix C secs = Ok (first_seen n)"
    "rfc3339_first \<le> sint secs" "sint secs \<le> rfc3339_last"
    using assms by (auto simp: printable_def)
  then show ?thesis
    by (simp add: read_node_def read_fields_response format_timestamp_text unix_of_rfc3339_of_unix
        timestamp_from_unix_value)
qed

end

context web_framework
begin

lemma nodes_reply_cases:
  assumes "d < REQUEST_TIMEOUT"
  shows "respond (mk_router C list_op repo) d GET ''/nodes'' = Returned
    (case list_op repo of
       Returned (Inr ns) \<Rightarrow>
         (json_reply 200 (JArray (map (\<lambda>n. serialize_node_response (node_response_from C n)) ns)), [])
     | Returned (Inl e) \<Rightarrow> (internal_error_response, [RequestFailed e])
     | Panic msg \<Rightarrow> (internal_error_response, [HandlerPanicked msg]))"
  using bare_nodes [of C list_op repo d] served_returned [OF assms, of C list_op repo GET "''/nodes''"]
    served_panicked [OF assms, of C list_op repo GET "''/nodes''"]
  by (simp add: list_nodes_handler_def split: outcome.splits sum.splits)

lemma nodes_200:
  assumes "d < REQUEST_TIMEOUT" and "respond (mk_router C list_op repo) d GET ''/nodes'' = Returned (rep, evs)"
    and "reply_status rep = 200"
  obtains ns where "list_op repo = Returned (Ok ns)"
    and "reply_body rep = Some (JArray (map (\<lambda>n. serialize_node_response (node_response_from C n)) ns))"
  using assms(2,3) unfolding nodes_reply_cases [OF assms(1)]
  by (auto simp: json_reply_def internal_error_response_def split: outcome.splits sum.splits)

lemma bare_head:
  "respond ((mk_router C list_op repo)\<lparr>layers := []\<rparr>) d HEAD ''/nodes'' =
     map_outcome strip_body (list_nodes_handler C list_op \<lparr>app_repo = repo\<rparr>)"
  "respond ((mk_router C list_op repo)\<lparr>layers := []\<rparr>) d HEAD ''/health'' =
     map_outcome strip_body (health \<lparr>app_repo = repo\<rparr>)"
  by (subst head_hit [where ms = "[(GET, list_nodes_handler C list_op)]"], simp_all add: mk_router_def)
    (subst head_hit [where ms = "[(GET, health)]" and h = health], simp_all)

end

text \<open>The example of the challenge: its nodes are printable, and this is the response it asks for.\<close>

definition challenge_response :: json where
  "challenge_response = JArray
     [JObject [(''public_key'', JString ''03864ef025fde8fb587d989186ce6a4a186895ee44a926bfc370e2c366597a3f8f''),
       (''alias'', JString ''ACINQ''), (''capacity'', JString ''360.10516297''),
       (''first_seen'', JString ''2018-04-05T15:13:42Z'')],
      JObject [(''public_key'', JString ''035e4ff418fc8b5554c5d9eea66396c227bd429a3251c8cbc711002ba215bfc226''),
       (''alias'', JString ''WalletOfSatoshi.com''), (''capacity'', JString ''154.64503162''),
       (''first_seen'', JString ''2020-09-30T01:39:00Z'')]]"

lemma utc_timestamp: "timestamp utc_chrono d = d"
  by (simp add: utc_chrono_def)

lemma challenge_printable: "\<forall>n \<in> set challenge_list. printable utc_chrono n"
proof -
  have "printable utc_chrono n" if "first_seen n = sint secs" "rfc3339_first \<le> sint secs" "sint secs \<le> rfc3339_last"
    "chrono_min \<le> sint secs" "sint secs \<le> chrono_max" for n and secs :: i64
    using that unfolding printable_def
    by (intro exI [of _ secs]) (simp add: timestamp_from_unix_def utc_chrono_def)
  from this [of _ 1522941222] this [of _ 1601429940] show ?thesis
    by (simp add: challenge_list_def chrono_bounds rfc3339_first_def rfc3339_last_def)
qed

lemma challenge_timestamps:
  "format_timestamp utc_chrono 1522941222 = ''2018-04-05T15:13:42Z''"
  "format_timestamp utc_chrono 1601429940 = ''2020-09-30T01:39:00Z''"
  unfolding utc_format_timestamp by (simp add: rfc3339_first_def rfc3339_last_def, code_simp)+

lemma challenge_response_body:
  "JArray (map (\<lambda>n. serialize_node_response (node_response_from utc_chrono n)) challenge_list) = challenge_response"
  by (simp add: challenge_list_def challenge_response_def serialize_node_response_def node_response_from_def
      format_btc_examples challenge_timestamps ACINQ_KEY_def WOS_KEY_def)

text \<open>
  C15. \<open>GET /nodes\<close>, with any framework that keeps its documented behaviour and a read that finishes
  within the request timeout: when the repository lists nodes, the answer is 200 with a JSON array that
  holds one formatted object per node in the repository's order; when it reports an error or panics,
  the answer is the generic 500 and the details go to the log only.
\<close>

theorem get_nodes_reply:
  assumes "web_framework respond" and "d < REQUEST_TIMEOUT"
  shows "respond (mk_router C list_op repo) d GET ''/nodes'' = Returned
    (case list_op repo of
       Returned (Inr ns) \<Rightarrow>
         (json_reply 200 (JArray (map (\<lambda>n. serialize_node_response (node_response_from C n)) ns)), [])
     | Returned (Inl e) \<Rightarrow> (internal_error_response, [RequestFailed e])
     | Panic msg \<Rightarrow> (internal_error_response, [HandlerPanicked msg]))"
  by (rule web_framework.nodes_reply_cases [OF assms])

lemma get_nodes_reply_witness:
  "dispatch (mk_router utc_chrono fake_list_nodes (set_panic_on_list True fake_default)) 0 GET ''/nodes'' =
     Returned (json_reply 500 (error_body ''internal server error''),
       [HandlerPanicked ''scripted panic in FakeRepository''])"
  using get_nodes_reply [OF ref.web_framework_axioms, of 0 utc_chrono fake_list_nodes]
  by (simp add: REQUEST_TIMEOUT_def duration_from_secs_def fake_list_nodes_def set_panic_on_list_def
      internal_error_response_def INTERNAL_ERROR_def)

text \<open>
  C32. Every request gets an answer, whatever its method and path and however long it takes: the service
  never lets a panic through, the status is one of 200, 404, 405, 408 and 500, and a 500 shows nothing
  but the generic error body, whatever the storage error or the panic was.
\<close>

theorem every_request_answered:
  assumes "web_framework respond"
  shows "\<exists>rep evs. respond (mk_router C list_op repo) d m p = Returned (rep, evs)
    \<and> reply_status rep \<in> {200, 404, 405, 408, 500}
    \<and> (reply_status rep = 500 \<longrightarrow> reply_body rep \<in> {None, Some (error_body INTERNAL_ERROR)})"
proof (rule web_framework.reply_cases [OF assms, of C list_op repo d m p])
  fix x
  assume bare: "respond ((mk_router C list_op repo)\<lparr>layers := []\<rparr>) d m p = Returned x"
    and reply: "respond (mk_router C list_op repo) d m p = Returned x"
  note routes = web_framework.bare_nodes [OF assms] web_framework.bare_health [OF assms]
    web_framework.bare_head [OF assms] web_framework.bare_unknown [OF assms]
  have "reply_status (fst x) \<in> {200, 404, 405, 408, 500} \<and>
    (reply_status (fst x) = 500 \<longrightarrow> reply_body (fst x) \<in> {None, Some (error_body INTERNAL_ERROR)})"
  proof (cases "p \<in> {''/nodes'', ''/health''}")
    case True
    with bare web_framework.bare_method [OF assms True, of m C list_op repo d] show ?thesis
      by (cases "m \<in> {GET, HEAD}")
        (auto simp: routes list_nodes_handler_def health_def strip_body_def json_reply_def empty_reply_def
          internal_error_response_def split: outcome.splits sum.splits)
  next
    case False
    with bare web_framework.bare_unknown_head [OF assms False, of C list_op repo d] show ?thesis
      by (cases "m = HEAD") (auto simp: routes json_reply_def)
  qed
  with reply show ?thesis by (cases x) simp
qed (simp_all add: internal_error_response_def json_reply_def empty_reply_def)

lemma every_request_answered_witness:
  "\<exists>rep evs. dispatch (mk_router utc_chrono fake_list_nodes fake_default) 10000000000 HEAD ''/x'' = Returned (rep, evs)
    \<and> reply_status rep \<in> {200, 404, 405, 408, 500}"
  using every_request_answered [OF ref.web_framework_axioms, of utc_chrono fake_list_nodes
      fake_default 10000000000 HEAD "''/x''"] by auto

text \<open>
  C33. Routing, independent of the repository and its state: \<open>GET /health\<close> is 200 even when the database
  is down and \<open>HEAD /health\<close> the same without the body; an unknown path is the JSON 404, for \<open>HEAD\<close>
  possibly without its body; a method other than \<open>GET\<close> and \<open>HEAD\<close> on a known path is 405; and a request
  of any method and path that runs over the timeout is 408.
\<close>

theorem routing:
  assumes "web_framework respond" and "d < REQUEST_TIMEOUT"
  shows "respond (mk_router C list_op repo) d GET ''/health'' =
      Returned (json_reply 200 (JObject [(''status'', JString ''ok'')]), []) \<and>
    respond (mk_router C list_op repo) d HEAD ''/health'' =
      Returned ((json_reply 200 (JObject [(''status'', JString ''ok'')]))\<lparr>reply_body := None\<rparr>, []) \<and>
    (p \<notin> {''/nodes'', ''/health''} \<and> m \<noteq> HEAD \<longrightarrow> respond (mk_router C list_op repo) d m p =
      Returned (json_reply 404 (error_body ''not found''), [])) \<and>
    (p \<notin> {''/nodes'', ''/health''} \<longrightarrow> respond (mk_router C list_op repo) d HEAD p \<in>
      {Returned (json_reply 404 (error_body ''not found''), []),
       Returned ((json_reply 404 (error_body ''not found''))\<lparr>reply_body := None\<rparr>, [])}) \<and>
    (p \<in> {''/nodes'', ''/health''} \<and> m \<notin> {GET, HEAD} \<longrightarrow> respond (mk_router C list_op repo) d m p =
      Returned (empty_reply 405, [])) \<and>
    (\<forall>d' m' p'. REQUEST_TIMEOUT < d' \<longrightarrow>
      respond (mk_router C list_op repo) d' m' p' = Returned (empty_reply 408, []))"
proof (intro conjI impI allI)
  note served = web_framework.served_returned [OF assms]
  show "respond (mk_router C list_op repo) d GET ''/health'' =
      Returned (json_reply 200 (JObject [(''status'', JString ''ok'')]), [])"
    by (rule served) (rule web_framework.bare_health [OF assms(1)])
  show "respond (mk_router C list_op repo) d HEAD ''/health'' =
      Returned ((json_reply 200 (JObject [(''status'', JString ''ok'')]))\<lparr>reply_body := None\<rparr>, [])"
    by (rule served) (simp add: web_framework.bare_head [OF assms(1)] health_def strip_body_def)
  show "respond (mk_router C list_op repo) d m p = Returned (json_reply 404 (error_body ''not found''), [])"
    if "p \<notin> {''/nodes'', ''/health''} \<and> m \<noteq> HEAD"
    using that by (intro served web_framework.bare_unknown [OF assms(1)]) auto
  show "respond (mk_router C list_op repo) d HEAD p \<in> {Returned (json_reply 404 (error_body ''not found''), []),
       Returned ((json_reply 404 (error_body ''not found''))\<lparr>reply_body := None\<rparr>, [])}"
    if "p \<notin> {''/nodes'', ''/health''}"
    using web_framework.bare_unknown_head [OF assms(1) that, of C list_op repo d]
    by (auto dest!: served simp: json_reply_def)
  show "respond (mk_router C list_op repo) d m p = Returned (empty_reply 405, [])"
    if "p \<in> {''/nodes'', ''/health''} \<and> m \<notin> {GET, HEAD}"
    using that by (intro served web_framework.bare_method [OF assms(1)]) auto
  show "respond (mk_router C list_op repo) d' m' p' = Returned (empty_reply 408, [])" if "REQUEST_TIMEOUT < d'" for d' m' p'
    by (rule web_framework.timed_out [OF assms(1) that])
qed

lemma routing_witness:
  "dispatch (mk_router utc_chrono fake_list_nodes (set_failing True fake_default)) 0 GET ''/health'' =
     Returned (json_reply 200 (JObject [(''status'', JString ''ok'')]), [])"
  using routing [OF ref.web_framework_axioms, of 0 utc_chrono fake_list_nodes]
  by (simp add: REQUEST_TIMEOUT_def duration_from_secs_def)

end
