(* ===== verification/Std_Parsers.thy ===== *)
theory Std_Parsers
  imports Prelude
begin

text \<open>
  The two \<open>FromStr\<close> implementations of the Rust standard library that the configuration uses: \<open>u64\<close>, with
  its error kinds, and \<open>SocketAddr\<close>, with the IPv4 and IPv6 grammar of \<open>core::net\<close>. A parser maps its
  input to a value and the rest of the input, or to \<open>None\<close>, which leaves the caller at its own position
  (the atomic reads of the library).
\<close>

section \<open>Unsigned integers\<close>

datatype int_error = Empty | InvalidDigit | PosOverflow

fun show_int_error :: "int_error \<Rightarrow> string" where
  "show_int_error Empty = ''cannot parse integer from empty string''"
| "show_int_error InvalidDigit = ''invalid digit found in string''"
| "show_int_error PosOverflow = ''number too large to fit in target type''"

fun u64_digits :: "nat \<Rightarrow> string \<Rightarrow> int_error + nat" where
  "u64_digits acc [] = Ok acc"
| "u64_digits acc (c # cs) =
     (case digit_val c of
        None \<Rightarrow> Err InvalidDigit
      | Some d \<Rightarrow> if 10 * acc + d < 2 ^ 64 then u64_digits (10 * acc + d) cs else Err PosOverflow)"

definition u64_from_str :: "string \<Rightarrow> int_error + u64" where
  "u64_from_str s =
     (if s = [] then Err Empty
      else if s = ''+'' \<or> s = ''-'' then Err InvalidDigit
      else and_then (u64_digits 0 (if hd s = CHR ''+'' then tl s else s)) (\<lambda>n. Ok (of_nat n)))"

text \<open>The digits of an accepted text, without the optional sign.\<close>

definition unsigned_digits :: "string \<Rightarrow> string" where
  "unsigned_digits s = (if s \<noteq> [] \<and> hd s = CHR ''+'' then tl s else s)"

lemma read_digits_ge: "read_digits acc s = Some n \<Longrightarrow> acc \<le> n"
proof (induction acc s rule: read_digits.induct)
  case (2 acc c cs)
  then obtain d where "digit_val c = Some d" "10 * acc + d \<le> n" by (auto split: option.splits)
  then show ?case by simp
qed simp

lemma u64_digits_Ok_iff:
  "acc < 2 ^ 64 \<Longrightarrow> u64_digits acc s = Ok n \<longleftrightarrow> read_digits acc s = Some n \<and> n < 2 ^ 64"
proof (induction acc s rule: u64_digits.induct)
  case (2 acc c cs)
  then show ?case using read_digits_ge [of "10 * acc + the (digit_val c)" cs n]
    by (auto split: option.splits if_splits)
qed auto

lemma digit_val_sign [simp]: "digit_val (CHR ''+'') = None" "digit_val (CHR ''-'') = None"
  by (simp_all add: digit_val_def)

lemma u64_from_str_Ok_iff:
  "u64_from_str s = Ok n \<longleftrightarrow>
     unsigned_digits s \<noteq> [] \<and> read_digits 0 (unsigned_digits s) = Some (unat n)"
proof -
  have n: "unat (of_nat m :: u64) = m" if "m < 2 ^ 64" for m
    using that by (simp add: unsigned_of_nat take_bit_nat_eq_self)
  have lt: "unat n < 2 ^ 64" by (rule order.strict_trans2 [OF unsigned_less]) simp
  consider "s = []" | "s = ''+''" | "s = ''-''" | "s \<noteq> []" "s \<noteq> ''+''" "s \<noteq> ''-''" by blast
  then show ?thesis
  proof cases
    case 4
    then have "unsigned_digits s \<noteq> []"
      by (cases s) (auto simp: unsigned_digits_def)
    moreover have "u64_from_str s = and_then (u64_digits 0 (unsigned_digits s)) (\<lambda>n. Ok (of_nat n))"
      using 4 by (simp add: u64_from_str_def unsigned_digits_def)
    ultimately show ?thesis using n lt by (auto simp: result_simps u64_digits_Ok_iff intro!: exI [of _ "unat n"])
  qed (simp_all add: u64_from_str_def unsigned_digits_def)
qed

lemma ex_u64: "(\<exists>n :: u64. P (unat n)) \<longleftrightarrow> (\<exists>n < 2 ^ 64. P n)"
proof
  assume "\<exists>n < 2 ^ 64. P n"
  then obtain n where n: "n < 2 ^ 64" "P n" by blast
  then have "P (unat (of_nat n :: u64))" by (simp add: unsigned_of_nat take_bit_nat_eq_self)
  then show "\<exists>n :: u64. P (unat n)" by blast
next
  assume "\<exists>n :: u64. P (unat n)"
  moreover have "unat n < 2 ^ 64" for n :: u64 by (rule order.strict_trans2 [OF unsigned_less]) simp
  ultimately show "\<exists>n < 2 ^ 64. P n" by blast
qed

lemma u64_from_str_show: "n < 2 ^ 64 \<Longrightarrow> u64_from_str (show_nat n) = Ok (of_nat n)"
proof -
  assume n: "n < 2 ^ 64"
  have "unsigned_digits (show_nat n) = show_nat n"
    using all_digits_show_nat [of n] by (cases "show_nat n") (auto simp: unsigned_digits_def is_digit_def)
  with n show ?thesis by (simp add: u64_from_str_Ok_iff unsigned_of_nat take_bit_nat_eq_self)
qed

section \<open>Socket addresses\<close>

type_synonym u8 = "8 word"

datatype socket_addr =
    V4 u8 u8 u8 u8 u16
  | V6 "u16 list" u32 u16

type_synonym 'a parser = "string \<Rightarrow> ('a \<times> string) option"

definition parser_bind :: "'a parser \<Rightarrow> ('a \<Rightarrow> 'b parser) \<Rightarrow> 'b parser" where
  "parser_bind p f s = Option.bind (p s) (\<lambda>(x, s'). f x s')"

definition parser_return :: "'a \<Rightarrow> 'a parser" where
  "parser_return x s = Some (x, s)"

definition read_given_char :: "char \<Rightarrow> unit parser" where
  "read_given_char c s = (if s \<noteq> [] \<and> hd s = c then Some ((), tl s) else None)"

definition read_separator :: "char \<Rightarrow> nat \<Rightarrow> 'a parser \<Rightarrow> 'a parser" where
  "read_separator sep index p = (if 0 < index then parser_bind (read_given_char sep) (\<lambda>_. p) else p)"

definition to_digit :: "nat \<Rightarrow> char \<Rightarrow> nat option" where
  "to_digit radix c =
     (let k = of_char c :: nat;
          v = (if 48 \<le> k \<and> k \<le> 57 then k - 48
               else if 97 \<le> k \<and> k \<le> 122 then k - 87
               else if 65 \<le> k \<and> k \<le> 90 then k - 55 else 36)
      in if v < radix then Some v else None)"

definition number_of :: "nat \<Rightarrow> string \<Rightarrow> nat" where
  "number_of radix ds = foldl (\<lambda>acc c. radix * acc + the (to_digit radix c)) 0 ds"

text \<open>A number below \<open>limit\<close>, the first value that does not fit its type.\<close>

definition read_number :: "nat \<Rightarrow> nat option \<Rightarrow> bool \<Rightarrow> nat \<Rightarrow> nat parser" where
  "read_number radix max_digits allow_zero_prefix limit s =
     (let ds = takeWhile (\<lambda>c. to_digit radix c \<noteq> None) s; n = number_of radix ds
      in if ds = [] \<or> (case max_digits of None \<Rightarrow> False | Some k \<Rightarrow> k < length ds)
            \<or> \<not> allow_zero_prefix \<and> hd ds = CHR ''0'' \<and> 1 < length ds \<or> limit \<le> n
         then None else Some (n, drop (length ds) s))"

definition read_ipv4_addr :: "(nat \<times> nat \<times> nat \<times> nat) parser" where
  "read_ipv4_addr =
     (let octet = (\<lambda>i. read_separator (CHR ''.'') i (read_number 10 (Some 3) False 256))
      in parser_bind (octet 0) (\<lambda>a. parser_bind (octet 1) (\<lambda>b.
         parser_bind (octet 2) (\<lambda>c. parser_bind (octet 3) (\<lambda>d. parser_return (a, b, c, d))))))"

function read_groups :: "nat \<Rightarrow> nat \<Rightarrow> string \<Rightarrow> nat list \<times> bool \<times> string" where
  "read_groups limit i s =
     (if limit \<le> i then ([], False, s)
      else
        (case (if i < limit - 1 then read_separator (CHR '':'') i read_ipv4_addr s else None) of
           Some ((a, b, c, d), s') \<Rightarrow> ([a * 256 + b, c * 256 + d], True, s')
         | None \<Rightarrow>
             (case read_separator (CHR '':'') i (read_number 16 (Some 4) True 65536) s of
                None \<Rightarrow> ([], False, s)
              | Some (g, s') \<Rightarrow>
                  (case read_groups limit (Suc i) s' of (gs, v4, s'') \<Rightarrow> (g # gs, v4, s'')))))"
  by pat_completeness auto
termination by (relation "measure (\<lambda>(limit, i, s). limit - i)") auto

declare read_groups.simps [simp del]

definition read_ipv6_addr :: "nat list parser" where
  "read_ipv6_addr s =
     (case read_groups 8 0 s of
        (head, head_ipv4, s') \<Rightarrow>
          if length head = 8 then Some (head, s')
          else if head_ipv4 then None
          else
            parser_bind (read_given_char (CHR '':'')) (\<lambda>_.
            parser_bind (read_given_char (CHR '':'')) (\<lambda>_ s''.
              (case read_groups (8 - (length head + 1)) 0 s'' of
                 (tail, _, s3) \<Rightarrow> Some (head @ replicate (8 - length head - length tail) 0 @ tail, s3)))) s')"

definition read_port :: "nat parser" where
  "read_port = parser_bind (read_given_char (CHR '':'')) (\<lambda>_. read_number 10 None True 65536)"

definition read_scope_id :: "nat parser" where
  "read_scope_id = parser_bind (read_given_char (CHR ''%'')) (\<lambda>_. read_number 10 None True (2 ^ 32))"

definition read_socket_addr_v4 :: "socket_addr parser" where
  "read_socket_addr_v4 =
     parser_bind read_ipv4_addr (\<lambda>(a, b, c, d). parser_bind read_port (\<lambda>port.
       parser_return (V4 (of_nat a) (of_nat b) (of_nat c) (of_nat d) (of_nat port))))"

definition read_socket_addr_v6 :: "socket_addr parser" where
  "read_socket_addr_v6 =
     parser_bind (read_given_char (CHR ''['')) (\<lambda>_.
     parser_bind read_ipv6_addr (\<lambda>groups.
     parser_bind (\<lambda>s. case read_scope_id s of None \<Rightarrow> Some (0, s) | Some r \<Rightarrow> Some r) (\<lambda>scope.
     parser_bind (read_given_char (CHR '']'')) (\<lambda>_.
     parser_bind read_port (\<lambda>port.
       parser_return (V6 (map of_nat groups) (of_nat scope) (of_nat port)))))))"

definition socket_addr_from_str :: "string \<Rightarrow> string + socket_addr" where
  "socket_addr_from_str s =
     (case (case read_socket_addr_v4 s of None \<Rightarrow> read_socket_addr_v6 s | Some r \<Rightarrow> Some r) of
        Some (addr, []) \<Rightarrow> Ok addr
      | _ \<Rightarrow> Err ''invalid socket address syntax'')"

text \<open>The \<open>Display\<close> text of an IPv4 socket address.\<close>

definition show_socket_addr_v4 :: "u8 \<Rightarrow> u8 \<Rightarrow> u8 \<Rightarrow> u8 \<Rightarrow> u16 \<Rightarrow> string" where
  "show_socket_addr_v4 a b c d port =
     show_nat (unat a) @ ''.'' @ show_nat (unat b) @ ''.'' @ show_nat (unat c) @ ''.'' @ show_nat (unat d)
       @ '':'' @ show_nat (unat port)"

lemma show_socket_addr_v4_nonempty: "show_socket_addr_v4 a b c d port \<noteq> []"
  by (simp add: show_socket_addr_v4_def)

lemma to_digit_10 [simp]: "to_digit 10 c = digit_val c"
  by (auto simp: to_digit_def digit_val_def Let_def)

lemma number_of_10: "read_digits acc ds = Some n \<Longrightarrow>
    foldl (\<lambda>acc c. 10 * acc + the (digit_val c)) acc ds = n"
  by (induction acc ds rule: read_digits.induct) (auto split: option.splits)

lemma takeWhile_show_nat:
  assumes "rest = [] \<or> \<not> is_digit (hd rest)"
  shows "takeWhile (\<lambda>c. digit_val c \<noteq> None) (show_nat n @ rest) = show_nat n"
proof -
  have "\<forall>c \<in> set (show_nat n). digit_val c \<noteq> None"
    using all_digits_show_nat [of n] by (simp add: all_digits_def list_all_iff is_digit_def)
  moreover have "takeWhile (\<lambda>c. digit_val c \<noteq> None) rest = []"
    using assms by (cases rest) (auto simp: is_digit_def)
  ultimately show ?thesis by (simp add: takeWhile_append2)
qed

text \<open>A decimal number in its usual notation is read whole, up to the next separator.\<close>

lemma read_number_show:
  assumes "rest = [] \<or> \<not> is_digit (hd rest)" and "n < limit"
    and "case max_digits of None \<Rightarrow> True | Some k \<Rightarrow> length (show_nat n) \<le> k"
  shows "read_number 10 max_digits allow limit (show_nat n @ rest) = Some (n, rest)"
proof -
  have v: "number_of 10 (show_nat n) = n"
    using number_of_10 [OF read_show_nat [of n]] by (simp add: number_of_def)
  have z: "\<not> (hd (show_nat n) = CHR ''0'' \<and> 1 < length (show_nat n))"
    using hd_show_nat [of n] show_nat_small [of 0] by (cases "n = 0") auto
  have ds: "takeWhile (\<lambda>c. to_digit 10 c \<noteq> None) (show_nat n @ rest) = show_nat n"
    unfolding to_digit_10 by (rule takeWhile_show_nat [OF assms(1)])
  show ?thesis
    using assms(2,3) z unfolding read_number_def Let_def ds v by (auto split: option.splits)
qed

lemma length_show_octet: "n < 256 \<Longrightarrow> length (show_nat n) \<le> 3"
  by (rule length_show_nat_le) simp_all

lemma read_given_char_Cons [simp]: "read_given_char c (c # s) = Some ((), s)"
  by (simp add: read_given_char_def)

lemma is_digit_separators [simp]: "\<not> is_digit (CHR ''.'')" "\<not> is_digit (CHR '':'')"
  by (simp_all add: is_digit_def digit_val_def)

lemma read_ipv4_addr_show:
  assumes "a < 256" "b < 256" "c < 256" "d < 256" and "rest = [] \<or> \<not> is_digit (hd rest)"
  shows "read_ipv4_addr (show_nat a @ ''.'' @ show_nat b @ ''.'' @ show_nat c @ ''.'' @ show_nat d @ rest)
    = Some ((a, b, c, d), rest)"
  using assms
  by (simp add: read_ipv4_addr_def Let_def parser_bind_def read_separator_def parser_return_def
      read_number_show length_show_octet)

lemma read_port_show:
  assumes "n < 65536"
  shows "read_port ('':'' @ show_nat n) = Some (n, [])"
  using assms read_number_show [of "[]" n 65536 None True]
  by (simp add: read_port_def parser_bind_def)

lemma socket_addr_v4_show:
  "socket_addr_from_str (show_socket_addr_v4 a b c d port) = Ok (V4 a b c d port)"
proof -
  have lt: "unat w < 256" for w :: u8 by (rule order.strict_trans2 [OF unsigned_less]) simp
  have "unat port < 65536" by (rule order.strict_trans2 [OF unsigned_less]) simp
  from read_ipv4_addr_show [OF lt lt lt lt, of "'':'' @ show_nat (unat port)" a b c d] read_port_show [OF this]
  have "read_socket_addr_v4 (show_socket_addr_v4 a b c d port) = Some (V4 a b c d port, [])"
    by (simp add: read_socket_addr_v4_def show_socket_addr_v4_def parser_bind_def parser_return_def)
  then show ?thesis by (simp add: socket_addr_from_str_def)
qed

end
