(* ===== verification/App.thy ===== *)
theory App
  imports Retry Importer Http Config
begin

text \<open>
  The composition root: \<open>run\<close> and \<open>serve\<close> of \<^verbatim>\<open>src/src/app.rs\<close>, and the process around them, \<open>main\<close> and the
  signal handling of \<^verbatim>\<open>src/src/main.rs\<close> and the logging setup of \<^verbatim>\<open>src/src/telemetry.rs\<close>.

  The record \<open>service_env\<close> collects what the service is run with: the chrono, reqwest, JSON and Postgres
  functions of the components, the answers of the database while starting, the surroundings of the
  importer, the faults of the reads, and \<open>server\<close>, which says for a router, a token and a start time with
  which result and when \<open>axum::serve\<close> returns, or \<open>None\<close> when it serves for ever. The router holds the
  repository that the importer writes to, so the server is given it for every state of the database. A token is the time of its cancellation.
  The results carry the state of the outside world, the database and the lifecycle events in order.
\<close>

section \<open>Environment\<close>

record ('dt, 'w, 'client, 'url, 'pool) service_env =
  env_chrono :: "'dt chrono"
  env_reqwest :: "('client, 'url, 'w) reqwest"
  env_from_slice :: "string \<Rightarrow> string + json list"
  env_postgres :: "'dt postgres"
  env_pg :: "'dt pg_db \<Rightarrow> 'dt pg_env"
  env_db :: "'pool db_env"
  env_run :: run_env
  local_addr :: "string + socket_addr"
  env_read :: "'dt pg_db \<Rightarrow> sqlx_error option"
  server :: "('dt pg_db \<Rightarrow> 'dt pg_db router) \<Rightarrow> nanos option \<Rightarrow> nanos \<Rightarrow> ((string + unit) \<times> nanos) option"

datatype app_error = StorageApp storage_error | SourceApp source_error | Serve string

datatype app_event =
    ConnectedToDatabase
  | MigrationsApplied
  | Listening socket_addr
  | ImporterEndedAbnormally string
  | ClosedPool
  | ShutdownComplete

section \<open>Serving\<close>

text \<open>The importer's token is cancelled from outside or by \<open>serve\<close> once the server has stopped.\<close>

definition importer_token :: "nanos option \<Rightarrow> nanos \<Rightarrow> nanos" where
  "importer_token token stopped = (case token of None \<Rightarrow> stopped | Some c \<Rightarrow> min c stopped)"

text \<open>The router that the server is given, on the repository of the importer.\<close>

definition service_router ::
  "('dt, 'w, 'client, 'url, 'pool) service_env \<Rightarrow> 'dt pg_db \<Rightarrow> 'dt pg_db router" where
  "service_router V = mk_router (env_chrono V) (pg_list (env_read V))"

definition serve ::
  "('dt, 'w, 'client, 'url, 'pool) service_env \<Rightarrow> 'url config \<Rightarrow> nanos option \<Rightarrow> nanos \<Rightarrow> 'w \<Rightarrow> 'dt pg_db
     \<Rightarrow> ((app_error + unit) \<times> 'w \<times> 'dt pg_db \<times> app_event list) option" where
  "serve V cfg token t w db =
     (case mempool_client_new (env_reqwest V) (mempool_url cfg) (http_client_timeout cfg) of
        Inl e \<Rightarrow> Some (Err (SourceApp e), w, db, [])
      | Inr client \<Rightarrow>
          (let listening = (case local_addr V of Inl _ \<Rightarrow> [] | Inr addr \<Rightarrow> [Listening addr]) in
           case server V (service_router V) token t of
             None \<Rightarrow> None
           | Some (served, stopped) \<Rightarrow>
               (let E = (env_run V)\<lparr>cancelled_at := Some (importer_token token stopped)\<rparr> in
                case importer_run E (fetch_nodes (env_chrono V) (env_reqwest V) (env_from_slice V) client)
                       (pg_replace (env_postgres V) (env_pg V)) (importer_new w db) (import_interval cfg) t of
                  None \<Rightarrow> None
                | Some (Panic m) \<Rightarrow>
                    Some (map_err Serve served, w, db,
                      listening @ [ImporterEndedAbnormally (join_error E m), ClosedPool, ShutdownComplete])
                | Some (Returned st) \<Rightarrow>
                    Some (map_err Serve served, source (importer st), repo (importer st),
                      listening @ [ClosedPool, ShutdownComplete]))))"

section \<open>Running\<close>

definition run ::
  "('dt, 'w, 'client, 'url, 'pool) service_env \<Rightarrow> 'url config \<Rightarrow> nanos option \<Rightarrow> nanos \<Rightarrow> 'w \<Rightarrow> 'dt pg_db
     \<Rightarrow> ((app_error + unit) \<times> 'w \<times> 'dt pg_db \<times> app_event list) option" where
  "run V cfg token t w db =
     (case connect_with_retry (env_db V) (database_url cfg) token t of
        None \<Rightarrow> None
      | Some r \<Rightarrow>
          (case outcome_of r of
             Inl e \<Rightarrow> Some (Err (StorageApp e), w, db, [])
           | Inr None \<Rightarrow> Some (Ok (), w, db, [])
           | Inr (Some pool) \<Rightarrow>
               (case migrate_with_retry (env_db V) token (finished_at r) db of
                  None \<Rightarrow> None
                | Some r' \<Rightarrow>
                    (case outcome_of r' of
                       Inl e \<Rightarrow> Some (Err (StorageApp e), w, left r', [ConnectedToDatabase])
                     | Inr None \<Rightarrow> Some (Ok (), w, left r', [ConnectedToDatabase, ClosedPool])
                     | Inr (Some _) \<Rightarrow>
                         map_option (\<lambda>(res, w', db', evs).
                             (res, w', db', [ConnectedToDatabase, MigrationsApplied] @ evs))
                           (serve V cfg token (finished_at r') w (left r'))))))"

section \<open>Logging\<close>

definition DEFAULT_FILTER :: string where
  "DEFAULT_FILTER = ''info,sqlx=warn''"

text \<open>The global subscriber, once installed, stays: its filter and whether it writes colours.\<close>

definition telemetry_init ::
  "string + 'filter \<Rightarrow> (string \<Rightarrow> 'filter) \<Rightarrow> bool \<Rightarrow> ('filter \<times> bool) option
     \<Rightarrow> (string + unit) \<times> ('filter \<times> bool) option" where
  "telemetry_init from_default_env filter_new is_terminal installed =
     (let flt = (case from_default_env of Inl _ \<Rightarrow> filter_new DEFAULT_FILTER | Inr f \<Rightarrow> f)
      in case installed of
           Some s \<Rightarrow> (Err ''a global default trace dispatcher has already been set'', Some s)
         | None \<Rightarrow> (Ok (), Some (flt, is_terminal)))"

section \<open>The process\<close>

text \<open>When a signal stream completes: at its first signal, or never when it cannot be listened to.\<close>

fun signal_future :: "string + nanos option \<Rightarrow> nanos option" where
  "signal_future (Inl err) = None"
| "signal_future (Inr at) = at"

definition cancel_on_shutdown_signal :: "string + nanos option \<Rightarrow> string + nanos option \<Rightarrow> nanos option" where
  "cancel_on_shutdown_signal ctrl_c terminate =
     (case (signal_future ctrl_c, signal_future terminate) of
        (None, x) \<Rightarrow> x | (x, None) \<Rightarrow> x | (Some a, Some b) \<Rightarrow> Some (min a b))"

datatype exit_code = SUCCESS | FAILURE

datatype main_event =
    LoggingFailed string
  | InvalidConfiguration config_error
  | ConfigurationLoaded "(string \<times> debug_value) list"
  | BindFailed string socket_addr
  | ServiceStopped app_error
  | AppEvent app_event

definition main ::
  "('dt, 'w, 'client, 'url, 'pool) service_env \<Rightarrow> 'url url_api \<Rightarrow> (string + unit)
     \<Rightarrow> (string \<Rightarrow> var_error + string) \<Rightarrow> (socket_addr \<Rightarrow> string + unit)
     \<Rightarrow> string + nanos option \<Rightarrow> string + nanos option \<Rightarrow> nanos \<Rightarrow> 'w \<Rightarrow> 'dt pg_db
     \<Rightarrow> (exit_code \<times> 'w \<times> 'dt pg_db \<times> main_event list) option" where
  "main V U logging var bind_listener ctrl_c terminate t w db =
     (case logging of
        Inl err \<Rightarrow> Some (FAILURE, w, db, [LoggingFailed err])
      | Inr _ \<Rightarrow>
          (case from_env U var of
             Inl err \<Rightarrow> Some (FAILURE, w, db, [InvalidConfiguration err])
           | Inr cfg \<Rightarrow>
               (let loaded = ConfigurationLoaded (config_debug U cfg) in
                case bind_listener (bind_addr cfg) of
                  Inl err \<Rightarrow> Some (FAILURE, w, db, [loaded, BindFailed err (bind_addr cfg)])
                | Inr _ \<Rightarrow>
                    map_option (\<lambda>(res, w', db', evs).
                        (case res of
                           Inr _ \<Rightarrow> (SUCCESS, w', db', loaded # map AppEvent evs)
                         | Inl err \<Rightarrow> (FAILURE, w', db', loaded # map AppEvent evs @ [ServiceStopped err])))
                      (run V cfg (cancel_on_shutdown_signal ctrl_c terminate) t w db))))"

section \<open>What the importer leaves in the database\<close>

text \<open>A list of nodes that a response of the source carried: the acceptable records of a decoded body.\<close>

definition from_response :: "'dt chrono \<Rightarrow> (string \<Rightarrow> string + json list) \<Rightarrow> 'dt node list \<Rightarrow> bool" where
  "from_response C from_slice ns \<longleftrightarrow> ns \<noteq> [] \<and> (\<forall>n \<in> set ns. valid_node C n) \<and>
     (\<exists>bytes records. from_slice bytes = Ok records \<and> ns = List.map_filter (accept C) records)"

lemma fetch_nodes_records:
  "fetch_nodes C R from_slice client w = (Returned (Ok ns), w') \<Longrightarrow>
     \<exists>bytes records. from_slice bytes = Ok records \<and> ns = List.map_filter (accept C) records"
  by (auto simp: fetch_nodes_def decode_response_cases result_simps split: prod.splits if_splits)

context chrono_api
begin

lemma importer_origin:
  assumes "run_reaches E (fetch_nodes C R from_slice client) (pg_replace P F) interval st0 st"
    and "pg_inv (repo (importer st0))"
  shows "pg_inv (repo (importer st)) \<and> (snapshot (repo (importer st)) = snapshot (repo (importer st0)) \<or>
    (\<exists>ns. from_response C from_slice ns \<and> snapshot (repo (importer st)) = map (stored P) ns))"
proof -
  have sound: "mempool_pg.sound (importer st0)" using assms(2) by (simp add: mempool_pg.sound_def)
  have "from_response C from_slice ns"
    if "import_pair.delivered (fetch_nodes C R from_slice client) (valid_node C) ns" for ns
    using that unfolding mempool_pg.delivered_def from_response_def by (auto dest!: fetch_nodes_records)
  with mempool_pg.reach_origin [OF assms(1) sound] mempool_pg.reach_sound [OF assms(1) sound]
  show ?thesis by (auto simp: mempool_pg.sound_def)
qed

end

lemma importer_run_Returned:
  assumes "importer_run E fetch replace self interval t = Some (Returned st)"
  shows "\<exists>st'. run_reaches E fetch replace interval (run_start self interval t) st' \<and> importer st = importer st'"
  using assms by (auto simp: importer_run_def loop_step_Break split: if_splits dest!: run_loop_final)

lemma importer_run_returns:
  assumes "tokio_interval (next_tick E) slack" and "cancelled_at E = Some c" and "0 < interval"
    and "\<forall>i. took E i \<noteq> None"
  shows "\<exists>st. importer_run E fetch replace self interval t = Some (Returned st)"
  using run_loop_returns [OF assms] assms(3) by (fastforce simp: importer_run_def)

lemma serve_returns:
  assumes "tokio_interval (next_tick (env_run V)) slack" and "\<forall>i. took (env_run V) i \<noteq> None"
    and "0 < import_interval cfg"
    and "mempool_client_new (env_reqwest V) (mempool_url cfg) (http_client_timeout cfg) = Ok client"
    and "server V (service_router V) token t = Some (served, stopped)"
  shows "\<exists>w' db' evs. serve V cfg token t w db = Some (map_err Serve served, w', db', evs @ [ClosedPool, ShutdownComplete])
    \<and> (\<forall>m. ImporterEndedAbnormally m \<notin> set evs)"
proof -
  let ?E = "(env_run V)\<lparr>cancelled_at := Some (importer_token token stopped)\<rparr>"
  obtain st where "importer_run ?E (fetch_nodes (env_chrono V) (env_reqwest V) (env_from_slice V) client)
      (pg_replace (env_postgres V) (env_pg V)) (importer_new w db) (import_interval cfg) t = Some (Returned st)"
    using importer_run_returns [of ?E slack "importer_token token stopped" "import_interval cfg"
        "fetch_nodes (env_chrono V) (env_reqwest V) (env_from_slice V) client"
        "pg_replace (env_postgres V) (env_pg V)" "importer_new w db" t] assms(1,2,3) by auto
  with assms(4,5) show ?thesis by (auto simp: serve_def Let_def split: sum.splits)
qed

lemma serve_origin:
  assumes "chrono_api (env_chrono V)" and "serve V cfg token t w db = Some (res, w', db', evs)" and "pg_inv db"
  shows "pg_inv db' \<and> (snapshot db' = snapshot db \<or>
    (\<exists>ns. from_response (env_chrono V) (env_from_slice V) ns \<and> snapshot db' = map (stored (env_postgres V)) ns))"
proof -
  consider "db' = db" | client E st where "importer_run E (fetch_nodes (env_chrono V) (env_reqwest V)
      (env_from_slice V) client) (pg_replace (env_postgres V) (env_pg V)) (importer_new w db)
      (import_interval cfg) t = Some (Returned st)" "db' = repo (importer st)"
    using assms(2) by (auto simp: serve_def Let_def split: sum.splits option.splits prod.splits outcome.splits)
  then show ?thesis
  proof cases
    case 2
    then obtain st' where "run_reaches E (fetch_nodes (env_chrono V) (env_reqwest V) (env_from_slice V) client)
        (pg_replace (env_postgres V) (env_pg V)) (import_interval cfg)
        (run_start (importer_new w db) (import_interval cfg) t) st'" "importer st = importer st'"
      using importer_run_Returned by blast
    with chrono_api.importer_origin [OF assms(1) this(1)] 2(2) assms(3) show ?thesis
      by (simp add: importer_new_def)
  qed (simp add: assms(3))
qed

lemma run_cases:
  assumes "run V cfg token t w db = Some (res, w', db', evs)"
  obtains
    (not_connected) r where "connect_with_retry (env_db V) (database_url cfg) token t = Some r"
      and "res = map_sum StorageApp (\<lambda>_. ()) (outcome_of r)" and "\<nexists>p. outcome_of r = Ok (Some p)"
      and "db' = db" and "evs = []"
  | (not_migrated) r r' where "connect_with_retry (env_db V) (database_url cfg) token t = Some r"
      and "migrate_with_retry (env_db V) token (finished_at r) db = Some r'"
      and "res = map_sum StorageApp (\<lambda>_. ()) (outcome_of r')" and "\<nexists>u. outcome_of r' = Ok (Some u)"
      and "db' = left r'"
  | (served) r r' evs' where "connect_with_retry (env_db V) (database_url cfg) token t = Some r"
      and "migrate_with_retry (env_db V) token (finished_at r) db = Some r'"
      and "serve V cfg token (finished_at r') w (left r') = Some (res, w', db', evs')"
  using assms unfolding run_def
  by (auto split: option.splits sum.splits prod.splits)

section \<open>Properties of the service\<close>

text \<open>A concrete service for the witnesses: a source that always delivers the challenge's example, a database that comes
  up after a while, tokio's timer, and a server that stops when its token is cancelled.\<close>

definition test_service :: "(int, nat, unit, simple_url, string) service_env" where
  "test_service =
     \<lparr>env_chrono = utc_chrono,
      env_reqwest = \<lparr>build = (\<lambda>_ _. Ok ()),
        send = (\<lambda>_ _ n. (Ok \<lparr>status = 200, body = Ok ''[]''\<rparr>, Suc n))\<rparr>,
      env_from_slice = (\<lambda>_. Ok challenge_example),
      env_postgres = plain_postgres, env_pg = (\<lambda>_. quiet_env 0),
      env_db = test_db, env_run = test_env, local_addr = Ok (V4 0 0 0 0 3000),
      env_read = (\<lambda>_. None), server = (\<lambda>_ token t. map_option (\<lambda>c. (Ok (), max t c)) token)\<rparr>"

definition test_config :: "simple_url config" where
  "test_config = projr (from_lookup simple_urls (map_of test_vars))"

lemma test_service_timer: "tokio_interval (next_tick (env_run test_service)) 5000000"
  using tokio.tokio_interval_axioms by (simp add: test_service_def test_env_def)

lemma test_config_interval: "0 < import_interval test_config"
  by (simp add: test_config_def from_lookup_example)

lemma test_service_client: "mempool_client_new (env_reqwest test_service) (mempool_url test_config)
    (http_client_timeout test_config) = Ok \<lparr>http = (), url = mempool_url test_config\<rparr>"
  by (simp add: mempool_client_new_def test_service_def)

lemma test_service_imports: "\<forall>i. took (env_run test_service) i \<noteq> None"
  by (simp add: test_service_def test_env_def)

text \<open>
  C27. An orderly end: once the HTTP server has stopped, because the token was cancelled or because it
  failed, \<open>serve\<close> stops the importer, waits for it, closes the pool and returns the server's own result,
  provided that the import it waits for finishes; the importer never ends abnormally, since a loaded
  configuration has a positive interval.
\<close>

theorem serve_shuts_down:
  assumes "tokio_interval (next_tick (env_run V)) slack" and "\<forall>i. took (env_run V) i \<noteq> None"
    and "from_lookup U lookup = Ok cfg"
    and "mempool_client_new (env_reqwest V) (mempool_url cfg) (http_client_timeout cfg) = Ok client"
    and "server V (service_router V) token t = Some (served, stopped)"
  shows "\<exists>w' db' evs. serve V cfg token t w db = Some (map_err Serve served, w', db', evs @ [ClosedPool, ShutdownComplete])
    \<and> (\<forall>m. ImporterEndedAbnormally m \<notin> set evs)"
  by (rule serve_returns [OF assms(1,2) _ assms(4,5)]) (rule from_lookup_interval [OF assms(3)])

lemma test_config_loaded: "from_lookup simple_urls (map_of test_vars) = Ok test_config"
  by (simp add: test_config_def from_lookup_example)

lemma serve_shuts_down_witness:
  "\<exists>w' db' evs. serve test_service test_config (Some 7) 0 0 \<lparr>relation = Some [], calls = 0\<rparr> =
     Some (Ok (), w', db', evs @ [ClosedPool, ShutdownComplete])"
proof -
  have "server test_service (service_router test_service) (Some 7) 0 = Some (Ok (), 7)" by (simp add: test_service_def)
  from serve_shuts_down [OF test_service_timer test_service_imports test_config_loaded test_service_client this, of 0]
  show ?thesis by fastforce
qed



text \<open>
  C9. Nothing but the source's data enters the database: whatever \<open>run\<close> reports and whatever faults the
  database had, lost acknowledgements included, the table satisfies its constraints at the end and its
  snapshot is the one from before or the complete, non-empty list of valid nodes of one response.
\<close>

theorem run_keeps_database_sound:
  assumes "chrono_api (env_chrono V)" and "run V cfg token t w db = Some (res, w', db', evs)" and "pg_inv db"
  shows "pg_inv db' \<and> (snapshot db' = snapshot db \<or>
    (\<exists>ns. from_response (env_chrono V) (env_from_slice V) ns \<and> snapshot db' = map (stored (env_postgres V)) ns))"
  using assms(2)
proof (cases rule: run_cases)
  case (not_migrated r r')
  with migrate_with_retry_keeps assms(3) show ?thesis by metis
next
  case (served r r' evs')
  with migrate_with_retry_keeps [OF served(2)] assms(3)
  have "pg_inv (left r')" "snapshot (left r') = snapshot db" by auto
  with serve_origin [OF assms(1) served(3)] show ?thesis by simp
qed (simp add: assms(3))

lemma run_keeps_database_sound_witness:
  "\<exists>res w' db' evs. run test_service test_config (Some 0) 0 0 \<lparr>relation = Some [], calls = 0\<rparr> =
     Some (res, w', db', evs) \<and> pg_inv db'"
proof -
  let ?db = "\<lparr>relation = Some [], calls = 0\<rparr> :: int pg_db"
  have r: "run test_service test_config (Some 0) 0 0 ?db = Some (Ok (), 0, ?db, [])"
    by (simp add: run_def connect_with_retry_def retry_def retry_from_cancelled is_cancelled_def)
  have "chrono_api (env_chrono test_service)"
    using utc.chrono_api_axioms by (simp add: test_service_def)
  from run_keeps_database_sound [OF this r] have "pg_inv ?db" by (simp add: pg_inv_def table_ok_def)
  with r show ?thesis by blast
qed

lemma serve_returns_always:
  assumes "tokio_interval (next_tick (env_run V)) slack" and "\<forall>i. took (env_run V) i \<noteq> None"
    and "0 < import_interval cfg" and "server V (service_router V) token t \<noteq> None"
  shows "\<exists>x. serve V cfg token t w db = Some x"
proof (cases "mempool_client_new (env_reqwest V) (mempool_url cfg) (http_client_timeout cfg)")
  case (Inl e)
  then show ?thesis by (simp add: serve_def)
next
  case (Inr client)
  obtain served stopped where "server V (service_router V) token t = Some (served, stopped)" using assms(4) by fastforce
  from serve_returns [OF assms(1-3) Inr this, of w db] show ?thesis by blast
qed

lemma run_returns_always:
  assumes "tokio_interval (next_tick (env_run V)) slack" and "\<forall>i. took (env_run V) i \<noteq> None"
    and "0 < import_interval cfg"
    and "\<forall>t. server V (service_router V) (Some c) t \<noteq> None"
  shows "\<exists>x. run V cfg (Some c) t w db = Some x"
proof -
  obtain r where r: "connect_with_retry (env_db V) (database_url cfg) (Some c) t = Some r"
    using connect_with_retry_cancelled [of "env_db V" "database_url cfg" c t] by blast
  obtain r' where r': "migrate_with_retry (env_db V) (Some c) (finished_at r) db = Some r'"
    using migrate_with_retry_cancelled [of "env_db V" c "finished_at r" db] by blast
  obtain x where "serve V cfg (Some c) (finished_at r') w (left r') = Some x"
    using serve_returns_always [OF assms(1-3), of "Some c" "finished_at r'" w "left r'"] assms(4) by blast
  with r r' show ?thesis by (cases x) (simp add: run_def split: option.splits sum.splits)
qed

text \<open>
  C28. The process ends on SIGINT or SIGTERM, when the server stops once its token is cancelled and the
  imports finish: if either signal arrives, also when the other one cannot be listened to, \<open>main\<close> returns
  an exit code. When the logging, the configuration or the address is at
  fault, the code is \<open>FAILURE\<close> and neither the source nor the database has been touched; otherwise the
  configuration it logs has its password redacted, and it reports \<open>SUCCESS\<close> exactly when \<open>run\<close> does.
\<close>

theorem main_exits_on_signal:
  assumes "tokio_interval (next_tick (env_run V)) slack" and "\<forall>i. took (env_run V) i \<noteq> None"
    and "\<forall>c t. server V (service_router V) (Some c) t \<noteq> None"
    and "ctrl_c = Ok (Some a) \<or> terminate = Ok (Some a)"
  shows "\<exists>code w' db' evs. main V U logging var bind_listener ctrl_c terminate t w db = Some (code, w', db', evs)
    \<and> (case (logging, from_env U var) of
         (Inr _, Inr cfg) \<Rightarrow>
           hd evs = ConfigurationLoaded (config_debug U cfg) \<and>
           (if bind_listener (bind_addr cfg) = Ok ()
            then \<exists>c \<le> a. \<exists>res evs'. run V cfg (Some c) t w db = Some (res, w', db', evs')
              \<and> (code = SUCCESS \<longleftrightarrow> res = Ok ())
            else code = FAILURE \<and> w' = w \<and> db' = db)
       | _ \<Rightarrow> code = FAILURE \<and> w' = w \<and> db' = db)"
proof -
  obtain c where c: "cancel_on_shutdown_signal ctrl_c terminate = Some c" "c \<le> a"
    using assms(4) by (cases "signal_future ctrl_c"; cases "signal_future terminate")
      (auto simp: cancel_on_shutdown_signal_def)
  show ?thesis
  proof (cases "\<exists>cfg. logging = Ok () \<and> from_env U var = Ok cfg \<and> bind_listener (bind_addr cfg) = Ok ()")
    case False
    then show ?thesis by (auto simp: main_def Let_def split: sum.splits)
  next
    case True
    then obtain cfg where cfg: "logging = Ok ()" "from_env U var = Ok cfg" "bind_listener (bind_addr cfg) = Ok ()"
      by blast
    from cfg(2) have "0 < import_interval cfg" unfolding from_env_def by (rule from_lookup_interval)
    then obtain res w' db' evs where "run V cfg (Some c) t w db = Some (res, w', db', evs)"
      using run_returns_always [OF assms(1,2), of cfg c t w db] assms(3) by auto
    with cfg c show ?thesis by (cases res) (auto simp: main_def Let_def)
  qed
qed

lemma main_exits_on_signal_witness:
  "\<exists>code w' db' evs. main test_service simple_urls (Ok ())
      (\<lambda>key. case map_of test_vars key of None \<Rightarrow> Err NotPresent | Some v \<Rightarrow> Ok v) (\<lambda>_. Ok ())
      (Err ''no handler'') (Ok (Some 500000000)) 0 0 \<lparr>relation = None, calls = 0\<rparr> = Some (code, w', db', evs)"
proof -
  have s: "\<forall>c t. server test_service (service_router test_service) (Some c) t \<noteq> None" by (simp add: test_service_def)
  show ?thesis
    using main_exits_on_signal [OF test_service_timer test_service_imports s, of "Err ''no handler''" 500000000
        "Ok (Some 500000000)" simple_urls "Ok ()"
        "\<lambda>key. case map_of test_vars key of None \<Rightarrow> Err NotPresent | Some v \<Rightarrow> Ok v" "\<lambda>_. Ok ()" 0 0
        "\<lparr>relation = None, calls = 0\<rparr>"] by blast
qed

end
