(* ===== verification/Json_Text.thy ===== *)
theory Json_Text
  imports Http
begin

text \<open>
  The text of JSON bodies. \<open>axum::Json\<close> writes a body with serde_json, which is not the crate's code:
  the locale \<open>json_codec\<close> has a printer and a reader of JSON texts and the law that reading a printed
  value gives the value back. The law is stated for values without floating-point numbers, which the
  service never sends, and is interpreted on the compact printer \<open>print_json\<close> and the reader
  \<open>read_json\<close> of this theory.

  On top of it are the bodies of the service as a client receives them, and the schema they follow.
\<close>

section \<open>A printer\<close>

definition short_escapes :: "(char \<times> char) list" where
  "short_escapes =
     [(CHR 0x22, CHR 0x22), (CHR 0x5C, CHR 0x5C), (CHR 0x08, CHR ''b''), (CHR 0x09, CHR ''t''),
      (CHR 0x0A, CHR ''n''), (CHR 0x0C, CHR ''f''), (CHR 0x0D, CHR ''r'')]"

definition hex_char :: "nat \<Rightarrow> char" where
  "hex_char d = ''0123456789abcdef'' ! (d mod 16)"

definition hex_val :: "char \<Rightarrow> nat option" where
  "hex_val c = map_of (zip ''0123456789abcdefABCDEF'' ([0..<16] @ [10..<16])) c"

definition is_control :: "char \<Rightarrow> bool" where
  "is_control c \<longleftrightarrow> of_char c < (32 :: nat)"

definition escape_char :: "char \<Rightarrow> string" where
  "escape_char c =
     (case map_of short_escapes c of
        Some e \<Rightarrow> [CHR 0x5C, e]
      | None \<Rightarrow>
          if is_control c
          then [CHR 0x5C, CHR ''u'', CHR ''0'', CHR ''0'', hex_char (of_char c div 16), hex_char (of_char c mod 16)]
          else [c])"

definition print_string :: "string \<Rightarrow> string" where
  "print_string s = [CHR 0x22] @ concat (map escape_char s) @ [CHR 0x22]"

fun commas :: "string list \<Rightarrow> string" where
  "commas [] = []"
| "commas [x] = x"
| "commas (x # xs) = x @ '','' @ commas xs"

fun print_json :: "json \<Rightarrow> string" where
  "print_json JNull = ''null''"
| "print_json (JBool b) = (if b then ''true'' else ''false'')"
| "print_json (JNumber (PosInt u)) = show_nat (unat u)"
| "print_json (JNumber (NegInt i)) = show_int (sint i)"
| "print_json (JNumber (Float _)) = ''null''"
| "print_json (JString s) = print_string s"
| "print_json (JArray vs) = ''['' @ commas (map print_json vs) @ '']''"
| "print_json (JObject es) = ''{'' @ commas (map (\<lambda>(k, v). print_string k @ '':'' @ print_json v) es) @ ''}''"

section \<open>A reader\<close>

definition is_ws :: "char \<Rightarrow> bool" where
  "is_ws c \<longleftrightarrow> c \<in> set [CHR 0x20, CHR 0x09, CHR 0x0A, CHR 0x0D]"

definition skip_ws :: "string \<Rightarrow> string" where
  "skip_ws s = dropWhile is_ws s"

definition expect :: "char \<Rightarrow> string \<Rightarrow> string option" where
  "expect c s = (case skip_ws s of [] \<Rightarrow> None | d # r \<Rightarrow> if d = c then Some r else None)"

text \<open>The rest of a string literal after the opening quote. Escapes beyond ASCII are refused.\<close>

fun read_string :: "string \<Rightarrow> (string \<times> string) option" where
  "read_string [] = None"
| "read_string (c # r) =
     (if c = CHR 0x22 then Some ([], r)
      else if c = CHR 0x5C then
        (case r of
           [] \<Rightarrow> None
         | e # r1 \<Rightarrow>
             (if e = CHR ''u'' then
                (case r1 of
                   a # b # h # l # r2 \<Rightarrow>
                     (case (hex_val a, hex_val b, hex_val h, hex_val l) of
                        (Some 0, Some 0, Some x, Some y) \<Rightarrow>
                          if x < 8 then map_option (apfst ((#) (char_of (16 * x + y)))) (read_string r2) else None
                      | _ \<Rightarrow> None)
                 | _ \<Rightarrow> None)
              else
                (case map_of (map prod.swap short_escapes @ [(CHR ''/'', CHR ''/'')]) e of
                   None \<Rightarrow> None
                 | Some d \<Rightarrow> map_option (apfst ((#) d)) (read_string r1))))
      else if is_control c then None
      else map_option (apfst ((#) c)) (read_string r))"

definition read_natural :: "string \<Rightarrow> (nat \<times> string) option" where
  "read_natural s =
     (let ds = takeWhile is_digit s
      in if ds = [] \<or> hd ds = CHR ''0'' \<and> ds \<noteq> ''0'' then None
         else map_option (\<lambda>n. (n, dropWhile is_digit s)) (read_digits 0 ds))"

definition number_ends :: "string \<Rightarrow> bool" where
  "number_ends s \<longleftrightarrow> (case s of [] \<Rightarrow> True | c # _ \<Rightarrow> \<not> is_digit c \<and> c \<notin> set ''.eE'')"

definition read_number_json :: "string \<Rightarrow> (json \<times> string) option" where
  "read_number_json s =
     (if s \<noteq> [] \<and> hd s = CHR ''-'' then
        (case read_natural (tl s) of
           Some (n, r) \<Rightarrow>
             if number_ends r \<and> 0 < n \<and> n \<le> 2 ^ 63 then Some (JNumber (NegInt (- of_nat n)), r) else None
         | None \<Rightarrow> None)
      else
        (case read_natural s of
           Some (n, r) \<Rightarrow> if number_ends r \<and> n < 2 ^ 64 then Some (JNumber (PosInt (of_nat n)), r) else None
         | None \<Rightarrow> None))"

fun read_value :: "nat \<Rightarrow> string \<Rightarrow> (json \<times> string) option"
  and read_elements :: "nat \<Rightarrow> string \<Rightarrow> (json list \<times> string) option"
  and read_members :: "nat \<Rightarrow> string \<Rightarrow> ((string \<times> json) list \<times> string) option" where
  "read_value 0 s = None"
| "read_value (Suc n) s =
     (let s' = skip_ws s in
      case expect (CHR 0x22) s' of Some r \<Rightarrow> map_option (apfst JString) (read_string r)
    | None \<Rightarrow> (case expect (CHR ''['') s' of
        Some r \<Rightarrow> (case expect (CHR '']'') r of
            Some r' \<Rightarrow> Some (JArray [], r')
          | None \<Rightarrow> map_option (apfst JArray) (read_elements n r))
    | None \<Rightarrow> (case expect (CHR ''{'') s' of
        Some r \<Rightarrow> (case expect (CHR ''}'') r of
            Some r' \<Rightarrow> Some (JObject [], r')
          | None \<Rightarrow> map_option (apfst JObject) (read_members n r))
    | None \<Rightarrow>
        if take 4 s' = ''null'' then Some (JNull, drop 4 s')
        else if take 4 s' = ''true'' then Some (JBool True, drop 4 s')
        else if take 5 s' = ''false'' then Some (JBool False, drop 5 s')
        else read_number_json s')))"
| "read_elements 0 s = None"
| "read_elements (Suc n) s =
     Option.bind (read_value n s) (\<lambda>(v, r).
       case expect (CHR '','') r of
         Some r' \<Rightarrow> map_option (apfst ((#) v)) (read_elements n r')
       | None \<Rightarrow> map_option (Pair [v]) (expect (CHR '']'') r))"
| "read_members 0 s = None"
| "read_members (Suc n) s =
     Option.bind (expect (CHR 0x22) s) (\<lambda>r0.
     Option.bind (read_string r0) (\<lambda>(k, r1).
     Option.bind (expect (CHR '':'') r1) (\<lambda>r2.
     Option.bind (read_value n r2) (\<lambda>(v, r3).
       case expect (CHR '','') r3 of
         Some r4 \<Rightarrow> map_option (apfst ((#) (k, v))) (read_members n r4)
       | None \<Rightarrow> map_option (Pair [(k, v)]) (expect (CHR ''}'') r3)))))"

definition read_json :: "string \<Rightarrow> string + json" where
  "read_json s =
     (case read_value (Suc (length s)) s of
        Some (v, r) \<Rightarrow> if skip_ws r = [] then Ok v else Err ''trailing characters''
      | None \<Rightarrow> Err ''expected value'')"

section \<open>Reading what was printed\<close>

text \<open>The values the law is about: no floating-point number, negative numbers in their own variant, and
  no object with a repeated key.\<close>

fun plain :: "json \<Rightarrow> bool" where
  "plain (JNumber (PosInt _)) = True"
| "plain (JNumber (NegInt i)) = (sint i < 0)"
| "plain (JNumber (Float _)) = False"
| "plain (JArray vs) = list_all plain vs"
| "plain (JObject es) = (distinct (map fst es) \<and> list_all (\<lambda>e. plain (snd e)) es)"
| "plain _ = True"

lemma skip_ws_Cons [simp]: "\<not> is_ws c \<Longrightarrow> skip_ws (c # r) = c # r"
  by (simp add: skip_ws_def)

lemma expect_Cons [simp]: "\<not> is_ws c \<Longrightarrow> expect d (c # r) = (if c = d then Some r else None)"
  by (simp add: expect_def)

lemma hex_val_hex_char: "d < 16 \<Longrightarrow> hex_val (hex_char d) = Some d"
proof -
  have "\<forall>d \<in> set [0..<16]. hex_val (hex_char d) = Some d" by code_simp
  then show "d < 16 \<Longrightarrow> hex_val (hex_char d) = Some d" by simp
qed

lemma read_escape_char: "read_string (escape_char c @ r) = map_option (apfst ((#) c)) (read_string r)"
proof (cases "map_of short_escapes c")
  case (Some e)
  then have "(c, e) \<in> set short_escapes" by (rule map_of_SomeD)
  with Some show ?thesis by (auto simp: escape_char_def short_escapes_def)
next
  case None
  show ?thesis
  proof (cases "is_control c")
    case True
    then have "of_char c div 16 < (8 :: nat)" "of_char c mod 16 < (16 :: nat)"
      by (auto simp: is_control_def)
    moreover have "hex_val (CHR ''0'') = Some 0" by code_simp
    ultimately show ?thesis using None True
      by (simp add: escape_char_def hex_val_hex_char)
  next
    case False
    from None have "c \<noteq> CHR 0x22" "c \<noteq> CHR 0x5C" by (auto simp: short_escapes_def)
    with None False show ?thesis by (simp add: escape_char_def)
  qed
qed

lemma read_printed_string: "read_string (concat (map escape_char s) @ CHR 0x22 # r) = Some (s, r)"
  by (induction s) (simp_all add: read_escape_char)

lemma read_printed_natural:
  assumes "number_ends r"
  shows "read_natural (show_nat n @ r) = Some (n, r)"
proof -
  have "takeWhile is_digit (show_nat n @ r) = show_nat n" "dropWhile is_digit (show_nat n @ r) = r"
    using all_digits_show_nat [of n] assms
    by (cases r; simp add: number_ends_def takeWhile_digits_append dropWhile_digits_append
        all_digits_def list_all_iff)+
  moreover have "hd (show_nat n) = CHR ''0'' \<Longrightarrow> show_nat n = ''0''"
    using hd_show_nat [of n] by (cases "n = 0") (auto simp: show_nat_small digit_char_zero)
  ultimately show ?thesis by (auto simp: read_natural_def Let_def)
qed

lemma show_nat_Cons: obtains c cs where "show_nat n = c # cs" "is_digit c"
  using all_digits_show_nat [of n] by (cases "show_nat n") auto

lemma is_digit_not: "is_digit c \<Longrightarrow> \<not> is_ws c \<and> c \<notin> set ''-nft{}[]:,'' \<and> c \<noteq> CHR 0x22"
  by (auto simp: is_digit_def digit_val_def is_ws_def Let_def split: if_splits)

lemma read_printed_number:
  assumes "plain (JNumber k)" and "number_ends r"
  shows "read_number_json (print_json (JNumber k) @ r) = Some (JNumber k, r)"
proof (cases k)
  case (PosInt u)
  obtain c cs where c: "show_nat (unat u) = c # cs" "is_digit c" by (rule show_nat_Cons)
  have "unat u < 2 ^ 64" using unsigned_less [where w = u] by simp
  with c is_digit_not [OF c(2)] PosInt assms(2) read_printed_natural [OF assms(2), of "unat u"] show ?thesis
    by (auto simp: read_number_json_def)
next
  case (NegInt i)
  with assms have neg: "sint i < 0" by simp
  moreover have "- (2 ^ 63) \<le> sint i" using sint_ge [of i] by simp
  ultimately have "0 < nat (- sint i)" "nat (- sint i) \<le> 2 ^ 63" by auto
  moreover have "- of_nat (nat (- sint i)) = i" using neg by simp
  ultimately show ?thesis
    using NegInt neg assms(2) read_printed_natural [OF assms(2), of "nat (- sint i)"]
    by (simp add: read_number_json_def show_int_def)
qed (use assms in simp)

lemma print_json_Cons: obtains c cs where "print_json v = c # cs" "\<not> is_ws c" "c \<notin> set '']}''"
proof (cases v)
  case (JNumber k)
  show thesis
  proof (cases k)
    case (PosInt u)
    obtain c cs where "show_nat (unat u) = c # cs" "is_digit c" by (rule show_nat_Cons)
    with is_digit_not [of c] JNumber PosInt show thesis by (intro that [of c cs]) auto
  next
    case (NegInt i)
    obtain c cs where "show_nat (nat (sint i)) = c # cs" "is_digit c" by (rule show_nat_Cons)
    with is_digit_not [of c] JNumber NegInt show thesis
      by (cases "sint i < 0"; intro that [of "if sint i < 0 then CHR ''-'' else c"
            "if sint i < 0 then show_nat (nat (- sint i)) else cs"]) (auto simp: show_int_def is_ws_def)
  qed (use that JNumber in \<open>auto simp: is_ws_def\<close>)
next
  case (JBool b)
  then show thesis by (intro that [of "if b then CHR ''t'' else CHR ''f''" "if b then ''rue'' else ''alse''"])
      (auto simp: is_ws_def)
qed (use that in \<open>auto simp: is_ws_def print_string_def\<close>)

lemma separators [simp]:
  "\<not> is_ws (CHR '','')" "\<not> is_ws (CHR '']'')" "\<not> is_ws (CHR ''}'')" "\<not> is_ws (CHR '':'')" "\<not> is_ws (CHR 0x22)"
  "\<not> is_ws (CHR ''['')" "\<not> is_ws (CHR ''{'')"
  "number_ends (CHR '','' # r)" "number_ends (CHR '']'' # r)" "number_ends (CHR ''}'' # r)" "number_ends []"
  by (simp_all add: is_ws_def number_ends_def is_digit_def digit_val_def)

lemma commas_Cons: "xs \<noteq> [] \<Longrightarrow> commas (x # xs) = x @ '','' @ commas xs"
  by (cases xs) simp_all

definition readable :: "json \<Rightarrow> bool" where
  "readable v \<longleftrightarrow> (\<forall>n r. length (print_json v) \<le> n \<longrightarrow> number_ends r \<longrightarrow> read_value n (print_json v @ r) = Some (v, r))"

lemma readableD:
  "readable v \<Longrightarrow> length (print_json v) \<le> n \<Longrightarrow> number_ends r \<Longrightarrow> read_value n (print_json v @ r) = Some (v, r)"
  by (simp add: readable_def)

lemma read_printed_elements:
  assumes "\<forall>v \<in> set vs. readable v" and "vs \<noteq> []" and "length (commas (map print_json vs)) < n"
  shows "read_elements n (commas (map print_json vs) @ CHR '']'' # r) = Some (vs, r)"
  using assms
proof (induction vs arbitrary: n)
  case (Cons v vs)
  then obtain m where m: "n = Suc m" by (cases n) auto
  show ?case
  proof (cases "vs = []")
    case True
    with Cons m show ?thesis by (simp add: readableD)
  next
    case False
    with Cons m show ?thesis by (simp add: commas_Cons readableD)
  qed
qed simp

definition print_member :: "string \<times> json \<Rightarrow> string" where
  "print_member = (\<lambda>(k, v). print_string k @ '':'' @ print_json v)"

lemma read_printed_members:
  assumes "\<forall>e \<in> set es. readable (snd e)" and "es \<noteq> []" and "length (commas (map print_member es)) < n"
  shows "read_members n (commas (map print_member es) @ CHR ''}'' # r) = Some (es, r)"
  using assms
proof (induction es arbitrary: n)
  case (Cons e es)
  obtain k v where e: "e = (k, v)" by (cases e)
  from Cons obtain m where m: "n = Suc m" by (cases n) auto
  show ?case
  proof (cases "es = []")
    case True
    with Cons m e show ?thesis by (simp add: readableD print_member_def print_string_def read_printed_string)
  next
    case False
    with Cons m e show ?thesis
      by (simp add: commas_Cons readableD print_member_def print_string_def read_printed_string)
  qed
qed simp

lemma expect_printed:
  "c \<in> set '']}'' \<Longrightarrow> expect c (print_json v @ r) = None"
  by (rule print_json_Cons [of v]) auto

lemma expect_commas:
  "c \<in> set '']}'' \<Longrightarrow> vs \<noteq> [] \<Longrightarrow> expect c (commas (map print_json vs) @ r) = None"
  by (cases vs; cases "tl vs = []") (auto simp: commas_Cons expect_printed)

lemma expect_members:
  "es \<noteq> [] \<Longrightarrow> expect (CHR ''}'') (commas (map print_member es) @ r) = None"
  by (cases es; cases "tl es = []") (auto simp: commas_Cons print_member_def print_string_def)

lemma read_value_start:
  "read_value (Suc n) (CHR 0x22 # r) = map_option (apfst JString) (read_string r)"
  "read_value (Suc n) (CHR ''['' # r) =
     (case expect (CHR '']'') r of Some r' \<Rightarrow> Some (JArray [], r') | None \<Rightarrow> map_option (apfst JArray) (read_elements n r))"
  "read_value (Suc n) (CHR ''{'' # r) =
     (case expect (CHR ''}'') r of Some r' \<Rightarrow> Some (JObject [], r') | None \<Rightarrow> map_option (apfst JObject) (read_members n r))"
  "\<not> is_ws c \<Longrightarrow> c \<notin> set ''nft{['' \<Longrightarrow> c \<noteq> CHR 0x22 \<Longrightarrow> read_value (Suc n) (c # r) = read_number_json (c # r)"
  by (simp_all add: Let_def)

declare read_value.simps [simp del]

lemma print_number_Cons:
  assumes "plain (JNumber k)"
  obtains c cs where "print_json (JNumber k) = c # cs" "is_digit c \<or> c = CHR ''-''"
proof (cases k)
  case (PosInt u)
  obtain c cs where "show_nat (unat u) = c # cs" "is_digit c" by (rule show_nat_Cons)
  with PosInt show thesis by (intro that [of c cs]) simp_all
next
  case (NegInt i)
  then show thesis using that assms(1) by (simp add: show_int_def)
qed (use assms in simp)

lemma number_start:
  "is_digit c \<or> c = CHR ''-'' \<Longrightarrow> \<not> is_ws c \<and> c \<notin> set ''nft{['' \<and> c \<noteq> CHR 0x22"
  by (auto simp: is_digit_def digit_val_def is_ws_def Let_def split: if_splits)

lemma readableI:
  assumes "\<And>m r. length (print_json v) \<le> Suc m \<Longrightarrow> number_ends r \<Longrightarrow> read_value (Suc m) (print_json v @ r) = Some (v, r)"
  shows "readable v"
  unfolding readable_def
proof (intro allI impI)
  fix n r
  assume n: "length (print_json v) \<le> n" and "number_ends r"
  moreover have "print_json v \<noteq> []" by (rule print_json_Cons [of v]) simp
  with n obtain m where "n = Suc m" by (cases n) auto
  ultimately show "read_value n (print_json v @ r) = Some (v, r)" using assms by blast
qed

lemma readable_number:
  assumes "plain (JNumber k)"
  shows "readable (JNumber k)"
proof (rule readableI)
  fix m r
  assume r: "number_ends r"
  obtain c cs where c: "print_json (JNumber k) = c # cs" "is_digit c \<or> c = CHR ''-''"
    using print_number_Cons [OF assms] .
  note start = number_start [OF c(2)]
  from read_printed_number [OF assms r] show "read_value (Suc m) (print_json (JNumber k) @ r) = Some (JNumber k, r)"
    unfolding c(1) append_Cons
    by (subst read_value_start(4)) (rule start [THEN conjunct1] start [THEN conjunct2, THEN conjunct1]
      start [THEN conjunct2, THEN conjunct2] | assumption)+
qed

lemma readable_array: "\<forall>v \<in> set vs. readable v \<Longrightarrow> readable (JArray vs)"
  by (rule readableI, cases "vs = []") (simp_all add: read_value_start expect_commas read_printed_elements)

lemma print_object: "print_json (JObject es) = ''{'' @ commas (map print_member es) @ ''}''"
  by (simp add: print_member_def)

lemma readable_object: "\<forall>e \<in> set es. readable (snd e) \<Longrightarrow> readable (JObject es)"
  by (rule readableI, cases "es = []")
    (simp_all add: read_value_start expect_members read_printed_members print_object del: print_json.simps)

lemma readable_constant: "readable JNull" "readable (JBool b)"
  by (rule readableI; cases b; simp add: read_value.simps is_ws_def)+

lemma readable_string: "readable (JString s)"
  by (rule readableI) (simp add: read_value_start print_string_def read_printed_string)

lemma plain_readable: "plain v \<Longrightarrow> readable v"
proof (induction v)
  case (JArray vs)
  then show ?case by (intro readable_array) (auto simp: list_all_iff)
next
  case (JObject es)
  then show ?case by (intro readable_object) (force simp: list_all_iff)
qed (auto intro: readable_number readable_string readable_constant)

lemma read_print_json: "plain v \<Longrightarrow> read_json (print_json v) = Ok v"
  using readableD [OF plain_readable, of v "Suc (length (print_json v))" "[]"]
  by (simp add: read_json_def skip_ws_def)

section \<open>What a JSON library promises\<close>

locale json_codec =
  fixes to_text :: "json \<Rightarrow> string" and of_text :: "string \<Rightarrow> string + json"
  assumes of_text_to_text: "plain v \<Longrightarrow> of_text (to_text v) = Ok v"
begin

lemma to_text_inj: "plain v \<Longrightarrow> plain w \<Longrightarrow> to_text v = to_text w \<Longrightarrow> v = w"
  by (metis of_text_to_text sum.inject(2))

end

interpretation compact: json_codec print_json read_json
  by unfold_locales (rule read_print_json)

text \<open>The body of a reply on the wire: \<open>Json\<close> prints its value, a reply without a value has no body.\<close>

definition body_text :: "(json \<Rightarrow> string) \<Rightarrow> reply \<Rightarrow> string" where
  "body_text to_text rep = (case reply_body rep of None \<Rightarrow> [] | Some v \<Rightarrow> to_text v)"

lemma plain_node_response: "plain (serialize_node_response r)"
  by (simp add: serialize_node_response_def)

section \<open>The schema of the bodies\<close>

text \<open>Texts are free, amounts are BTC with eight decimals, instants are RFC 3339 texts.\<close>

datatype schema = TText | TAmount | TInstant | TArray schema | TObject "(string \<times> schema) list"

inductive typed :: "json \<Rightarrow> schema \<Rightarrow> bool" where
  typed_text: "typed (JString s) TText"
| typed_amount: "parse_btc s \<noteq> None \<Longrightarrow> typed (JString s) TAmount"
| typed_instant: "unix_of_rfc3339 s \<noteq> None \<Longrightarrow> typed (JString s) TInstant"
| typed_array: "\<forall>v \<in> set vs. typed v t \<Longrightarrow> typed (JArray vs) (TArray t)"
| typed_object: "list_all2 (\<lambda>e f. fst e = fst f \<and> typed (snd e) (snd f)) es fs \<Longrightarrow> typed (JObject es) (TObject fs)"

inductive_simps typed_iffs [simp]:
  "typed v TText" "typed v TAmount" "typed v TInstant" "typed v (TArray t)" "typed v (TObject fs)"

text \<open>The schema of a node, up to that of its timestamp.\<close>

definition node_schema :: "schema \<Rightarrow> schema" where
  "node_schema seen = TObject [(''public_key'', TText), (''alias'', TText), (''capacity'', TAmount), (''first_seen'', seen)]"

text \<open>The schema of the body for a status and a path; \<open>None\<close> means that there is no body.\<close>

definition body_schema :: "schema \<Rightarrow> u16 \<Rightarrow> string \<Rightarrow> schema option" where
  "body_schema seen st p =
     (if st = 200 \<and> p = ''/nodes'' then Some (TArray (node_schema seen))
      else if st = 200 then Some (TObject [(''status'', TText)])
      else if st = 404 \<or> st = 500 then Some (TObject [(''error'', TText)])
      else None)"

text \<open>The answer to a \<open>HEAD\<close> request may leave out the body that its content type announces; that of any
  other method has it.\<close>

definition well_typed :: "schema \<Rightarrow> http_method \<Rightarrow> string \<Rightarrow> reply \<Rightarrow> bool" where
  "well_typed seen m p rep \<longleftrightarrow>
     (case body_schema seen (reply_status rep) p of
        None \<Rightarrow> reply_body rep = None \<and> content_type rep = None
      | Some t \<Rightarrow> content_type rep = Some ''application/json'' \<and>
          (case reply_body rep of None \<Rightarrow> m = HEAD | Some v \<Rightarrow> typed v t \<and> plain v))"

lemma well_typed_plain_replies [simp]:
  "well_typed seen m p internal_error_response" "well_typed seen m p (empty_reply 405)"
  "well_typed seen m p (empty_reply 408)" "well_typed seen m p (json_reply 404 (error_body msg))"
  "well_typed seen m ''/health'' (json_reply 200 (JObject [(''status'', JString ''ok'')]))"
  by (simp_all add: well_typed_def body_schema_def internal_error_response_def json_reply_def empty_reply_def
      error_body_def)

lemma well_typed_stripped: "well_typed seen m p rep \<Longrightarrow> well_typed seen HEAD p (rep\<lparr>reply_body := None\<rparr>)"
  by (auto simp: well_typed_def split: option.splits)

lemma typed_node_response_text: "typed (serialize_node_response (node_response_from C n)) (node_schema TText)"
  by (simp add: serialize_node_response_def node_response_from_def node_schema_def parse_btc_format_btc)

context chrono_api
begin

lemma typed_node_response:
  assumes "printable C n"
  shows "typed (serialize_node_response (node_response_from C n)) (node_schema TInstant)"
  using read_node_response [OF assms]
  by (auto simp: read_node_def serialize_node_response_def node_schema_def split: option.splits bind_splits if_splits)

end

lemma well_typed_nodes:
  assumes "\<forall>n \<in> set ns. typed (serialize_node_response (node_response_from C n)) (node_schema seen)"
  shows "well_typed seen m ''/nodes''
    (json_reply 200 (JArray (map (\<lambda>n. serialize_node_response (node_response_from C n)) ns)))"
  using assms
  by (auto simp: well_typed_def body_schema_def json_reply_def plain_node_response list_all_iff simp del: typed_iffs
      intro!: typed_array)

lemma well_typed_handler:
  assumes "\<forall>ns. list_op repo = Returned (Ok ns) \<longrightarrow>
      (\<forall>n \<in> set ns. typed (serialize_node_response (node_response_from C n)) (node_schema seen))"
    and "list_nodes_handler C list_op \<lparr>app_repo = repo\<rparr> = Returned x"
  shows "well_typed seen m ''/nodes'' (fst x)"
  using assms well_typed_nodes by (auto simp: list_nodes_handler_def split: outcome.splits sum.splits)

context web_framework
begin

text \<open>A reply is well typed, whatever schema the timestamps of the listed nodes have.\<close>

lemma bare_well_typed:
  assumes "respond ((mk_router C list_op repo)\<lparr>layers := []\<rparr>) d m p = Returned x"
    and seen: "\<forall>ns. list_op repo = Returned (Ok ns) \<longrightarrow>
      (\<forall>n \<in> set ns. typed (serialize_node_response (node_response_from C n)) (node_schema seen))"
  shows "well_typed seen m p (fst x)"
proof -
  note handler = well_typed_handler [of list_op repo C seen, OF seen]
  consider "p \<notin> {''/nodes'', ''/health''}" "m \<noteq> HEAD" | "p \<notin> {''/nodes'', ''/health''}" "m = HEAD"
    | "p \<in> {''/nodes'', ''/health''}" "m \<notin> {GET, HEAD}" | "p = ''/health''" "m \<in> {GET, HEAD}"
    | "p = ''/nodes''" "m = GET" | "p = ''/nodes''" "m = HEAD" by auto
  then show ?thesis
  proof cases
    case 1
    with assms(1) bare_unknown [OF 1, of C list_op repo d] show ?thesis by auto
  next
    case 2
    with assms(1) bare_unknown_head [OF 2(1), of C list_op repo d] show ?thesis
      by (auto simp: well_typed_def body_schema_def json_reply_def error_body_def)
  next
    case 3
    with assms(1) bare_method [OF 3, of C list_op repo d] show ?thesis by auto
  next
    case 4
    with assms(1) show ?thesis
      by (auto simp: bare_health bare_head health_def strip_body_def well_typed_stripped [where m = GET])
  next
    case 5
    with assms(1) handler show ?thesis by (simp add: bare_nodes)
  next
    case 6
    with assms(1) have "map_outcome strip_body (list_nodes_handler C list_op \<lparr>app_repo = repo\<rparr>) = Returned x"
      by (simp add: bare_head)
    with handler [of _ GET] 6 show ?thesis
      by (cases "list_nodes_handler C list_op \<lparr>app_repo = repo\<rparr>")
        (auto simp: strip_body_def split: prod.splits intro: well_typed_stripped)
  qed
qed

lemma reply_well_typed:
  assumes "\<forall>ns. list_op repo = Returned (Ok ns) \<longrightarrow>
      (\<forall>n \<in> set ns. typed (serialize_node_response (node_response_from C n)) (node_schema seen))"
    and "respond (mk_router C list_op repo) d m p = Returned (rep, evs)"
  shows "well_typed seen m p rep"
  by (rule reply_cases [of C list_op repo d m p])
    (use assms(2) bare_well_typed [where C = C and list_op = list_op and repo = repo, OF _ assms(1)] in auto)

end

text \<open>
  C13. Every reply, to every method and path and however long the request takes, is well typed, for any
  framework, calendar library and repository that keep their documented behaviour: the status and the path
  determine the schema of the body. \<open>/nodes\<close> with 200 carries an array of objects with exactly the four
  public fields, the capacity a BTC amount and the first sighting a text, an RFC 3339 instant when the
  instants of the listed nodes are of the years 0 to 9999; \<open>/health\<close> with 200 its status object; every 404
  and 500 an error object; all of them with the JSON content type, and only the answer to \<open>HEAD\<close> may leave
  out the body. The other replies, 405 and 408, carry no body and no content type.
\<close>

theorem replies_well_typed:
  assumes "web_framework respond" and "chrono_api C"
  shows "\<exists>rep evs. respond (mk_router C list_op repo) d m p = Returned (rep, evs) \<and> well_typed TText m p rep \<and>
    ((\<forall>ns. list_op repo = Returned (Ok ns) \<longrightarrow> (\<forall>n \<in> set ns. printable C n)) \<longrightarrow> well_typed TInstant m p rep)"
proof -
  obtain rep evs where out: "respond (mk_router C list_op repo) d m p = Returned (rep, evs)"
    by (rule web_framework.reply_cases [OF assms(1), of C list_op repo d m p]) (auto elim: prod.exhaust)
  note typed = web_framework.reply_well_typed [OF assms(1) _ out]
  have "well_typed TText m p rep" by (rule typed) (simp add: typed_node_response_text)
  moreover have "well_typed TInstant m p rep"
    if "\<forall>ns. list_op repo = Returned (Ok ns) \<longrightarrow> (\<forall>n \<in> set ns. printable C n)"
    by (rule typed) (use that chrono_api.typed_node_response [OF assms(2)] in blast)
  ultimately show ?thesis using out by blast
qed

lemma replies_well_typed_witness:
  "\<exists>rep evs. dispatch (mk_router utc_chrono fake_list_nodes (with_nodes challenge_list)) 0 GET ''/nodes''
      = Returned (rep, evs) \<and> well_typed TInstant GET ''/nodes'' rep"
proof -
  have "\<forall>ns. fake_list_nodes (with_nodes challenge_list) = Returned (Ok ns) \<longrightarrow> (\<forall>n \<in> set ns. printable utc_chrono n)"
    using challenge_printable by (simp add: fake_list_nodes_def with_nodes_def fake_default_def)
  with replies_well_typed [OF ref.web_framework_axioms utc.chrono_api_axioms, of fake_list_nodes
      "with_nodes challenge_list" 0 GET "''/nodes''"]
  show ?thesis by blast
qed

section \<open>Bodies as texts\<close>

text \<open>
  C12. What a client learns from the wire, for any framework, calendar and JSON library and repository
  that keep their contracts: the text of a 200 answer to \<open>GET /nodes\<close> reads back as a JSON array whose
  elements decode to the stored snapshot, node by node and in order: every key and alias unchanged
  whatever characters it has, the exact capacity in satoshis and the text that \<open>format_timestamp\<close> gives
  for the first sighting. For a node whose first sighting is of the years 0 to 9999 that text reads back as
  its exact second.
\<close>

theorem nodes_text_round_trip:
  assumes "web_framework respond" and "chrono_api C" and "json_codec to_text of_text"
    and "node_repository replace list_op content keep repo_inv" and "repo_inv repo" and "d < REQUEST_TIMEOUT"
    and "respond (mk_router C list_op repo) d GET ''/nodes'' = Returned (rep, evs)" and "reply_status rep = 200"
  shows "\<exists>vs. of_text (body_text to_text rep) = Ok (JArray vs) \<and>
    map read_fields vs = map (\<lambda>n. Some (public_key n, node_alias n, unat (capacity_sats n),
      format_timestamp C (first_seen n))) (content repo) \<and>
    list_all2 (\<lambda>v n. printable C n \<longrightarrow> read_node v =
      Some (public_key n, node_alias n, unat (capacity_sats n), timestamp C (first_seen n))) vs (content repo)"
proof -
  obtain ns where ns: "list_op repo = Returned (Ok ns)"
    and rep: "reply_body rep = Some (JArray (map (\<lambda>n. serialize_node_response (node_response_from C n)) ns))"
    using web_framework.nodes_200 [OF assms(1,6-8)] .
  then have "ns = content repo" using node_repository.list_content [OF assms(4,5)] by simp
  moreover have "of_text (body_text to_text rep) = Ok (JArray (map (\<lambda>n. serialize_node_response (node_response_from C n)) ns))"
    unfolding body_text_def rep option.case
    by (rule json_codec.of_text_to_text [OF assms(3)]) (simp add: plain_node_response list_all_iff)
  ultimately show ?thesis using chrono_api.read_node_response [OF assms(2)]
    by (simp add: read_fields_response list.rel_map list.rel_refl)
qed

lemma nodes_text_round_trip_witness:
  "\<exists>rep evs vs. dispatch (mk_router utc_chrono fake_list_nodes (with_nodes challenge_list)) 0 GET ''/nodes''
      = Returned (rep, evs)
    \<and> read_json (body_text print_json rep) = Ok (JArray vs)
    \<and> map read_node vs = [Some (ACINQ_KEY, ''ACINQ'', 36010516297, 1522941222),
          Some (WOS_KEY, ''WalletOfSatoshi.com'', 15464503162, 1601429940)]"
proof -
  have d: "0 < REQUEST_TIMEOUT" by (simp add: REQUEST_TIMEOUT_def duration_from_secs_def)
  obtain rep evs where out: "dispatch (mk_router utc_chrono fake_list_nodes (with_nodes challenge_list)) 0 GET ''/nodes''
      = Returned (rep, evs)" "reply_status rep = 200"
    by (simp add: ref.nodes_reply_cases [OF d] fake_list_nodes_def with_nodes_def fake_default_def json_reply_def)
  obtain vs where vs: "read_json (body_text print_json rep) = Ok (JArray vs)"
    "list_all2 (\<lambda>v n. printable utc_chrono n \<longrightarrow> read_node v = Some (public_key n, node_alias n,
       unat (capacity_sats n), timestamp utc_chrono (first_seen n))) vs (fake_nodes (with_nodes challenge_list))"
    using nodes_text_round_trip [OF ref.web_framework_axioms utc.chrono_api_axioms compact.json_codec_axioms
        fake_repo.node_repository_axioms TrueI d out] by blast
  with challenge_printable have "map read_node vs = [Some (ACINQ_KEY, ''ACINQ'', 36010516297, 1522941222),
      Some (WOS_KEY, ''WalletOfSatoshi.com'', 15464503162, 1601429940)]"
    by (auto simp: with_nodes_def challenge_list_def list_all2_Cons2 utc_timestamp)
  with out(1) vs(1) show ?thesis
    by (intro exI [of _ rep], intro exI [of _ evs], intro exI [of _ vs]) (simp only: simp_thms)
qed

end
