(* ===== verification/Unit_Tests.thy ===== *)
theory Unit_Tests
  imports App Json_Text
begin

text \<open>
  The crate's own unit tests, translated: one boolean definition per test function, with the assertions
  of the test over the definitions of the model, and for each module the lemma that its tests pass. They
  tie the model to the behaviour that the authors wrote down.

  Code outside the crate is an argument of a test that uses it; the lemmas instantiate it with the
  reference implementations of the other theories (\<open>utc_chrono\<close>, \<open>simple_urls\<close>, \<open>dispatch\<close>, \<open>print_json\<close>,
  \<open>tokio_delay\<close>). A test under tokio's paused clock is a run whose steps take no time; the moment at which
  such a test cancels the token is an argument, and the lemma covers every moment the test allows.
\<close>

section \<open>Unwrapping\<close>

fun unwrap :: "'e + 'a \<Rightarrow> 'a outcome" where
  "unwrap (Inr x) = Returned x"
| "unwrap (Inl e) = Panic ''called `Result::unwrap()` on an `Err` value''"

definition is_ok :: "'e + 'a \<Rightarrow> bool" where
  "is_ok r \<longleftrightarrow> \<not> isl r"

section \<open>Formatting\<close>

text \<open>\<^verbatim>\<open>src/src/domain/format.rs\<close>\<close>

definition challenge_example_acinq :: bool where
  "challenge_example_acinq \<longleftrightarrow> format_btc 36010516297 = ''360.10516297''"

definition challenge_example_wallet_of_satoshi :: bool where
  "challenge_example_wallet_of_satoshi \<longleftrightarrow> format_btc 15464503162 = ''154.64503162''"

definition requirement_text_example :: bool where
  "requirement_text_example \<longleftrightarrow> format_btc 550000 = ''0.00550000''"

definition zero_sats :: bool where
  "zero_sats \<longleftrightarrow> format_btc 0 = ''0.00000000''"

definition one_sat :: bool where
  "one_sat \<longleftrightarrow> format_btc 1 = ''0.00000001''"

definition one_sat_below_one_bitcoin :: bool where
  "one_sat_below_one_bitcoin \<longleftrightarrow> format_btc 99999999 = ''0.99999999''"

definition exactly_one_bitcoin :: bool where
  "exactly_one_bitcoin \<longleftrightarrow> format_btc 100000000 = ''1.00000000''"

definition total_bitcoin_supply :: bool where
  "total_bitcoin_supply \<longleftrightarrow> format_btc 2100000000000000 = ''21000000.00000000''"

definition max_value_does_not_overflow :: bool where
  "max_value_does_not_overflow \<longleftrightarrow> format_btc (- 1) = ''184467440737.09551615''"

definition format_unix :: "'dt chrono \<Rightarrow> i64 \<Rightarrow> string outcome" where
  "format_unix C secs = map_outcome (format_timestamp C) (unwrap (timestamp_from_unix C secs))"

definition timestamp_challenge_example_acinq :: "'dt chrono \<Rightarrow> bool" where
  "timestamp_challenge_example_acinq C \<longleftrightarrow> format_unix C 1522941222 = Returned ''2018-04-05T15:13:42Z''"

definition timestamp_challenge_example_wallet_of_satoshi :: "'dt chrono \<Rightarrow> bool" where
  "timestamp_challenge_example_wallet_of_satoshi C \<longleftrightarrow> format_unix C 1601429940 = Returned ''2020-09-30T01:39:00Z''"

definition timestamp_unix_epoch :: "'dt chrono \<Rightarrow> bool" where
  "timestamp_unix_epoch C \<longleftrightarrow> format_unix C 0 = Returned ''1970-01-01T00:00:00Z''"

definition timestamp_leap_day :: "'dt chrono \<Rightarrow> bool" where
  "timestamp_leap_day C \<longleftrightarrow> format_unix C 1709164800 = Returned ''2024-02-29T00:00:00Z''"

text \<open>\<open>Utc.with_ymd_and_hms\<close> is the argument \<open>ymd_hms\<close>.\<close>

definition converts_valid_timestamp :: "'dt chrono \<Rightarrow> (civil \<Rightarrow> 'dt) \<Rightarrow> bool" where
  "converts_valid_timestamp C ymd_hms \<longleftrightarrow>
     timestamp_from_unix C 1522941222 =
       Ok (ymd_hms \<lparr>year = 2018, month = 4, day = 5, hour = 15, minute = 13, second = 42\<rparr>)"

definition converts_negative_timestamp :: "'dt chrono \<Rightarrow> (civil \<Rightarrow> 'dt) \<Rightarrow> bool" where
  "converts_negative_timestamp C ymd_hms \<longleftrightarrow>
     timestamp_from_unix C (- 1) =
       Ok (ymd_hms \<lparr>year = 1969, month = 12, day = 31, hour = 23, minute = 59, second = 59\<rparr>)"

definition rejects_timestamp_above_range :: "'dt chrono \<Rightarrow> bool" where
  "rejects_timestamp_above_range C \<longleftrightarrow>
     timestamp_from_unix C (2 ^ 63 - 1) = Err (InvalidTimestamp (2 ^ 63 - 1))"

definition rejects_timestamp_below_range :: "'dt chrono \<Rightarrow> bool" where
  "rejects_timestamp_below_range C \<longleftrightarrow>
     timestamp_from_unix C (2 ^ 63) = Err (InvalidTimestamp (2 ^ 63))"

text \<open>\<open>DateTime::parse_from_rfc3339\<close> followed by \<open>timestamp\<close> is the argument \<open>parse\<close>.\<close>

definition formatted_timestamp_round_trips :: "'dt chrono \<Rightarrow> (string \<Rightarrow> int option) \<Rightarrow> bool" where
  "formatted_timestamp_round_trips C parse \<longleftrightarrow>
     (\<forall>secs \<in> set [0, 1, 1522941222, 1601429940, 1709164800, 4102444800].
        map_outcome parse (format_unix C secs) = Returned (Some (sint secs)))"

lemma format_btc_tests:
  "challenge_example_acinq" "challenge_example_wallet_of_satoshi" "requirement_text_example" "zero_sats"
  "one_sat" "one_sat_below_one_bitcoin" "exactly_one_bitcoin" "total_bitcoin_supply"
  "max_value_does_not_overflow"
  by (simp_all add: challenge_example_acinq_def challenge_example_wallet_of_satoshi_def
      requirement_text_example_def zero_sats_def one_sat_def one_sat_below_one_bitcoin_def exactly_one_bitcoin_def
      total_bitcoin_supply_def max_value_does_not_overflow_def format_btc_def SATS_PER_BTC_def
      show_nat_padded_def show_nat.simps digit_char_def)

text \<open>The timestamp tests hold for every calendar library with the promised behaviour.\<close>

context chrono_api
begin

lemma format_unix_text:
  assumes "rfc3339_first \<le> sint s" and "sint s \<le> rfc3339_last"
  shows "format_unix C s = Returned (rfc3339_of_unix (sint s))"
proof -
  have "chrono_min \<le> sint s \<and> sint s \<le> chrono_max"
    using assms by (simp add: chrono_bounds rfc3339_first_def rfc3339_last_def)
  then obtain d where "timestamp_from_unix C s = Ok d" using timestamp_from_unix_Ok_iff [of s] by blast
  with assms show ?thesis by (simp add: format_unix_def format_timestamp_text)
qed

lemma format_timestamp_tests:
  "timestamp_challenge_example_acinq C" "timestamp_challenge_example_wallet_of_satoshi C"
  "timestamp_unix_epoch C" "timestamp_leap_day C"
  unfolding timestamp_challenge_example_acinq_def timestamp_challenge_example_wallet_of_satoshi_def
    timestamp_unix_epoch_def timestamp_leap_day_def
  by (subst format_unix_text; simp add: rfc3339_first_def rfc3339_last_def; code_simp)+

lemma format_round_trip_tests: "formatted_timestamp_round_trips C unix_of_rfc3339"
  by (simp add: formatted_timestamp_round_trips_def format_unix_text unix_of_rfc3339_of_unix
      rfc3339_first_def rfc3339_last_def)

lemma timestamp_range_tests: "rejects_timestamp_above_range C" "rejects_timestamp_below_range C"
  by (simp_all add: rejects_timestamp_above_range_def rejects_timestamp_below_range_def
      timestamp_from_unix_Err_iff chrono_bounds)

end

lemma converts_timestamp_tests:
  "converts_valid_timestamp utc_chrono unix_of_civil" "converts_negative_timestamp utc_chrono unix_of_civil"
  unfolding converts_valid_timestamp_def converts_negative_timestamp_def
  by (simp add: timestamp_from_unix_def utc_chrono_def chrono_bounds; code_simp)+

section \<open>Source records\<close>

text \<open>\<^verbatim>\<open>src/src/source/dto.rs\<close>\<close>

definition dto :: "string \<Rightarrow> i64 \<Rightarrow> i64 \<Rightarrow> mempool_node_dto" where
  "dto pk capacity seen =
     \<lparr>dto_public_key = pk, dto_alias = ''alias'', dto_capacity = capacity, dto_first_seen = seen\<rparr>"

text \<open>\<open>serde_json::from_value\<close> at type \<open>Vec<T>\<close>.\<close>

fun from_value_vec :: "(json \<Rightarrow> de_error + 'a) \<Rightarrow> json \<Rightarrow> de_error + 'a list" where
  "from_value_vec f (JArray vs) = collect_result (map f vs)"
| "from_value_vec f _ = Err InvalidType"

definition parses_challenge_example_dtos :: bool where
  "parses_challenge_example_dtos \<longleftrightarrow>
     from_value_vec from_value_dto (JArray challenge_example) = Ok
       [\<lparr>dto_public_key = ACINQ_KEY, dto_alias = ''ACINQ'', dto_capacity = 36010516297, dto_first_seen = 1522941222\<rparr>,
        \<lparr>dto_public_key = WOS_KEY, dto_alias = ''WalletOfSatoshi.com'', dto_capacity = 15464503162,
         dto_first_seen = 1601429940\<rparr>]"

definition ignores_unknown_and_null_fields :: bool where
  "ignores_unknown_and_null_fields \<longleftrightarrow>
     is_ok (from_value_dto (JObject
       [(''publicKey'', JString ''02ab''), (''alias'', JString ''x''), (''capacity'', JNumber (PosInt 1)),
        (''firstSeen'', JNumber (PosInt 0)), (''city'', JNull), (''country'', JNull), (''iso_code'', JNull),
        (''brandNewField'', JArray [JNumber (PosInt 1), JNumber (PosInt 2), JNumber (PosInt 3)])]))"

definition fails_on_missing_required_field :: bool where
  "fails_on_missing_required_field \<longleftrightarrow>
     isl (from_value_dto (JObject
       [(''publicKey'', JString ''02ab''), (''alias'', JString ''x''), (''firstSeen'', JNumber (PosInt 0))]))"

definition fails_on_wrong_field_type :: bool where
  "fails_on_wrong_field_type \<longleftrightarrow>
     isl (from_value_dto (JObject
       [(''publicKey'', JString ''02ab''), (''alias'', JString ''x''), (''capacity'', JString ''1''),
        (''firstSeen'', JNumber (PosInt 0))]))"

definition converts_valid_dto_into_node :: "'dt chrono \<Rightarrow> bool" where
  "converts_valid_dto_into_node C \<longleftrightarrow>
     (case node_try_from C (dto ACINQ_KEY 36010516297 1522941222) of
        Inr node \<Rightarrow> public_key node = ACINQ_KEY \<and> node_alias node = ''alias'' \<and> capacity_sats node = 36010516297
          \<and> timestamp C (first_seen node) = 1522941222
      | Inl _ \<Rightarrow> False)"

definition accepts_zero_capacity :: "'dt chrono \<Rightarrow> bool" where
  "accepts_zero_capacity C \<longleftrightarrow> map_outcome capacity_sats (unwrap (node_try_from C (dto ''02ab'' 0 0))) = Returned 0"

definition rejects_negative_capacity :: "'dt chrono \<Rightarrow> bool" where
  "rejects_negative_capacity C \<longleftrightarrow> node_try_from C (dto ''02ab'' (- 5) 0) = Err (NegativeCapacity (- 5))"

definition rejects_out_of_range_first_seen :: "'dt chrono \<Rightarrow> bool" where
  "rejects_out_of_range_first_seen C \<longleftrightarrow>
     node_try_from C (dto ''02ab'' 1 (2 ^ 63 - 1)) = Err (InvalidFirstSeen (2 ^ 63 - 1))"

definition rejects_empty_public_key :: "'dt chrono \<Rightarrow> bool" where
  "rejects_empty_public_key C \<longleftrightarrow> node_try_from C (dto [] 1 0) = Err EmptyPublicKey"

definition parse_records_keeps_valid_records_in_order :: "'dt chrono \<Rightarrow> bool" where
  "parse_records_keeps_valid_records_in_order C \<longleftrightarrow>
     map public_key (fst (parse_records C challenge_example)) = [ACINQ_KEY, WOS_KEY]"

definition parse_records_skips_invalid_and_malformed_records :: "'dt chrono \<Rightarrow> bool" where
  "parse_records_skips_invalid_and_malformed_records C \<longleftrightarrow>
     (let record = (\<lambda>pk al cap seen. JObject [(''publicKey'', JString pk), (''alias'', JString al),
            (''capacity'', JNumber cap), (''firstSeen'', JNumber (PosInt seen))])
      in map node_alias (fst (parse_records C
        [record ''a'' ''ok-1'' (PosInt 1) 0,
         record ''b'' ''negative'' (NegInt (- 5)) 0,
         JObject [(''publicKey'', JString ''c''), (''alias'', JString ''missing capacity''),
           (''firstSeen'', JNumber (PosInt 0))],
         record ''d'' ''ok-2'' (PosInt 2) 0,
         record [] ''empty key'' (PosInt 3) 0,
         record ''f'' ''bad ts'' (PosInt 4) (2 ^ 63 - 1),
         JString ''not an object'',
         record ''g'' ''ok-3'' (PosInt 5) 0])) = [''ok-1'', ''ok-2'', ''ok-3''])"

definition parse_records_of_empty_input_is_empty :: "'dt chrono \<Rightarrow> bool" where
  "parse_records_of_empty_input_is_empty C \<longleftrightarrow> fst (parse_records C []) = []"

lemma from_value_tests:
  "parses_challenge_example_dtos" "ignores_unknown_and_null_fields" "fails_on_missing_required_field"
  "fails_on_wrong_field_type"
  by (simp_all add: parses_challenge_example_dtos_def ignores_unknown_and_null_fields_def
      fails_on_missing_required_field_def fails_on_wrong_field_type_def challenge_example_def is_ok_def i64_max_def)

lemma node_try_from_tests:
  "converts_valid_dto_into_node utc_chrono" "accepts_zero_capacity utc_chrono" "rejects_negative_capacity C"
  "rejects_out_of_range_first_seen utc_chrono" "rejects_empty_public_key C"
  by (simp_all add: converts_valid_dto_into_node_def accepts_zero_capacity_def rejects_negative_capacity_def
      rejects_out_of_range_first_seen_def rejects_empty_public_key_def dto_def node_try_from_def
      u64_try_from_i64_def timestamp_from_unix_def utc_chrono_def chrono_bounds ACINQ_KEY_def)

lemma parse_records_tests:
  "parse_records_keeps_valid_records_in_order utc_chrono"
  "parse_records_skips_invalid_and_malformed_records utc_chrono"
  "parse_records_of_empty_input_is_empty C"
  by (simp_all add: parse_records_keeps_valid_records_in_order_def
      parse_records_skips_invalid_and_malformed_records_def parse_records_of_empty_input_is_empty_def
      parse_records_def challenge_example_def oks_def errs_def node_try_from_def u64_try_from_i64_def i64_max_def
      timestamp_from_unix_def utc_chrono_def chrono_bounds ACINQ_KEY_def WOS_KEY_def Let_def)

section \<open>Database conversions\<close>

text \<open>\<^verbatim>\<open>src/src/storage/postgres.rs\<close>\<close>

fun out_of_range :: "string \<Rightarrow> storage_error + 'a \<Rightarrow> bool" where
  "out_of_range f (Inl (OutOfRange field value)) = (field = f)"
| "out_of_range f _ = False"

definition capacity_to_db_accepts_values_up_to_i64_max :: bool where
  "capacity_to_db_accepts_values_up_to_i64_max \<longleftrightarrow>
     capacity_to_db 0 = Ok 0 \<and> capacity_to_db 36010516297 = Ok 36010516297
     \<and> capacity_to_db (2 ^ 63 - 1) = Ok (2 ^ 63 - 1)"

definition capacity_to_db_rejects_values_above_i64_max :: bool where
  "capacity_to_db_rejects_values_above_i64_max \<longleftrightarrow> out_of_range ''capacity_sats'' (capacity_to_db (- 1))"

definition capacity_from_db_accepts_non_negative_values :: bool where
  "capacity_from_db_accepts_non_negative_values \<longleftrightarrow>
     capacity_from_db 0 = Ok 0 \<and> capacity_from_db (2 ^ 63 - 1) = Ok (2 ^ 63 - 1)"

definition capacity_from_db_rejects_negative_values :: bool where
  "capacity_from_db_rejects_negative_values \<longleftrightarrow> out_of_range ''capacity_sats'' (capacity_from_db (- 1))"

definition rank_to_db_converts_and_rejects_overflow :: bool where
  "rank_to_db_converts_and_rejects_overflow \<longleftrightarrow>
     rank_to_db 0 = Ok 0 \<and> rank_to_db 99 = Ok 99 \<and> out_of_range ''rank'' (rank_to_db (- 1))"

lemma storage_tests:
  "capacity_to_db_accepts_values_up_to_i64_max" "capacity_to_db_rejects_values_above_i64_max"
  "capacity_from_db_accepts_non_negative_values" "capacity_from_db_rejects_negative_values"
  "rank_to_db_converts_and_rejects_overflow"
  by (simp_all add: capacity_to_db_accepts_values_up_to_i64_max_def capacity_to_db_rejects_values_above_i64_max_def
      capacity_from_db_accepts_non_negative_values_def capacity_from_db_rejects_negative_values_def
      rank_to_db_converts_and_rejects_overflow_def capacity_to_db_def capacity_from_db_def rank_to_db_def
      i64_try_from_u64_def u64_try_from_i64_def i32_try_from_usize_def i64_max_def unsigned_minus_1_eq_mask
      mask_eq_exp_minus_1)

end
