(* ===== verification/Messages.thy ===== *)
theory Messages
  imports App "HOL-Library.Sublist"
begin

text \<open>
  The texts of the crate's errors: the \<open>Display\<close> implementations that the \<open>#[error(..)]\<close> attributes of the
  error enums derive, one function per enum. The texts of errors of other crates (sqlx and its migrator,
  and the system errors below them) are functions of the record \<open>display_api\<close>; the errors of reqwest and
  serde_json are modelled by their texts already.

  The theorem is about the text an operator reads when the configuration is rejected: it names the
  variable and quotes the value, and it does not depend on the database URL, the one variable with a
  secret in it.
\<close>

section \<open>Debug texts of strings\<close>

text \<open>The directive \<open>{:?}\<close> on a string, which is UTF-8. ASCII is escaped as the standard library does; of the
  other characters, \<open>kept\<close> says for the code point whether its tables call it printable and no grapheme
  extension, and all that are not kept are written as their code point in hexadecimal.\<close>

definition hex_digit :: "nat \<Rightarrow> char" where
  "hex_digit d = ''0123456789abcdef'' ! (d mod 16)"

fun show_hex :: "nat \<Rightarrow> string" where
  "show_hex n = (if n < 16 then [hex_digit n] else show_hex (n div 16) @ [hex_digit n])"

declare show_hex.simps [simp del]

definition unicode_escape :: "nat \<Rightarrow> string" where
  "unicode_escape k = [CHR 0x5C] @ ''u{'' @ show_hex k @ ''}''"

definition debug_ascii :: "char \<Rightarrow> string" where
  "debug_ascii c =
     (let k = of_char c :: nat in
      if c = CHR 0x22 \<or> c = CHR 0x5C then [CHR 0x5C, c]
      else if k = 0 then [CHR 0x5C, CHR ''0'']
      else if k = 9 then [CHR 0x5C, CHR ''t'']
      else if k = 10 then [CHR 0x5C, CHR ''n'']
      else if k = 13 then [CHR 0x5C, CHR ''r'']
      else if k < 32 \<or> k = 127 then unicode_escape k
      else [c])"

text \<open>The number of bytes after the first byte of a character, and its code point.\<close>

definition utf8_tail :: "nat \<Rightarrow> nat" where
  "utf8_tail b = (if b < 0xE0 then 1 else if b < 0xF0 then 2 else 3)"

definition code_point :: "nat \<Rightarrow> string \<Rightarrow> nat" where
  "code_point b rest = foldl (\<lambda>k c. k * 64 + of_char c mod 64) (b mod 2 ^ (6 - utf8_tail b)) rest"

function debug_chars :: "(nat \<Rightarrow> bool) \<Rightarrow> string \<Rightarrow> string" where
  "debug_chars kept [] = []"
| "debug_chars kept (c # s) =
     (let b = of_char c :: nat; rest = take (utf8_tail b) s; k = code_point b rest in
      if b < 128 then debug_ascii c @ debug_chars kept s
      else (if kept k then c # rest else unicode_escape k) @ debug_chars kept (drop (utf8_tail b) s))"
  by pat_completeness auto
termination by (relation "measure (\<lambda>(kept, s). length s)") auto

definition debug_str :: "(nat \<Rightarrow> bool) \<Rightarrow> string \<Rightarrow> string" where
  "debug_str kept s = [CHR 0x22] @ debug_chars kept s @ [CHR 0x22]"

lemma debug_str_examples:
  "debug_str kept ''0'' = [CHR 0x22, CHR ''0'', CHR 0x22]"
  "debug_str (\<lambda>_. True) [CHR 0xC3, CHR 0xA9] = [CHR 0x22, CHR 0xC3, CHR 0xA9, CHR 0x22]"
  "debug_str (\<lambda>_. False) [CHR 0xE2, CHR 0x80, CHR 0x8B] = [CHR 0x22, CHR 0x5C] @ ''u{200b}'' @ [CHR 0x22]"
  by code_simp+

section \<open>Error texts\<close>

record display_api =
  show_sqlx :: "sqlx_error \<Rightarrow> string"
  show_migrate :: "migrate_error \<Rightarrow> string"

fun show_domain_error :: "domain_error \<Rightarrow> string" where
  "show_domain_error (InvalidTimestamp secs) =
     ''unix timestamp '' @ show_int (sint secs) @ '' is out of the representable range''"

fun show_validation_error :: "validation_error \<Rightarrow> string" where
  "show_validation_error EmptyPublicKey = ''public key is empty''"
| "show_validation_error (NegativeCapacity c) = ''capacity '' @ show_int (sint c) @ '' is negative''"
| "show_validation_error (InvalidFirstSeen s) = ''firstSeen '' @ show_int (sint s) @ '' is not a valid timestamp''"

fun show_source_error :: "source_error \<Rightarrow> string" where
  "show_source_error (Request e) = ''request to node source failed: '' @ e"
| "show_source_error (Status st) = ''node source responded with HTTP status '' @ show_nat (unat st)"
| "show_source_error (Decode e) = ''node source returned an invalid body: '' @ e"

fun show_storage_error :: "display_api \<Rightarrow> storage_error \<Rightarrow> string" where
  "show_storage_error D (Database e) = ''database error: '' @ show_sqlx D e"
| "show_storage_error D (Migration e) = ''migration failed: '' @ show_migrate D e"
| "show_storage_error D (OutOfRange field value) = field @ '' value '' @ value @ '' is out of range''"

fun show_import_error :: "display_api \<Rightarrow> import_error \<Rightarrow> string" where
  "show_import_error D (SourceFailed e) = show_source_error e"
| "show_import_error D (StorageFailed e) = show_storage_error D e"
| "show_import_error D EmptySource = ''node source returned no valid nodes; keeping the previous snapshot''"
| "show_import_error D (Panicked m) = ''import task panicked: '' @ m"

fun show_config_error :: "(nat \<Rightarrow> bool) \<Rightarrow> config_error \<Rightarrow> string" where
  "show_config_error kept (Missing key) = ''missing required environment variable '' @ key"
| "show_config_error kept (Config.Invalid key value reason) =
     ''invalid value '' @ debug_str kept value @ '' for '' @ key @ '': '' @ reason"

fun show_app_error :: "display_api \<Rightarrow> app_error \<Rightarrow> string" where
  "show_app_error D (StorageApp e) = show_storage_error D e"
| "show_app_error D (SourceApp e) = ''failed to build the node source client: '' @ show_source_error e"
| "show_app_error D (Serve e) = ''HTTP server failed: '' @ e"

fun show_api_error :: "display_api \<Rightarrow> api_error \<Rightarrow> string" where
  "show_api_error D (StorageApi e) = show_storage_error D e"

section \<open>Configuration errors\<close>

lemma from_lookup_other_database:
  assumes "get_var lookup ''DATABASE_URL'' \<noteq> None" and "get_var lookup' ''DATABASE_URL'' \<noteq> None"
    and "\<forall>key. key \<noteq> ''DATABASE_URL'' \<longrightarrow> lookup' key = lookup key" and "from_lookup U lookup = Err e"
  shows "from_lookup U lookup' = Err e"
proof -
  have same: "get_var lookup' key = get_var lookup key" if "key \<noteq> ''DATABASE_URL''" for key
    using assms(3) that by (simp add: get_var_def)
  show ?thesis using assms(1,2,4)
    by (auto simp: from_lookup_def Let_def result_simps same)
qed

text \<open>
  C39. What an operator reads when the configuration is rejected: either that \<open>DATABASE_URL\<close> is missing, or
  the name of the variable at fault with the value it was set to, quoted, and the reason; a default is
  never blamed. The text is the same for every database URL, so the password in it cannot leak.
\<close>

theorem config_error_message:
  assumes "parse_http_url U DEFAULT_MEMPOOL_URL = Ok u" and "from_lookup U lookup = Err e"
  shows "(show_config_error kept e = ''missing required environment variable DATABASE_URL''
        \<and> get_var lookup ''DATABASE_URL'' = None) \<or>
    (\<exists>key value reason. key \<in> {''BIND_ADDR'', ''MEMPOOL_URL'', ''IMPORT_INTERVAL_SECS'', ''HTTP_CLIENT_TIMEOUT_SECS''}
        \<and> get_var lookup key = Some value
        \<and> show_config_error kept e = ''invalid value '' @ debug_str kept value @ '' for '' @ key @ '': '' @ reason
        \<and> (\<forall>url. url \<noteq> [] \<longrightarrow> from_lookup U (lookup(''DATABASE_URL'' := Some url)) = Err e))"
  using config_error_names_variable [OF assms]
proof (elim disjE exE conjE)
  assume "e = Missing ''DATABASE_URL''" "get_var lookup ''DATABASE_URL'' = None"
  then show ?thesis by (intro disjI1) simp
next
  fix key val reason
  assume e: "e = Config.Invalid key val reason" "get_var lookup key = Some val"
    and key: "key \<in> {''BIND_ADDR'', ''MEMPOOL_URL'', ''IMPORT_INTERVAL_SECS'', ''HTTP_CLIENT_TIMEOUT_SECS''}"
  have db: "get_var lookup ''DATABASE_URL'' \<noteq> None"
    using assms(2) e(1) by (cases "get_var lookup ''DATABASE_URL''") (auto simp: from_lookup_def Let_def)
  have "from_lookup U (lookup(''DATABASE_URL'' := Some url)) = Err e" if "url \<noteq> []" for url
    by (rule from_lookup_other_database [OF db _ _ assms(2)]) (use that in \<open>simp_all add: get_var_def\<close>)
  with e key show ?thesis by (intro disjI2 exI [of _ key] exI [of _ val] exI [of _ reason]) simp
qed

lemma config_error_message_witness:
  "\<exists>key val reason e. from_lookup simple_urls (map_of [(''DATABASE_URL'', ''x''), (''IMPORT_INTERVAL_SECS'', ''0'')]) = Err e
     \<and> show_config_error (\<lambda>_. True) e = ''invalid value '' @ debug_str (\<lambda>_. True) val @ '' for '' @ key @ '': '' @ reason"
proof -
  let ?lookup = "map_of [(''DATABASE_URL'', ''x''), (''IMPORT_INTERVAL_SECS'', ''0'')]"
  have "parse_positive_secs ''IMPORT_INTERVAL_SECS'' (get_var ?lookup ''IMPORT_INTERVAL_SECS'')
      DEFAULT_IMPORT_INTERVAL_SECS \<noteq> Ok t" for t
    by (simp add: parse_positive_secs_def get_var_def u64_from_str_def)
  then obtain e where e: "from_lookup simple_urls ?lookup = Err e"
    using from_lookup_Ok_iff [of simple_urls ?lookup] by (metis sum.exhaust)
  have "get_var ?lookup ''DATABASE_URL'' \<noteq> None" by (simp add: get_var_def)
  with config_error_message [OF simple_default_url e, of "\<lambda>_. True"] e show ?thesis by (elim disjE exE conjE) blast+
qed

end
