(* ===== verification/Spec2Isabelle.thy ===== *)
theory Spec2Isabelle
  imports Isolation Service_Tests
begin

text \<open>
  A verification development for the \<^verbatim>\<open>bipa-nodes\<close> service: a Rust crate that imports the connectivity
  ranking of Lightning nodes from mempool.space into Postgres and serves it as JSON over HTTP.

  \<^bold>\<open>The program and the theories.\<close> The crate has one module per part, and one theory models each:

  \<^item> \<open>Domain\<close> models \<^verbatim>\<open>src/src/domain/\<close>: \<open>Node\<close>, \<open>format_btc\<close>, \<open>timestamp_from_unix\<close>, \<open>format_timestamp\<close>.
    \<open>Calendar\<close> below it is the reference for dates: the proleptic Gregorian calendar, unix seconds and
    RFC 3339 texts, with their inverses.
  \<^item> \<open>Source\<close> models \<^verbatim>\<open>src/src/source/\<close>: the decoding and validation of records, \<open>parse_records\<close> with the
    warnings it logs, and \<open>MempoolClient\<close>.
  \<^item> \<open>Storage\<close> models \<^verbatim>\<open>src/src/storage/\<close> and the schema in \<^verbatim>\<open>src/migrations/\<close>: \<open>replace_all\<close> and
    \<open>list_nodes\<close>, one definition per SQL statement, with faults at every await point. \<open>Isolation\<close> models the
    same transaction as single steps, with requests that read the table in between.
  \<^item> \<open>Test_Support\<close> models the doubles of \<^verbatim>\<open>src/src/test_support.rs\<close> and the example of the challenge.
  \<^item> \<open>Importer\<close> models \<^verbatim>\<open>src/src/importer.rs\<close>: \<open>run_once\<close> and the timed loop \<open>run\<close>.
  \<^item> \<open>Http\<close> models \<^verbatim>\<open>src/src/http/\<close>: response shapes, error mapping, handlers, router and layers. \<open>Json_Text\<close>
    adds the texts of the bodies and the schema they follow.
  \<^item> \<open>Std_Parsers\<close> models the standard library's \<open>FromStr\<close> of \<open>u64\<close> and \<open>SocketAddr\<close>, \<open>Config\<close> the
    configuration of \<^verbatim>\<open>src/src/config.rs\<close> on top of it.
  \<^item> \<open>Retry\<close> models the startup half of \<^verbatim>\<open>src/src/app.rs\<close> (backoff, \<open>retry\<close>, error classification), \<open>App\<close> its
    \<open>run\<close> and \<open>serve\<close>, and \<^verbatim>\<open>src/src/main.rs\<close> and \<^verbatim>\<open>src/src/telemetry.rs\<close>.
  \<^item> \<open>Messages\<close> models the texts of all error enums, as their \<open>#[error(..)]\<close> attributes derive them.
  \<^item> \<open>Unit_Tests\<close> and \<open>Service_Tests\<close> translate the crate's unit tests, one boolean per test function, and
    prove that the model passes them.
  \<^item> \<open>Prelude\<close> holds the Rust integer types as words, \<open>Result\<close> as a sum, panics as \<open>outcome\<close>, checked
    conversions, and decimal printing and reading.

  The importer pulls from the source and replaces the snapshot in the repository; the HTTP handlers read the
  repository only. The two sides meet in the two traits, whose contracts are the locales \<open>node_source\<close> and
  \<open>node_repository\<close> (with \<open>strict_repository\<close>, the promise that an error keeps the snapshot). The importer's
  lemmas are proved once in \<open>import_pair\<close> and \<open>strict_import_pair\<close>, and hold for the mempool client with
  Postgres and for the doubles by interpretation.

  \<^bold>\<open>State and effects.\<close> State is passed explicitly: the outside world of the HTTP client, the database
  (\<open>pg_db\<close>), the loop state of the importer (\<open>run_state\<close>). Errors are values of sum types with the source's
  variants; a panic is a value of \<open>outcome\<close>. Time is a clock in nanoseconds, a cancellation token the time of
  its cancellation. Integers keep their width: capacities are 64-bit words, read signed or unsigned as the
  code does. Only the clock is a natural number: a configuration accepts intervals of up to
  \<open>u64::MAX\<close> seconds, and due times beyond the range of Rust's \<open>Instant\<close>, which tokio replaces by a far future
  or refuses with a panic, are outside the model.

  \<^bold>\<open>Code outside the crate\<close> is a parameter of the definitions that use it: chrono (locale \<open>chrono_api\<close>),
  reqwest, serde_json's texts (\<open>from_slice\<close>, locale \<open>json_codec\<close>), sqlx and the Postgres server (\<open>postgres\<close>, \<open>pg_env\<close>, \<open>db_env\<close>), tokio's
  interval (locale \<open>tokio_interval\<close>, the next tick for each \<open>MissedTickBehavior\<close>), axum and tower-http (locale \<open>web_framework\<close>), the url crate (locale
  \<open>url_library\<close>), signals and the listener. Each locale states documented behaviour and is interpreted on
  a reference implementation. The meaning of the SQL statements under the schema is modelled.

  \<^bold>\<open>What the lemmas show.\<close> Formatting and parsing are exact and invertible (\<open>Domain\<close>, \<open>Calendar\<close>,
  \<open>Std_Parsers\<close>); every record of a response is kept or reported (\<open>Source\<close>); the stored snapshot is replaced
  as a whole or not at all and listed in order (\<open>Storage\<close>); also while an import runs every read returns the
  snapshot committed last, as from an atomic register, and one import call leaves the old list or the
  new one (\<open>Isolation\<close>); an import that fails keeps the last good snapshot unless the repository failed after
  it had stored the new one, no failure stops the loop, imports keep their rhythm, start before a
  cancellation only and end promptly after it, unless one of them hangs (\<open>Importer\<close>); every request is answered, with the
  snapshot or a generic error (\<open>Http\<close>), in a text of a fixed schema that reads back as the snapshot,
  instants of the years 0 to 9999 to the second (\<open>Json_Text\<close>); a configuration is accepted exactly when it is usable, and does not
  print its password (\<open>Config\<close>, \<open>Messages\<close>); the startup retries what is transient with bounded delays and gives up on
  what is permanent (\<open>Retry\<close>); shutdown completes when the server stops and the import under way finishes, and
  the database only ever holds data of the source (\<open>App\<close>). The theorems of this theory join them: what a client decodes is one response of the
  source, also while another import is running.

  \<^bold>\<open>Loops.\<close> The two loops of the crate that may not end, \<open>run_loop\<close> and \<open>retry_from\<close>, are partial functions
  into the option type, where \<open>None\<close> is a run that does not return; no fuel is used. That they return after a
  cancellation, the importer loop exactly when no import it started hangs, and that an uncancelled importer
  loop does not, is proved as such. All other functions of
  the crate are total. Only the reference reader of JSON texts in \<open>Json_Text\<close> counts down fuel: one more than
  the length of the text, which \<open>read_print_json\<close> shows to be enough for every printed value.

  \<^bold>\<open>What is not modelled.\<close> How the subscriber renders log lines (log events are values, the error texts in
  them are those of \<open>Messages\<close>), the derived \<open>Debug\<close> texts except for strings, HTTP headers other than the
  content type, connection handling and TLS, the scheduler beyond the delays it causes, the index on the rank
  column, and the integration tests under \<^verbatim>\<open>src/tests/\<close>, which need a database server. Some observations are
  proved: \<open>replace_all_lost_acknowledgement\<close> in \<open>Storage\<close> shows that an error does not always keep the old
  snapshot, \<open>replace_all_success\<close> which validated nodes the database still refuses, \<open>replies_well_typed\<close> in
  \<open>Json_Text\<close> that two kinds of error replies have no body, \<open>importer_spacing\<close> in \<open>Importer\<close> that the import after
  an overrun starts at once, and \<open>redact_query_password\<close> in \<open>Config\<close> that a
  password in the query of the database URL is printed.
\<close>

section \<open>From the source to the client\<close>

lemma snapshot_reply:
  assumes "web_framework respond" and "chrono_api C" and "pg_inv db" and "d < REQUEST_TIMEOUT"
    and "respond (mk_router C (pg_list fault) db) d GET ''/nodes'' = Returned (rep, evs)" and "reply_status rep = 200"
  shows "reply_body rep = Some (JArray (map (\<lambda>n. serialize_node_response (node_response_from C n)) (snapshot db)))"
proof -
  obtain ns where "pg_list fault db = Returned (Ok ns)"
    "reply_body rep = Some (JArray (map (\<lambda>n. serialize_node_response (node_response_from C n)) ns))"
    using web_framework.nodes_200 [OF assms(1,4-6)] .
  with pg.list_content [OF assms(3), of fault] show ?thesis by simp
qed

text \<open>
  C1. End to end, at every turn of the importer and whatever faults the network and the database had before
  it: a 200 answer to \<open>GET /nodes\<close> is the formatted list of one snapshot, node by node and in order. It is
  the one the importer started with (empty on a freshly migrated database), or exactly the acceptable
  records of one response of the source, at least one, with the instants as the database keeps them. No
  answer ever mixes two imports or shows a part of one. Every element decodes to the key, the alias, the
  satoshis and the formatted instant of its node, and, when that is of the years 0 to 9999, to its second.
\<close>

theorem nodes_answer_is_one_response:
  assumes "web_framework respond" and "chrono_api C"
    and "run_reaches E (fetch_nodes C R from_slice client) (pg_replace P F) interval
      (run_start (importer_new w db) interval t) st"
    and "pg_inv db" and "d < REQUEST_TIMEOUT"
    and "respond (mk_router C (pg_list fault) (repo (importer st))) d GET ''/nodes'' = Returned (rep, evs)"
    and "reply_status rep = 200"
  shows "\<exists>ns vs. reply_body rep = Some (JArray vs) \<and>
    (ns = snapshot db \<or> (\<exists>bytes records. from_slice bytes = Ok records \<and>
       ns = map (stored P) (List.map_filter (accept C) records) \<and> ns \<noteq> [])) \<and>
    map read_fields vs = map (\<lambda>n. Some (public_key n, node_alias n, unat (capacity_sats n),
      format_timestamp C (first_seen n))) ns \<and>
    list_all2 (\<lambda>v n. printable C n \<longrightarrow> read_node v =
      Some (public_key n, node_alias n, unat (capacity_sats n), timestamp C (first_seen n))) vs ns"
proof -
  let ?ns = "snapshot (repo (importer st))"
  have origin: "pg_inv (repo (importer st)) \<and> (?ns = snapshot db \<or>
      (\<exists>ns. from_response C from_slice ns \<and> ?ns = map (stored P) ns))"
    using chrono_api.importer_origin [OF assms(2,3)] assms(4) by (simp add: importer_new_def)
  then have body: "reply_body rep = Some (JArray (map (\<lambda>n. serialize_node_response (node_response_from C n)) ?ns))"
    by (intro snapshot_reply [OF assms(1,2) _ assms(5-7)]) simp
  have "?ns = snapshot db \<or> (\<exists>bytes records. from_slice bytes = Ok records \<and>
      ?ns = map (stored P) (List.map_filter (accept C) records) \<and> ?ns \<noteq> [])"
    using origin unfolding from_response_def by (metis map_is_Nil_conv)
  with body chrono_api.read_node_response [OF assms(2)] show ?thesis
    by (intro exI [of _ ?ns]
        exI [of _ "map (\<lambda>n. serialize_node_response (node_response_from C n)) ?ns"] conjI)
      (simp_all add: read_fields_response list.rel_map list.rel_refl)
qed

text \<open>
  C2. A request in the middle of an import: whatever steps of a transaction have run, and whether it is
  still open, \<open>GET /nodes\<close> answers 200 with the formatted nodes of the last commit, in their order, or of
  the initial table when nothing was committed. An import never makes the ranking disappear for a moment.
\<close>

theorem request_during_import:
  assumes "web_framework respond" and "d < REQUEST_TIMEOUT" and "trace (act P) s as s'" and "shared_ok P s"
  shows "respond (mk_router C (pg_list (\<lambda>_. None)) (as_db s')) d GET ''/nodes'' = Returned (json_reply 200
    (JArray (map (\<lambda>n. serialize_node_response (node_response_from C n))
      (latest (snapshot (as_db s)) (map (observe P) as)))), [])"
  by (simp add: web_framework.nodes_reply_cases [OF assms(1,2)] pg_list_def trace_list_nodes [OF assms(3,4)])

lemma request_during_import_witness:
  "\<exists>s'. trace (act plain_postgres) migrated [Begin [example_node], Delete] s'
    \<and> dispatch (mk_router utc_chrono (pg_list (\<lambda>_. None)) (as_db s')) 0 GET ''/nodes''
        = Returned (json_reply 200 (JArray []), [])"
proof -
  have "trace (act plain_postgres) migrated ([Begin [example_node], Delete] @
      [Read None (Ok []), Insert 7, Commit [example_node] True, Read None (Ok [example_node])])
      (migrated\<lparr>visible := Some example_rows, writer := Idle\<rparr>)"
    using example_trace by simp
  then obtain s' where s': "trace (act plain_postgres) migrated [Begin [example_node], Delete] s'"
    unfolding trace_append by blast
  have d: "0 < REQUEST_TIMEOUT" by (simp add: REQUEST_TIMEOUT_def duration_from_secs_def)
  have "dispatch (mk_router utc_chrono (pg_list (\<lambda>_. None)) (as_db s')) 0 GET ''/nodes'' = Returned (json_reply 200
      (JArray (map (\<lambda>n. serialize_node_response (node_response_from utc_chrono n))
        (latest (snapshot (as_db migrated)) (map (observe plain_postgres) [Begin [example_node], Delete])))), [])"
    by (rule request_during_import [OF ref.web_framework_axioms d s' migrated_ok(3)])
  with s' show ?thesis by (auto simp: migrated_ok)
qed

text \<open>The first import of the concrete service: it stores the challenge's example.\<close>

lemma test_first_import:
  assumes "loop_step test_env (fetch_nodes utc_chrono (env_reqwest test_service) (\<lambda>_. Ok challenge_example) client)
      (pg_replace plain_postgres (\<lambda>_. quiet_env 0)) interval
      (run_start (importer_new 0 \<lparr>relation = Some [], calls = 0\<rparr>) interval t) = Next st"
  shows "iteration st = 1 \<and> snapshot (repo (importer st)) = challenge_list"
proof -
  let ?db = "\<lparr>relation = Some [], calls = 0\<rparr> :: int pg_db"
  have fetch: "fetch_nodes utc_chrono (env_reqwest test_service) (\<lambda>_. Ok challenge_example) client 0
      = (Returned (Ok challenge_list), 1)"
    by (simp add: fetch_nodes_def decode_response_cases test_service_def is_success_def challenge_example_accepted)
  have "acceptable plain_postgres challenge_list"
    by (simp add: acceptable_def fits_db_def storable_def plain_postgres_def challenge_list_def max_ranks_def
        i64_max_def ACINQ_KEY_def WOS_KEY_def)
  then have "fst (replace_all plain_postgres (quiet_env 0) challenge_list ?db) = Ok 2"
    unfolding replace_all_Ok_iff by (simp add: quiet_env_def no_fault_def challenge_list_def)
  then obtain db' where db': "replace_all plain_postgres (quiet_env 0) challenge_list ?db = (Ok 2, db')"
    by (metis prod.collapse)
  obtain x where "iteration st = 1" "run_once (fetch_nodes utc_chrono (env_reqwest test_service)
      (\<lambda>_. Ok challenge_example) client) (pg_replace plain_postgres (\<lambda>_. quiet_env 0)) (importer_new 0 ?db)
      = (x, importer st)"
    using assms by (rule loop_step_Next) simp
  moreover have "challenge_list \<noteq> []" by (simp add: challenge_list_def)
  ultimately have "iteration st = 1" "importer st = \<lparr>source = 1, repo = db'\<rparr>"
    using fetch db' by (auto simp: run_once_def importer_new_def pg_replace_def)
  with replace_all_Ok(2) [OF db'] show ?thesis by (simp add: map_idI)
qed

lemma nodes_answer_is_one_response_witness:
  "\<exists>st rep evs. run_reaches test_env (fetch_nodes utc_chrono (env_reqwest test_service) (\<lambda>_. Ok challenge_example)
        \<lparr>http = (), url = mempool_url test_config\<rparr>) (pg_replace plain_postgres (\<lambda>_. quiet_env 0)) 60000000000
        (run_start (importer_new 0 \<lparr>relation = Some [], calls = 0\<rparr>) 60000000000 0) st
    \<and> iteration st = 1
    \<and> dispatch (mk_router utc_chrono (pg_list (\<lambda>_. None)) (repo (importer st))) 0 GET ''/nodes'' = Returned (rep, evs)
    \<and> (\<exists>vs. reply_body rep = Some (JArray vs) \<and> map read_node vs =
           [Some (ACINQ_KEY, ''ACINQ'', 36010516297, 1522941222),
            Some (WOS_KEY, ''WalletOfSatoshi.com'', 15464503162, 1601429940)])"
proof -
  let ?fetch = "fetch_nodes utc_chrono (env_reqwest test_service) (\<lambda>_. Ok challenge_example)
    \<lparr>http = (), url = mempool_url test_config\<rparr>"
  let ?replace = "pg_replace plain_postgres (\<lambda>_. quiet_env 0)"
  let ?st0 = "run_start (importer_new 0 \<lparr>relation = Some [], calls = 0\<rparr>) 60000000000 0"
  have "\<not> select_cancelled test_env ?st0" "took test_env (iteration ?st0) = Some 2000000000"
    by (simp_all add: select_cancelled_def test_env_def select_time_def)
  then obtain st where st: "loop_step test_env ?fetch ?replace 60000000000 ?st0 = Next st"
    using loop_step_next by blast
  have reach: "run_reaches test_env ?fetch ?replace 60000000000 ?st0 st"
    by (rule run_reaches.turn [OF run_reaches.here st])
  have one: "iteration st = 1" "snapshot (repo (importer st)) = challenge_list"
    using test_first_import [OF st] by blast+
  have "pg_inv (repo (importer ?st0))" by (simp add: importer_new_def pg_inv_def table_ok_def)
  from utc.importer_origin [OF reach this] have inv: "pg_inv (repo (importer st))" by blast
  have d: "0 < REQUEST_TIMEOUT" by (simp add: REQUEST_TIMEOUT_def duration_from_secs_def)
  obtain rep evs where out: "dispatch (mk_router utc_chrono (pg_list (\<lambda>_. None)) (repo (importer st))) 0 GET ''/nodes''
      = Returned (rep, evs)" "reply_status rep = 200" "reply_body rep \<noteq> Some (JArray [])"
    using list_nodes_inv [OF inv] one(2)
    by (simp add: ref.nodes_reply_cases [OF d] pg_list_def json_reply_def challenge_list_def)
  have db: "pg_inv \<lparr>relation = Some [], calls = 0\<rparr>" "snapshot \<lparr>relation = Some [], calls = 0\<rparr> = ([] :: int node list)"
    by (simp_all add: pg_inv_def table_ok_def snapshot_def table_nodes_def by_rank_def)
  have kept: "map (stored plain_postgres) challenge_list = challenge_list" by (simp add: map_idI)
  obtain ns vs where vs: "reply_body rep = Some (JArray vs)" "list_all2 (\<lambda>v n. printable utc_chrono n \<longrightarrow>
      read_node v = Some (public_key n, node_alias n, unat (capacity_sats n), timestamp utc_chrono (first_seen n))) vs ns"
    and ns: "ns = [] \<or> ns = challenge_list"
    using nodes_answer_is_one_response [OF ref.web_framework_axioms utc.chrono_api_axioms reach db(1) d out(1,2)]
    by (elim exE conjE disjE) (simp_all add: challenge_example_accepted db(2) kept)
  from vs out(3) have "ns \<noteq> []" by auto
  with ns vs(2) challenge_printable have "map read_node vs = [Some (ACINQ_KEY, ''ACINQ'', 36010516297, 1522941222),
       Some (WOS_KEY, ''WalletOfSatoshi.com'', 15464503162, 1601429940)]"
    by (auto simp: challenge_list_def list_all2_Cons2 utc_timestamp)
  with vs(1) have "\<exists>vs. reply_body rep = Some (JArray vs) \<and> map read_node vs =
      [Some (ACINQ_KEY, ''ACINQ'', 36010516297, 1522941222),
       Some (WOS_KEY, ''WalletOfSatoshi.com'', 15464503162, 1601429940)]"
    by (intro exI [of _ vs]) (simp only: simp_thms)
  with reach one(1) out(1) show ?thesis
    by (intro exI [of _ st], intro exI [of _ rep], intro exI [of _ evs]) (simp only: simp_thms)
qed

end
